(* ===== verification/Prelude.thy ===== *)
theory Prelude
  imports Main "HOL-Library.Word" "HOL-Library.State_Monad" "HOL-Library.AList"
    "HOL-Library.Multiset"
begin

text \<open>
  Shared vocabulary of the development.

  \<^item> Go's scalar types: \<open>gostring\<close> is a byte string, \<open>int32\<close> and \<open>int64\<close> are
    words of that width whose signed value is \<^const>\<open>sint\<close>; \<open>duration\<close> is Go's
    \<open>time.Duration\<close>, an \<open>int64\<close> number of nanoseconds.
  \<^item> A method that changes the receiver or calls out of the package is a value of
    \<open>('s, 'a) state\<close> (HOL-Library.State_Monad).  A weakest-precondition operator
    \<open>wp\<close> with one rewrite rule per program construct (collection \<open>wp_simps\<close>)
    carries the proofs about such methods.
  \<^item> Goroutines that share state are step relations.  \<open>reachable\<close> is the set of
    states of such a relation, and the locale \<open>inductive_invariant\<close> is the contract
    under which an invariant holds in all of them.
  \<^item> Go maps are association lists without duplicate keys.
\<close>

section \<open>Types\<close>

type_synonym gostring = string
type_synonym int32 = "32 word"
type_synonym int64 = "64 word"
type_synonym duration = int64
type_synonym 'v gomap = "(gostring \<times> 'v) list"

text \<open>The end of a call that may panic.\<close>

datatype 'a outcome = Returns 'a | Panics

named_theorems wp_simps \<open>weakest preconditions of the program constructs\<close>
named_theorems wp_intros \<open>contracts of operations, as introduction rules for wp\<close>

text \<open>\<open>time.Millisecond\<close> and \<open>time.Second\<close>, in nanoseconds.\<close>

definition Millisecond :: duration where
  "Millisecond = 1000000"

definition Second :: duration where
  "Second = 1000000000"

text \<open>
  \<open>time.Time\<close> as nanoseconds since the Unix epoch.  The zero \<open>Time\<close> is the start of year 1;
  \<open>Unix\<close> rounds down, since a \<open>Time\<close> keeps a non-negative nanosecond part.
\<close>

type_synonym gotime = int

definition time_zero :: gotime where
  "time_zero = - 62135596800 * 1000000000"

definition time_IsZero :: "gotime \<Rightarrow> bool" where
  "time_IsZero t \<longleftrightarrow> t = time_zero"

definition time_Unix :: "gotime \<Rightarrow> int" where
  "time_Unix t = t div 1000000000"

section \<open>Stateful code\<close>

definition gets :: "('s \<Rightarrow> 'a) \<Rightarrow> ('s, 'a) state" where
  "gets f = State (\<lambda>s. (f s, s))"

definition wp :: "('s, 'a) state \<Rightarrow> ('a \<Rightarrow> 's \<Rightarrow> bool) \<Rightarrow> 's \<Rightarrow> bool" where
  "wp m Q s = (case run_state m s of (a, s') \<Rightarrow> Q a s')"

section \<open>Step relations\<close>

inductive reachable :: "('s \<Rightarrow> bool) \<Rightarrow> ('s \<Rightarrow> 's \<Rightarrow> bool) \<Rightarrow> 's \<Rightarrow> bool"
  for init :: "'s \<Rightarrow> bool" and step :: "'s \<Rightarrow> 's \<Rightarrow> bool" where
  reach_init: "init s \<Longrightarrow> reachable init step s"
| reach_step: "reachable init step s \<Longrightarrow> step s t \<Longrightarrow> reachable init step t"

section \<open>Lemmas\<close>

lemma run_gets [simp]: "run_state (gets f) s = (f s, s)"
  by (simp add: gets_def)

lemma wp_return [wp_simps]: "wp (State_Monad.return a) Q s = Q a s"
  by (simp add: wp_def)

lemma wp_bind [wp_simps]: "wp (State_Monad.bind m f) Q s = wp m (\<lambda>a. wp (f a) Q) s"
  by (simp add: wp_def split: prod.splits)

lemma wp_gets [wp_simps]: "wp (gets f) Q s = Q (f s) s"
  by (simp add: wp_def)

lemma wp_update [wp_simps]: "wp (State_Monad.update f) Q s = Q () (f s)"
  by (simp add: wp_def State_Monad.update_def State_Monad.get_def State_Monad.set_def State_Monad.bind_def)

lemma wp_if [wp_simps]: "wp (if b then m else n) Q s = (if b then wp m Q s else wp n Q s)"
  by simp

lemma wp_case_option [wp_simps]:
  "wp (case x of None \<Rightarrow> m | Some a \<Rightarrow> f a) Q s =
     (case x of None \<Rightarrow> wp m Q s | Some a \<Rightarrow> wp (f a) Q s)"
  by (cases x) simp_all

lemma wp_case_sum [wp_simps]:
  "wp (case x of Inl e \<Rightarrow> f e | Inr a \<Rightarrow> g a) Q s =
     (case x of Inl e \<Rightarrow> wp (f e) Q s | Inr a \<Rightarrow> wp (g a) Q s)"
  by (cases x) simp_all

lemma wp_case_outcome [wp_simps]:
  "wp (case x of Returns a \<Rightarrow> f a | Panics \<Rightarrow> m) Q s =
     (case x of Returns a \<Rightarrow> wp (f a) Q s | Panics \<Rightarrow> wp m Q s)"
  by (cases x) simp_all

lemma wp_case_prod [wp_simps]:
  "wp (case x of (a, b) \<Rightarrow> f a b) Q s = (case x of (a, b) \<Rightarrow> wp (f a b) Q s)"
  by (cases x) simp

lemma wp_mono: "wp m P s \<Longrightarrow> (\<And>a t. P a t \<Longrightarrow> Q a t) \<Longrightarrow> wp m Q s"
  by (auto simp: wp_def split: prod.splits)

lemma wp_conj: "wp m P s \<Longrightarrow> wp m Q s \<Longrightarrow> wp m (\<lambda>a t. P a t \<and> Q a t) s"
  by (auto simp: wp_def split: prod.splits)

text \<open>From a weakest precondition to a fact about one run, and back.\<close>

lemma wpD: "wp m Q s \<Longrightarrow> run_state m s = (a, s') \<Longrightarrow> Q a s'"
  by (simp add: wp_def)

lemma wpI: "(\<And>a s'. run_state m s = (a, s') \<Longrightarrow> Q a s') \<Longrightarrow> wp m Q s"
  by (simp add: wp_def split: prod.splits)

lemma wp_run: "wp m Q s \<Longrightarrow> case run_state m s of (a, t) \<Rightarrow> Q a t"
  by (simp add: wp_def)

subsection \<open>Invariants of step relations\<close>

locale inductive_invariant =
  fixes init :: "'s \<Rightarrow> bool"
    and step :: "'s \<Rightarrow> 's \<Rightarrow> bool"
    and inv :: "'s \<Rightarrow> bool"
  assumes inv_init: "init s \<Longrightarrow> inv s"
    and inv_step: "inv s \<Longrightarrow> step s t \<Longrightarrow> inv t"
begin

lemma inv_reachable: "reachable init step s \<Longrightarrow> inv s"
  by (induction rule: reachable.induct) (auto intro: inv_init inv_step)

lemma inv_run: "step\<^sup>*\<^sup>* s t \<Longrightarrow> inv s \<Longrightarrow> inv t"
  by (induction rule: rtranclp_induct) (auto intro: inv_step)

end

lemma reachable_run: "step\<^sup>*\<^sup>* s t \<Longrightarrow> reachable init step s \<Longrightarrow> reachable init step t"
  by (induction rule: rtranclp_induct) (auto intro: reachable.reach_step)

lemma funpow_diff_Suc: "a < k \<Longrightarrow> (f ^^ (k - Suc a)) (f b) = (f ^^ (k - a)) b"
  by (metis Suc_diff_Suc funpow_Suc_right comp_apply)

subsection \<open>Lists and multisets\<close>

lemma distinct_submset:
  assumes "mset xs \<subseteq># mset ys" "distinct ys"
  shows "distinct xs"
proof -
  have "count (mset xs) a \<le> (if a \<in> set ys then 1 else 0)" for a
    using mset_subset_eq_count [OF assms(1), of a] assms(2) by (simp add: distinct_count_atmost_1)
  moreover have "count (mset xs) a \<noteq> 0 \<longleftrightarrow> a \<in> set xs" for a by (simp add: count_eq_zero_iff)
  ultimately have "count (mset xs) a = (if a \<in> set xs then 1 else 0)" for a
    by (metis le_zero_eq le_Suc_eq One_nat_def)
  then show ?thesis by (simp add: distinct_count_atmost_1)
qed

lemma list_all2_member: "list_all2 P xs ys \<Longrightarrow> x \<in> set xs \<Longrightarrow> \<exists>y. y \<in> set ys \<and> P x y"
  by (metis in_set_conv_nth list_all2_conv_all_nth)

lemma subset_mset_transfer:
  fixes a :: "'a multiset"
  assumes "b + y \<subseteq># c + x" "a + x \<subseteq># b + z"
  shows "a + y \<subseteq># c + z"
proof -
  have "(a + y) + (b + x) \<subseteq># (c + z) + (b + x)"
    using subset_mset.add_mono [OF assms] by (simp add: ac_simps)
  then show ?thesis by simp
qed

lemma subset_parts:
  fixes u :: "'a multiset"
  assumes "a + b + c \<subseteq># u"
  shows "a \<subseteq># u" "b \<subseteq># u - a" "c \<subseteq># u - (a + b)"
proof -
  have "count a x + count b x + count c x \<le> count u x" for x
    using assms by (metis count_union mset_subset_eq_count)
  then show "a \<subseteq># u" "b \<subseteq># u - a" "c \<subseteq># u - (a + b)"
    unfolding subseteq_mset_def by (simp_all add: le_diff_conv2 add_leD1) (metis add.commute add_leD1 add_le_imp_le_diff)+
qed

subsection \<open>Go maps\<close>

text \<open>Go's \<open>m[k] = v\<close> keeps the keys of a map distinct.\<close>

lemma distinct_update:
  "distinct (map fst (m :: 'v gomap)) \<Longrightarrow> distinct (map fst (AList.update k v m))"
  by (simp add: distinct_update)

lemma map_of_update [simp]: "map_of (AList.update k v m) k' = (if k = k' then Some v else map_of m k')"
  by (simp add: update_conv')

end
