(* ===== verification/GoErrors.thy ===== *)
theory GoErrors
  imports Prelude
begin

text \<open>
  The package's error values (\<open>errors.go\<close>) and the parts of Go's \<open>errors\<close> and \<open>fmt\<close>
  packages it uses on them.

  \<open>sentinel\<close> has one constructor per package variable of \<open>errors.go\<close>: each is a distinct
  allocation, and \<open>errors.Is\<close> compares them by identity, so distinct constructors are
  exactly distinct errors.  \<open>goerror\<close> is a non-nil \<open>error\<close> value; a possibly nil \<open>error\<close> is
  \<open>goerror option\<close> with \<^const>\<open>None\<close> for \<open>nil\<close>.  \<open>Errorf\<close> is a \<open>fmt.Errorf\<close> value
  without \<open>%w\<close>, \<open>WrapErrorf\<close> one with \<open>%w\<close>, whose text is fixed when it is made, and
  \<open>External\<close> an error made outside the package.
\<close>

datatype sentinel =
    ErrInvalidConfiguration | ErrMissingURLs | ErrInvalidProducer | ErrInvalidConsumer
  | ErrConnectionFailed | ErrConnectionTimeout | ErrConnectionClosed | ErrChannelFailed
  | ErrProducerNotReady | ErrProducerNotFound | ErrInvalidExchange | ErrInvalidRoutingKey
  | ErrInvalidMessage | ErrPublishMessageFailed | ErrPublishTimeout
  | ErrConsumerNotReady | ErrConsumerNotFound | ErrInvalidQueue | ErrSubscribeFailed
  | ErrConsumeMessageFailed
  | ErrHealthCheckFailed | ErrUnhealthy
  | ErrMaxRetriesExceeded | ErrRetryTimeout
  | ErrEmptyExchange | ErrEmptyQueue | ErrEmptyMessage | ErrInvalidExchangeType
  | ErrInvalidVirtualHost

fun sentinel_text :: "sentinel \<Rightarrow> gostring" where
  "sentinel_text ErrInvalidConfiguration = ''invalid rabbitmq configuration''"
| "sentinel_text ErrMissingURLs = ''rabbitmq server URLs are required''"
| "sentinel_text ErrInvalidProducer = ''invalid producer configuration''"
| "sentinel_text ErrInvalidConsumer = ''invalid consumer configuration''"
| "sentinel_text ErrConnectionFailed = ''failed to connect to rabbitmq''"
| "sentinel_text ErrConnectionTimeout = ''connection timeout''"
| "sentinel_text ErrConnectionClosed = ''connection is closed''"
| "sentinel_text ErrChannelFailed = ''failed to create channel''"
| "sentinel_text ErrProducerNotReady = ''producer is not ready''"
| "sentinel_text ErrProducerNotFound = ''producer not found''"
| "sentinel_text ErrInvalidExchange = ''invalid exchange''"
| "sentinel_text ErrInvalidRoutingKey = ''invalid routing key''"
| "sentinel_text ErrInvalidMessage = ''invalid message''"
| "sentinel_text ErrPublishMessageFailed = ''failed to publish message''"
| "sentinel_text ErrPublishTimeout = ''publish timeout''"
| "sentinel_text ErrConsumerNotReady = ''consumer is not ready''"
| "sentinel_text ErrConsumerNotFound = ''consumer not found''"
| "sentinel_text ErrInvalidQueue = ''invalid queue''"
| "sentinel_text ErrSubscribeFailed = ''failed to subscribe to queue''"
| "sentinel_text ErrConsumeMessageFailed = ''failed to consume message''"
| "sentinel_text ErrHealthCheckFailed = ''health check failed''"
| "sentinel_text ErrUnhealthy = ''service is unhealthy''"
| "sentinel_text ErrMaxRetriesExceeded = ''max retries exceeded''"
| "sentinel_text ErrRetryTimeout = ''retry timeout''"
| "sentinel_text ErrEmptyExchange = ''exchange cannot be empty''"
| "sentinel_text ErrEmptyQueue = ''queue cannot be empty''"
| "sentinel_text ErrEmptyMessage = ''message cannot be empty''"
| "sentinel_text ErrInvalidExchangeType = ''invalid exchange type''"
| "sentinel_text ErrInvalidVirtualHost = ''invalid virtual host''"

text \<open>Arguments of a \<open>fmt\<close> format string.\<close>

datatype fmt_arg = FInt int | FStr gostring

datatype goerror =
    Sentinel sentinel
  | ErrorWithContext "goerror option" gostring
  | Errorf gostring "fmt_arg list"
  | WrapErrorf gostring goerror
  | External gostring

text \<open>
  \<open>fmt.Sprintf\<close> with the verbs the package uses: \<open>%d\<close> on an integer, \<open>%s\<close> and \<open>%q\<close> on a
  string.  \<open>strconv_Quote\<close> follows Go on ASCII; bytes above \<open>0x7f\<close>, which Go keeps when
  they encode printable characters, are kept.
\<close>

fun decimal :: "nat \<Rightarrow> gostring" where
  "decimal n = (if n < 10 then [char_of (48 + n)] else decimal (n div 10) @ [char_of (48 + n mod 10)])"

definition strconv_Itoa :: "int \<Rightarrow> gostring" where
  "strconv_Itoa i = (if i < 0 then ''-'' @ decimal (nat (- i)) else decimal (nat i))"

definition hex_digit :: "nat \<Rightarrow> char" where
  "hex_digit n = (if n < 10 then char_of (48 + n) else char_of (87 + n))"

definition quote_char :: "char \<Rightarrow> gostring" where
  "quote_char c =
     (let n = (of_char c :: nat) in
      if n = 34 \<or> n = 92 then [CHR 0x5C, c]
      else if n = 7 then [CHR 0x5C, CHR ''a''] else if n = 8 then [CHR 0x5C, CHR ''b'']
      else if n = 12 then [CHR 0x5C, CHR ''f''] else if n = 10 then [CHR 0x5C, CHR ''n'']
      else if n = 13 then [CHR 0x5C, CHR ''r''] else if n = 9 then [CHR 0x5C, CHR ''t'']
      else if n = 11 then [CHR 0x5C, CHR ''v'']
      else if n < 32 \<or> n = 127 then [CHR 0x5C, CHR ''x'', hex_digit (n div 16), hex_digit (n mod 16)]
      else [c])"

definition strconv_Quote :: "gostring \<Rightarrow> gostring" where
  "strconv_Quote s = [CHR 0x22] @ concat (map quote_char s) @ [CHR 0x22]"

fun fmt_Sprintf :: "gostring \<Rightarrow> fmt_arg list \<Rightarrow> gostring" where
  "fmt_Sprintf (p # v # f) (a # as) =
     (if p = CHR ''%'' then
        (case a of
           FInt i \<Rightarrow> strconv_Itoa i
         | FStr s \<Rightarrow> (if v = CHR ''q'' then strconv_Quote s else s)) @ fmt_Sprintf f as
      else p # fmt_Sprintf (v # f) (a # as))"
| "fmt_Sprintf f as = f"

text \<open>
  What \<open>fmt\<close> prints for the verb \<open>v\<close> on an error whose \<open>Error\<close> method panics, which here
  is always the nil dereference of \<open>e.Err.Error()\<close>.
\<close>

definition fmt_panic :: "gostring \<Rightarrow> gostring" where
  "fmt_panic v = ''%!'' @ v @ ''(PANIC=Error method: runtime error: '' @
     ''invalid memory address or nil pointer dereference)''"

text \<open>The \<open>Error\<close> method; \<^const>\<open>None\<close> is a panic.\<close>

fun ErrorText :: "goerror \<Rightarrow> gostring option" where
  "ErrorText (Sentinel s) = Some (sentinel_text s)"
| "ErrorText (ErrorWithContext (Some e) c) =
     (if c \<noteq> '''' then
        Some (c @ '': '' @ (case ErrorText e of Some t \<Rightarrow> t | None \<Rightarrow> fmt_panic ''v''))
      else ErrorText e)"
| "ErrorText (ErrorWithContext None c) =
     (if c \<noteq> '''' then Some (c @ '': <nil>'') else None)"
| "ErrorText (Errorf f as) = Some (fmt_Sprintf f as)"
| "ErrorText (WrapErrorf t _) = Some t"
| "ErrorText (External t) = Some t"

definition Errorf_w :: "gostring \<Rightarrow> goerror \<Rightarrow> goerror" where
  "Errorf_w p e =
     WrapErrorf (p @ '': '' @ (case ErrorText e of Some t \<Rightarrow> t | None \<Rightarrow> fmt_panic ''w'')) e"

definition Unwrap :: "goerror \<Rightarrow> goerror option" where
  "Unwrap e = (case e of
       ErrorWithContext eo _ \<Rightarrow> eo
     | WrapErrorf _ e' \<Rightarrow> Some e'
     | _ \<Rightarrow> None)"

definition WrapError :: "goerror option \<Rightarrow> gostring \<Rightarrow> goerror" where
  "WrapError err context = ErrorWithContext err context"

text \<open>
  \<open>errors.Is\<close> follows the \<open>Unwrap\<close> chain and compares each error of it with the target.
  The targets of the package are its sentinels, so the target is a \<open>sentinel\<close>.
\<close>

fun errors_Is :: "goerror option \<Rightarrow> sentinel \<Rightarrow> bool" where
  "errors_Is None t = False"
| "errors_Is (Some (Sentinel s)) t = (s = t)"
| "errors_Is (Some (ErrorWithContext eo c)) t = errors_Is eo t"
| "errors_Is (Some (Errorf f as)) t = False"
| "errors_Is (Some (WrapErrorf m e)) t = errors_Is (Some e) t"
| "errors_Is (Some (External m)) t = False"

definition IsError :: "goerror option \<Rightarrow> sentinel \<Rightarrow> bool" where
  "IsError err target = errors_Is err target"

section \<open>Lemmas\<close>

declare decimal.simps [simp del]

lemma decimal_nonempty: "decimal n \<noteq> []"
  by (subst decimal.simps) simp

lemma errors_Is_unwrap:
  "errors_Is (Some e) t \<longleftrightarrow> e = Sentinel t \<or> errors_Is (Unwrap e) t"
  by (cases e) (auto simp: Unwrap_def)

lemma IsError_simps [simp]:
  "\<not> IsError None t"
  "IsError (Some (Sentinel s)) t = (s = t)"
  "IsError (Some (WrapError eo c)) t = IsError eo t"
  "IsError (Some (Errorf_w p e)) t = IsError (Some e) t"
  "\<not> IsError (Some (Errorf f as)) t"
  "\<not> IsError (Some (External m)) t"
  by (simp_all add: IsError_def WrapError_def Errorf_w_def)

text \<open>Sentinels have pairwise different texts, so a sentinel can be told from its text.\<close>

lemma sentinel_text_inj: "sentinel_text s = sentinel_text t \<Longrightarrow> s = t"
  by (cases s; cases t; simp)

text \<open>
  The \<open>Error\<close> method panics exactly on a chain of empty-context wrappers around a nil
  error.
\<close>

fun nil_chain :: "goerror \<Rightarrow> bool" where
  "nil_chain (ErrorWithContext None c) = (c = '''')"
| "nil_chain (ErrorWithContext (Some e) c) = (c = '''' \<and> nil_chain e)"
| "nil_chain _ = False"

lemma ErrorText_panics: "ErrorText e = None \<longleftrightarrow> nil_chain e"
  by (induction e rule: nil_chain.induct) auto

end
