(* ===== verification/Names.thy ===== *)
theory Names
  imports GoErrors
begin

text \<open>
  The validation and URL helpers of \<open>utils.go\<close> with the package constants of
  \<open>constants.go\<close>.  A validator returns \<^const>\<open>None\<close> for Go's nil error.  The three name
  validators share one contract, the locale \<open>name_validator\<close>: which names they accept and
  which sentinel a rejection carries.
\<close>

section \<open>Constants\<close>

definition pluginName :: gostring where "pluginName = ''rabbitmq''"
definition pluginVersion :: gostring where "pluginVersion = ''v1.6.3''"
definition pluginDescription :: gostring where
  "pluginDescription = ''RabbitMQ message queue plugin for Lynx framework''"
definition confPrefix :: gostring where "confPrefix = ''lynx.rabbitmq''"

definition defaultDialTimeout :: gostring where "defaultDialTimeout = ''3s''"
definition defaultHeartbeat :: gostring where "defaultHeartbeat = ''30s''"
definition defaultPublishTimeout :: gostring where "defaultPublishTimeout = ''3s''"
definition defaultRetryBackoff :: gostring where "defaultRetryBackoff = ''100ms''"
definition defaultMaxRetries :: int32 where "defaultMaxRetries = 3"
definition defaultPrefetchCount :: int32 where "defaultPrefetchCount = 1"
definition defaultMaxConcurrency :: int32 where "defaultMaxConcurrency = 1"
definition defaultChannelPoolSize :: int32 where "defaultChannelPoolSize = 10"
definition defaultVirtualHost :: gostring where "defaultVirtualHost = ''/''"

definition ExchangeTypeDirect :: gostring where "ExchangeTypeDirect = ''direct''"
definition ExchangeTypeFanout :: gostring where "ExchangeTypeFanout = ''fanout''"
definition ExchangeTypeTopic :: gostring where "ExchangeTypeTopic = ''topic''"
definition ExchangeTypeHeaders :: gostring where "ExchangeTypeHeaders = ''headers''"

definition defaultExchange :: gostring where "defaultExchange = ''lynx.exchange''"
definition defaultQueue :: gostring where "defaultQueue = ''lynx.queue''"
definition defaultConsumer :: gostring where "defaultConsumer = ''lynx.consumer''"

lemmas constant_defs =
  pluginName_def pluginVersion_def pluginDescription_def confPrefix_def
  defaultDialTimeout_def defaultHeartbeat_def defaultPublishTimeout_def defaultRetryBackoff_def
  defaultMaxRetries_def defaultPrefetchCount_def defaultMaxConcurrency_def
  defaultChannelPoolSize_def defaultVirtualHost_def ExchangeTypeDirect_def
  ExchangeTypeFanout_def ExchangeTypeTopic_def ExchangeTypeHeaders_def
  defaultExchange_def defaultQueue_def defaultConsumer_def

section \<open>Validation\<close>

text \<open>\<open>strings.Contains\<close>: some suffix of the string starts with the substring.\<close>

fun strings_Contains :: "gostring \<Rightarrow> gostring \<Rightarrow> bool" where
  "strings_Contains [] sub = (sub = [])"
| "strings_Contains (c # s) sub =
     (take (length sub) (c # s) = sub \<or> strings_Contains s sub)"

definition invalidNameChars :: "gostring list" where
  "invalidNameChars =
     [''%'', ''&'', ''*'', ''+'', ''/'', [CHR 0x5C], '':'', ''|'', ''<'', ''>'', ''?'', '' '']"

definition invalidVHostChars :: "gostring list" where
  "invalidVHostChars =
     [''%'', ''&'', ''*'', ''+'', [CHR 0x5C], '':'', ''|'', ''<'', ''>'', ''?'', '' '']"

text \<open>The loop of the validators: the first listed substring the name contains.\<close>

fun first_contained :: "gostring list \<Rightarrow> gostring \<Rightarrow> gostring option" where
  "first_contained [] name = None"
| "first_contained (c # cs) name =
     (if strings_Contains name c then Some c else first_contained cs name)"

definition validateExchange :: "gostring \<Rightarrow> goerror option" where
  "validateExchange exchange =
     (if exchange = '''' then Some (Sentinel ErrEmptyExchange)
      else if length exchange > 255 then
        Some (WrapError (Some (Sentinel ErrInvalidExchange)) ''exchange name too long'')
      else (case first_contained invalidNameChars exchange of
          Some c \<Rightarrow> Some (WrapError (Some (Sentinel ErrInvalidExchange))
                            (''exchange contains invalid character: '' @ c))
        | None \<Rightarrow> None))"

definition validateQueue :: "gostring \<Rightarrow> goerror option" where
  "validateQueue queue =
     (if queue = '''' then Some (Sentinel ErrEmptyQueue)
      else if length queue > 255 then
        Some (WrapError (Some (Sentinel ErrInvalidQueue)) ''queue name too long'')
      else (case first_contained invalidNameChars queue of
          Some c \<Rightarrow> Some (WrapError (Some (Sentinel ErrInvalidQueue))
                            (''queue contains invalid character: '' @ c))
        | None \<Rightarrow> None))"

definition validateExchangeType :: "gostring \<Rightarrow> goerror option" where
  "validateExchangeType exchangeType =
     (if exchangeType = ExchangeTypeDirect \<or> exchangeType = ExchangeTypeFanout \<or>
         exchangeType = ExchangeTypeTopic \<or> exchangeType = ExchangeTypeHeaders then None
      else Some (WrapError (Some (Sentinel ErrInvalidExchangeType))
                   (''invalid exchange type: '' @ exchangeType)))"

definition validateVirtualHost :: "gostring \<Rightarrow> goerror option" where
  "validateVirtualHost vhost =
     (if vhost = '''' then Some (Sentinel ErrInvalidVirtualHost)
      else if length vhost > 255 then
        Some (WrapError (Some (Sentinel ErrInvalidVirtualHost)) ''virtual host name too long'')
      else (case first_contained invalidVHostChars vhost of
          Some c \<Rightarrow> Some (WrapError (Some (Sentinel ErrInvalidVirtualHost))
                            (''virtual host contains invalid character: '' @ c))
        | None \<Rightarrow> None))"

section \<open>URLs\<close>

definition buildAMQPURL ::
  "gostring \<Rightarrow> gostring \<Rightarrow> gostring \<Rightarrow> gostring \<Rightarrow> gostring \<Rightarrow> gostring" where
  "buildAMQPURL username password host port vhost =
     (let username = (if username = '''' then ''guest'' else username);
          password = (if password = '''' then ''guest'' else password);
          host = (if host = '''' then ''localhost'' else host);
          port = (if port = '''' then ''5672'' else port);
          vhost = (if vhost = '''' then ''/'' else vhost)
      in ''amqp://'' @ username @ '':'' @ password @ ''@'' @ host @ '':'' @ port @ ''/'' @ vhost)"

section \<open>Lemmas\<close>

lemma strings_Contains_char [simp]: "strings_Contains s [c] \<longleftrightarrow> c \<in> set s"
  by (induction s) auto

lemma strings_Contains_iff: "strings_Contains s sub \<longleftrightarrow> (\<exists>a b. s = a @ sub @ b)"
proof (induction s)
  case (Cons c s)
  have "take (length sub) (c # s) = sub \<longleftrightarrow> (\<exists>b. c # s = sub @ b)"
    by (metis append_eq_conv_conj append_take_drop_id)
  then show ?case
    using Cons by (auto simp: Cons_eq_append_conv)
qed simp

lemma first_contained_None:
  "first_contained cs n = None \<longleftrightarrow> (\<forall>c \<in> set cs. \<not> strings_Contains n c)"
  by (induction cs) auto

lemma first_contained_Some:
  "first_contained cs n = Some c \<Longrightarrow> c \<in> set cs \<and> strings_Contains n c"
  by (induction cs) (auto split: if_splits)

subsection \<open>The contract of a name validator\<close>

locale name_validator =
  fixes validate :: "gostring \<Rightarrow> goerror option"
    and chars :: "gostring list"
    and empty_err bad_err :: sentinel
    and blame :: gostring
  assumes reject_empty: "validate '''' = Some (Sentinel empty_err)"
    and reject_long: "255 < length n \<Longrightarrow> \<exists>c. validate n = Some (WrapError (Some (Sentinel bad_err)) c)"
    and reject_char: "n \<noteq> '''' \<Longrightarrow> length n \<le> 255 \<Longrightarrow> first_contained chars n = Some ch \<Longrightarrow>
          validate n = Some (WrapError (Some (Sentinel bad_err)) (blame @ ch))"
    and accept: "n \<noteq> '''' \<Longrightarrow> length n \<le> 255 \<Longrightarrow> first_contained chars n = None \<Longrightarrow>
          validate n = None"
begin

lemma accepts_iff:
  "validate n = None \<longleftrightarrow>
     n \<noteq> '''' \<and> length n \<le> 255 \<and> (\<forall>c \<in> set chars. \<not> strings_Contains n c)"
proof (cases "n = '''' \<or> 255 < length n")
  case True
  then show ?thesis using reject_empty reject_long [of n] by auto
next
  case False
  then show ?thesis
    using reject_char [of n] accept [of n]
    by (cases "first_contained chars n") (auto simp: first_contained_None dest: first_contained_Some)
qed

lemma reject_class:
  assumes "validate n = Some e"
  shows "IsError (Some e) t \<longleftrightarrow> t = (if n = '''' then empty_err else bad_err)"
proof (cases "n = '''' \<or> 255 < length n")
  case True
  then show ?thesis using assms reject_empty reject_long [of n] by auto
next
  case False
  then show ?thesis
    using assms reject_char [of n] accept [of n] by (cases "first_contained chars n") auto
qed

end

interpretation exchange_name:
  name_validator validateExchange invalidNameChars ErrEmptyExchange ErrInvalidExchange
    "''exchange contains invalid character: ''"
  by unfold_locales (auto simp: validateExchange_def)

interpretation queue_name:
  name_validator validateQueue invalidNameChars ErrEmptyQueue ErrInvalidQueue
    "''queue contains invalid character: ''"
  by unfold_locales (auto simp: validateQueue_def)

interpretation vhost_name:
  name_validator validateVirtualHost invalidVHostChars ErrInvalidVirtualHost ErrInvalidVirtualHost
    "''virtual host contains invalid character: ''"
  by unfold_locales (auto simp: validateVirtualHost_def)

lemma invalidNameChars_vhost: "set invalidNameChars = insert ''/'' (set invalidVHostChars)"
  by (auto simp: invalidNameChars_def invalidVHostChars_def)

lemma validateExchangeType_None:
  "validateExchangeType t = None \<longleftrightarrow> t \<in> {''direct'', ''fanout'', ''topic'', ''headers''}"
  by (simp add: validateExchangeType_def constant_defs)

lemma validateExchangeType_class:
  "validateExchangeType t = Some e \<Longrightarrow> IsError (Some e) s \<longleftrightarrow> s = ErrInvalidExchangeType"
  by (auto simp: validateExchangeType_def split: if_splits)

lemma forbidden_chars:
  "(\<forall>c \<in> set invalidNameChars. \<not> strings_Contains n c) \<longleftrightarrow> set n \<inter> set ''%&*+/:|<>? '' = {} \<and> CHR 0x5C \<notin> set n"
  "(\<forall>c \<in> set invalidVHostChars. \<not> strings_Contains n c) \<longleftrightarrow> set n \<inter> set ''%&*+:|<>? '' = {} \<and> CHR 0x5C \<notin> set n"
  by (auto simp: invalidNameChars_def invalidVHostChars_def)

lemma rejected_classes:
  "validateExchange n = Some e \<Longrightarrow> {t. IsError (Some e) t} = {if n = '''' then ErrEmptyExchange else ErrInvalidExchange}"
  "validateQueue n = Some e \<Longrightarrow> {t. IsError (Some e) t} = {if n = '''' then ErrEmptyQueue else ErrInvalidQueue}"
  "validateVirtualHost n = Some e \<Longrightarrow> {t. IsError (Some e) t} = {ErrInvalidVirtualHost}"
  "validateExchangeType n = Some e \<Longrightarrow> {t. IsError (Some e) t} = {ErrInvalidExchangeType}"
  by (auto simp: exchange_name.reject_class queue_name.reject_class vhost_name.reject_class validateExchangeType_class)

section \<open>Properties\<close>

text \<open>
  C20.  The validators accept exactly the names of 1 to 255 bytes without the forbidden
  characters, among which the slash is for exchanges and queues but not for virtual hosts, and
  exactly the four exchange types.  A rejected name gets an error of one class: the empty-name
  error, or the invalid-name error of its kind.
\<close>

theorem validators_exact:
  "(validateExchange n = None) = (1 \<le> length n \<and> length n \<le> 255 \<and> set n \<inter> set ''%&*+/:|<>? '' = {} \<and> CHR 0x5C \<notin> set n) \<and>
   (validateQueue n = None) = (1 \<le> length n \<and> length n \<le> 255 \<and> set n \<inter> set ''%&*+/:|<>? '' = {} \<and> CHR 0x5C \<notin> set n) \<and>
   (validateVirtualHost n = None) = (1 \<le> length n \<and> length n \<le> 255 \<and> set n \<inter> set ''%&*+:|<>? '' = {} \<and> CHR 0x5C \<notin> set n) \<and>
   (validateExchangeType n = None) = (n \<in> {''direct'', ''fanout'', ''topic'', ''headers''}) \<and>
   (case validateExchange n of None \<Rightarrow> True
    | Some e \<Rightarrow> {t. IsError (Some e) t} = {if n = '''' then ErrEmptyExchange else ErrInvalidExchange}) \<and>
   (case validateQueue n of None \<Rightarrow> True
    | Some e \<Rightarrow> {t. IsError (Some e) t} = {if n = '''' then ErrEmptyQueue else ErrInvalidQueue}) \<and>
   (case validateVirtualHost n of None \<Rightarrow> True | Some e \<Rightarrow> {t. IsError (Some e) t} = {ErrInvalidVirtualHost}) \<and>
   (case validateExchangeType n of None \<Rightarrow> True | Some e \<Rightarrow> {t. IsError (Some e) t} = {ErrInvalidExchangeType})"
proof -
  have len: "n \<noteq> '''' \<longleftrightarrow> 1 \<le> length n" by (cases n) simp_all
  show ?thesis
    unfolding exchange_name.accepts_iff queue_name.accepts_iff vhost_name.accepts_iff validateExchangeType_None
      forbidden_chars len
    by (simp add: rejected_classes split: option.split)
qed

end
