(* ===== verification/Config.thy ===== *)
theory Config
  imports Names "HOL-Library.Signed_Division"
begin

text \<open>
  The configuration messages (\<open>conf/rabbitmq.pb.go\<close>), the defaults and
  \<open>normalizeRabbitMQConfig\<close> (\<open>client.go\<close>).

  A pointer to a message is an \<open>option\<close>, with \<^const>\<open>None\<close> for nil.  The well-known type
  \<open>durationpb.Duration\<close> comes from the protobuf runtime: its two functions are the record
  \<open>durationpb\<close>, an argument of every definition that uses them, and \<open>durationpb_ok\<close> is the
  documented law the code relies on.  \<open>normalizeRabbitMQConfig\<close> mutates its argument in
  place, so the model returns the configuration next to the error, in the state it has
  when the function returns.
\<close>

section \<open>Messages\<close>

record pbDuration =
  Seconds :: int64
  Nanos :: int32

record durationpb =
  AsDuration :: "pbDuration option \<Rightarrow> duration"
  NewDuration :: "duration \<Rightarrow> pbDuration"

record Producer =
  p_Enabled :: bool
  p_Exchange :: gostring
  p_ExchangeType :: gostring
  p_RoutingKey :: gostring
  p_MaxRetries :: int32
  p_RetryBackoff :: "pbDuration option"
  p_PublishTimeout :: "pbDuration option"
  p_Name :: gostring
  p_ExchangeDurable :: bool
  p_ExchangeAutoDelete :: bool
  p_MessagePersistent :: bool

record Consumer =
  c_Enabled :: bool
  c_Queue :: gostring
  c_Exchange :: gostring
  c_RoutingKey :: gostring
  c_ConsumerTag :: gostring
  c_MaxConcurrency :: int32
  c_PrefetchCount :: int32
  c_Name :: gostring
  c_QueueDurable :: bool
  c_QueueAutoDelete :: bool
  c_QueueExclusive :: bool
  c_AutoAck :: bool

record RabbitMQ =
  Urls :: "gostring list"
  Producers :: "Producer option list"
  Consumers :: "Consumer option list"
  Username :: gostring
  Password :: gostring
  VirtualHost :: gostring
  DialTimeout :: "pbDuration option"
  Heartbeat :: "pbDuration option"
  ChannelPoolSize :: int32

definition durationpb_ok :: "durationpb \<Rightarrow> bool" where
  "durationpb_ok D \<longleftrightarrow> (\<forall>d. AsDuration D (Some (NewDuration D d)) = d)"

section \<open>Defaults\<close>

definition defaultRabbitMQConfig :: "durationpb \<Rightarrow> RabbitMQ" where
  "defaultRabbitMQConfig D = \<lparr>
     Urls = [''amqp://localhost:5672/''],
     Producers = [Some \<lparr>
       p_Enabled = True, p_Exchange = defaultExchange, p_ExchangeType = ExchangeTypeDirect,
       p_RoutingKey = '''', p_MaxRetries = 3,
       p_RetryBackoff = Some (NewDuration D (100 * Millisecond)),
       p_PublishTimeout = Some (NewDuration D (3 * Second)),
       p_Name = ''default-producer'', p_ExchangeDurable = True, p_ExchangeAutoDelete = False,
       p_MessagePersistent = False \<rparr>],
     Consumers = [Some \<lparr>
       c_Enabled = True, c_Queue = defaultQueue, c_Exchange = '''', c_RoutingKey = '''',
       c_ConsumerTag = defaultConsumer, c_MaxConcurrency = 1, c_PrefetchCount = 1,
       c_Name = ''default-consumer'', c_QueueDurable = True, c_QueueAutoDelete = False,
       c_QueueExclusive = False, c_AutoAck = False \<rparr>],
     Username = '''', Password = '''', VirtualHost = defaultVirtualHost,
     DialTimeout = Some (NewDuration D (3 * Second)),
     Heartbeat = Some (NewDuration D (30 * Second)),
     ChannelPoolSize = defaultChannelPoolSize \<rparr>"

section \<open>Normalisation\<close>

text \<open>The test \<open>d == nil || d.AsDuration() <= 0\<close> and the default taken when it holds.\<close>

definition unset :: "durationpb \<Rightarrow> pbDuration option \<Rightarrow> bool" where
  "unset D d \<longleftrightarrow> d = None \<or> sint (AsDuration D d) \<le> 0"

definition default_duration :: "durationpb \<Rightarrow> duration \<Rightarrow> pbDuration option \<Rightarrow> pbDuration option"
  where
  "default_duration D dflt d = (if unset D d then Some (NewDuration D dflt) else d)"

fun check_urls :: "nat \<Rightarrow> gostring list \<Rightarrow> goerror option" where
  "check_urls i [] = None"
| "check_urls i (url # urls) =
     (if url = '''' then Some (Errorf ''rabbitmq urls[%d] must not be empty'' [FInt (int i)])
      else check_urls (Suc i) urls)"

definition normalize_producer :: "durationpb \<Rightarrow> nat \<Rightarrow> Producer \<Rightarrow> goerror option \<times> Producer" where
  "normalize_producer D i p =
     (if p_Enabled p \<and> p_Name p = '''' then
        (Some (Errorf ''rabbitmq producers[%d].name is required when enabled'' [FInt (int i)]), p)
      else
        let p = (if p_Exchange p = '''' then p\<lparr>p_Exchange := defaultExchange\<rparr> else p);
            p = (if p_ExchangeType p = '''' then p\<lparr>p_ExchangeType := ExchangeTypeDirect\<rparr> else p)
        in if p_ExchangeType p \<notin> {ExchangeTypeDirect, ExchangeTypeFanout, ExchangeTypeTopic, ExchangeTypeHeaders}
           then (Some (Errorf ''rabbitmq producers[%d].exchange_type %q is invalid''
                         [FInt (int i), FStr (p_ExchangeType p)]), p)
           else
             let p = p\<lparr>p_PublishTimeout := default_duration D (3 * Second) (p_PublishTimeout p)\<rparr>
             in if sint (p_MaxRetries p) < 0
                then (Some (Errorf ''rabbitmq producers[%d].max_retries must be non-negative'' [FInt (int i)]), p)
                else
                  let p = (if p_MaxRetries p = 0 then p\<lparr>p_MaxRetries := defaultMaxRetries\<rparr> else p)
                  in (None,
                      p\<lparr>p_RetryBackoff := default_duration D (100 * Millisecond) (p_RetryBackoff p)\<rparr>))"

definition normalize_consumer :: "nat \<Rightarrow> Consumer \<Rightarrow> goerror option \<times> Consumer" where
  "normalize_consumer i c =
     (if c_Enabled c \<and> c_Name c = '''' then
        (Some (Errorf ''rabbitmq consumers[%d].name is required when enabled'' [FInt (int i)]), c)
      else
        let c = (if c_Queue c = '''' then c\<lparr>c_Queue := defaultQueue\<rparr> else c);
            c = (if c_ConsumerTag c = '''' then c\<lparr>c_ConsumerTag := defaultConsumer\<rparr> else c);
            c = (if sint (c_MaxConcurrency c) \<le> 0 then c\<lparr>c_MaxConcurrency := defaultMaxConcurrency\<rparr> else c);
            c = (if sint (c_PrefetchCount c) \<le> 0 then c\<lparr>c_PrefetchCount := defaultPrefetchCount\<rparr> else c)
        in (None, c))"

text \<open>
  Both loops of \<open>normalizeRabbitMQConfig\<close>: stop at the first nil entry or at the first
  entry whose body returns an error; entries after it stay as they were.
\<close>

fun normalize_each ::
  "(nat \<Rightarrow> goerror) \<Rightarrow> (nat \<Rightarrow> 'a \<Rightarrow> goerror option \<times> 'a) \<Rightarrow> nat \<Rightarrow> 'a option list \<Rightarrow>
   goerror option \<times> 'a option list" where
  "normalize_each nilerr body i [] = (None, [])"
| "normalize_each nilerr body i (None # xs) = (Some (nilerr i), None # xs)"
| "normalize_each nilerr body i (Some x # xs) =
     (case body i x of
        (Some e, x') \<Rightarrow> (Some e, Some x' # xs)
      | (None, x') \<Rightarrow>
          (case normalize_each nilerr body (Suc i) xs of (r, xs') \<Rightarrow> (r, Some x' # xs')))"

definition producer_nil :: "nat \<Rightarrow> goerror" where
  "producer_nil i = Errorf ''rabbitmq producers[%d] configuration is nil'' [FInt (int i)]"

definition consumer_nil :: "nat \<Rightarrow> goerror" where
  "consumer_nil i = Errorf ''rabbitmq consumers[%d] configuration is nil'' [FInt (int i)]"

text \<open>The settings outside the two loops, once the URLs are checked.\<close>

definition normalize_globals :: "durationpb \<Rightarrow> RabbitMQ \<Rightarrow> RabbitMQ" where
  "normalize_globals D cfg =
     (let cfg = (if VirtualHost cfg = '''' then cfg\<lparr>VirtualHost := defaultVirtualHost\<rparr> else cfg);
          cfg = cfg\<lparr>DialTimeout := default_duration D (3 * Second) (DialTimeout cfg)\<rparr>;
          cfg = cfg\<lparr>Heartbeat := default_duration D (30 * Second) (Heartbeat cfg)\<rparr>
      in if sint (ChannelPoolSize cfg) \<le> 0 then cfg\<lparr>ChannelPoolSize := defaultChannelPoolSize\<rparr>
         else cfg)"

definition normalizeRabbitMQConfig ::
  "durationpb \<Rightarrow> RabbitMQ option \<Rightarrow> goerror option \<times> RabbitMQ option" where
  "normalizeRabbitMQConfig D cfgp =
     (case cfgp of
        None \<Rightarrow> (Some (Errorf ''rabbitmq configuration is required'' []), None)
      | Some cfg \<Rightarrow>
          let cfg = (if Urls cfg = [] then cfg\<lparr>Urls := [''amqp://localhost:5672/'']\<rparr> else cfg)
          in case check_urls 0 (Urls cfg) of
               Some e \<Rightarrow> (Some e, Some cfg)
             | None \<Rightarrow>
                 let cfg = normalize_globals D cfg;
                     (r, ps) = normalize_each producer_nil (normalize_producer D) 0 (Producers cfg);
                     cfg = cfg\<lparr>Producers := ps\<rparr>
                 in case r of
                      Some e \<Rightarrow> (Some e, Some cfg)
                    | None \<Rightarrow>
                        let (r, cs) = normalize_each consumer_nil normalize_consumer 0 (Consumers cfg)
                        in (r, Some (cfg\<lparr>Consumers := cs\<rparr>)))"

section \<open>What a normalised configuration is\<close>

definition wf_producer :: "durationpb \<Rightarrow> Producer \<Rightarrow> bool" where
  "wf_producer D p \<longleftrightarrow>
     (p_Enabled p \<longrightarrow> p_Name p \<noteq> '''') \<and> p_Exchange p \<noteq> '''' \<and>
     validateExchangeType (p_ExchangeType p) = None \<and>
     \<not> unset D (p_PublishTimeout p) \<and> 0 < sint (p_MaxRetries p) \<and> \<not> unset D (p_RetryBackoff p)"

definition wf_consumer :: "Consumer \<Rightarrow> bool" where
  "wf_consumer c \<longleftrightarrow>
     (c_Enabled c \<longrightarrow> c_Name c \<noteq> '''') \<and> c_Queue c \<noteq> '''' \<and> c_ConsumerTag c \<noteq> '''' \<and>
     0 < sint (c_MaxConcurrency c) \<and> 0 < sint (c_PrefetchCount c)"

definition wf_config :: "durationpb \<Rightarrow> RabbitMQ \<Rightarrow> bool" where
  "wf_config D cfg \<longleftrightarrow>
     Urls cfg \<noteq> [] \<and> '''' \<notin> set (Urls cfg) \<and> VirtualHost cfg \<noteq> '''' \<and>
     \<not> unset D (DialTimeout cfg) \<and> \<not> unset D (Heartbeat cfg) \<and> 0 < sint (ChannelPoolSize cfg) \<and>
     (\<forall>p \<in> set (Producers cfg). \<exists>q. p = Some q \<and> wf_producer D q) \<and>
     (\<forall>c \<in> set (Consumers cfg). \<exists>q. c = Some q \<and> wf_consumer q)"

text \<open>What \<open>normalizeRabbitMQConfig\<close> takes: the entries it returns no error for.\<close>

definition ok_producer :: "Producer \<Rightarrow> bool" where
  "ok_producer p \<longleftrightarrow>
     (p_Enabled p \<longrightarrow> p_Name p \<noteq> '''') \<and>
     (p_ExchangeType p = '''' \<or> validateExchangeType (p_ExchangeType p) = None) \<and>
     0 \<le> sint (p_MaxRetries p)"

definition ok_consumer :: "Consumer \<Rightarrow> bool" where
  "ok_consumer c \<longleftrightarrow> (c_Enabled c \<longrightarrow> c_Name c \<noteq> '''')"

definition ok_config :: "RabbitMQ \<Rightarrow> bool" where
  "ok_config cfg \<longleftrightarrow>
     '''' \<notin> set (Urls cfg) \<and>
     (\<forall>p \<in> set (Producers cfg). \<exists>q. p = Some q \<and> ok_producer q) \<and>
     (\<forall>c \<in> set (Consumers cfg). \<exists>q. c = Some q \<and> ok_consumer q)"

text \<open>
  What normalisation may change: only settings that were left unset.  \<open>keeps_producer\<close> and
  its companions relate a setting before and after.
\<close>

definition keeps_producer :: "durationpb \<Rightarrow> Producer \<Rightarrow> Producer \<Rightarrow> bool" where
  "keeps_producer D p q \<longleftrightarrow>
     p_Enabled q = p_Enabled p \<and> p_Name q = p_Name p \<and> p_RoutingKey q = p_RoutingKey p \<and>
     p_ExchangeDurable q = p_ExchangeDurable p \<and> p_ExchangeAutoDelete q = p_ExchangeAutoDelete p \<and>
     p_MessagePersistent q = p_MessagePersistent p \<and>
     p_Exchange q = (if p_Exchange p = [] then defaultExchange else p_Exchange p) \<and>
     p_ExchangeType q = (if p_ExchangeType p = [] then ExchangeTypeDirect else p_ExchangeType p) \<and>
     p_MaxRetries q = (if p_MaxRetries p = 0 then defaultMaxRetries else p_MaxRetries p) \<and>
     p_PublishTimeout q = default_duration D (3 * Second) (p_PublishTimeout p) \<and>
     p_RetryBackoff q = default_duration D (100 * Millisecond) (p_RetryBackoff p)"

definition keeps_consumer :: "Consumer \<Rightarrow> Consumer \<Rightarrow> bool" where
  "keeps_consumer c d \<longleftrightarrow>
     c_Enabled d = c_Enabled c \<and> c_Name d = c_Name c \<and> c_Exchange d = c_Exchange c \<and>
     c_RoutingKey d = c_RoutingKey c \<and> c_QueueDurable d = c_QueueDurable c \<and>
     c_QueueAutoDelete d = c_QueueAutoDelete c \<and> c_QueueExclusive d = c_QueueExclusive c \<and>
     c_AutoAck d = c_AutoAck c \<and>
     c_Queue d = (if c_Queue c = [] then defaultQueue else c_Queue c) \<and>
     c_ConsumerTag d = (if c_ConsumerTag c = [] then defaultConsumer else c_ConsumerTag c) \<and>
     c_MaxConcurrency d = (if 0 < sint (c_MaxConcurrency c) then c_MaxConcurrency c else defaultMaxConcurrency) \<and>
     c_PrefetchCount d = (if 0 < sint (c_PrefetchCount c) then c_PrefetchCount c else defaultPrefetchCount)"

definition keeps_config :: "durationpb \<Rightarrow> RabbitMQ \<Rightarrow> RabbitMQ \<Rightarrow> bool" where
  "keeps_config D cfg cfg' \<longleftrightarrow>
     Urls cfg' = (if Urls cfg = [] then [''amqp://localhost:5672/''] else Urls cfg) \<and>
     Username cfg' = Username cfg \<and> Password cfg' = Password cfg \<and>
     VirtualHost cfg' = (if VirtualHost cfg = [] then ''/'' else VirtualHost cfg) \<and>
     DialTimeout cfg' = default_duration D (3 * Second) (DialTimeout cfg) \<and>
     Heartbeat cfg' = default_duration D (30 * Second) (Heartbeat cfg) \<and>
     ChannelPoolSize cfg' = (if 0 < sint (ChannelPoolSize cfg) then ChannelPoolSize cfg else 10) \<and>
     list_all2 (rel_option (keeps_producer D)) (Producers cfg) (Producers cfg') \<and>
     list_all2 (rel_option keeps_consumer) (Consumers cfg) (Consumers cfg')"

section \<open>Lemmas\<close>

lemma sint_second_multiples [simp]:
  "sint (3 * Second) = 3000000000" "sint (30 * Second) = 30000000000"
  "sint (100 * Millisecond) = 100000000" "sint (500 * Millisecond) = 500000000"
  by (simp_all add: Second_def Millisecond_def)

lemma default_duration_set:
  "durationpb_ok D \<Longrightarrow> 0 < sint dflt \<Longrightarrow> \<not> unset D (default_duration D dflt d)"
  by (auto simp: default_duration_def unset_def durationpb_ok_def)

lemma default_duration_id: "\<not> unset D d \<Longrightarrow> default_duration D dflt d = d"
  by (simp add: default_duration_def)

lemma check_urls_None: "check_urls i urls = None \<longleftrightarrow> '''' \<notin> set urls"
  by (induction urls arbitrary: i) auto

subsection \<open>The contract of a loop body\<close>

locale normalizer =
  fixes law :: bool
    and nilerr :: "nat \<Rightarrow> goerror"
    and body :: "nat \<Rightarrow> 'a \<Rightarrow> goerror option \<times> 'a"
    and ok wf :: "'a \<Rightarrow> bool"
  assumes body_error: "fst (body i x) = None \<longleftrightarrow> ok x"
    and body_sound: "law \<Longrightarrow> body i x = (None, y) \<Longrightarrow> wf y"
    and body_stable: "wf x \<Longrightarrow> body i x = (None, x)"
begin

lemma each_error:
  "fst (normalize_each nilerr body i xs) = None \<longleftrightarrow> (\<forall>x \<in> set xs. \<exists>y. x = Some y \<and> ok y)"
proof (induction xs arbitrary: i)
  case (Cons x xs)
  show ?case
  proof (cases x)
    case (Some y)
    then show ?thesis
      using Cons [of "Suc i"] body_error [of i y]
      by (cases "body i y"; cases "fst (body i y)") (auto split: prod.splits)
  qed simp
qed simp

lemma each_sound:
  "law \<Longrightarrow> normalize_each nilerr body i xs = (None, ys) \<Longrightarrow> \<forall>y \<in> set ys. \<exists>z. y = Some z \<and> wf z"
proof (induction xs arbitrary: i ys)
  case (Cons x xs)
  then show ?case
    using body_sound [of i "the x"] by (cases x) (auto split: option.splits prod.splits)
qed simp

lemma each_stable:
  "\<forall>x \<in> set xs. \<exists>y. x = Some y \<and> wf y \<Longrightarrow> normalize_each nilerr body i xs = (None, xs)"
  by (induction xs arbitrary: i) (auto simp: body_stable)

lemma each_length: "length (snd (normalize_each nilerr body i xs)) = length xs"
proof (induction xs arbitrary: i)
  case (Cons x xs)
  show ?case
    using Cons [of "Suc i"] by (cases x) (auto split: option.splits prod.splits)
qed simp

end

text \<open>The exchange types of the \<open>switch\<close> are those \<open>validateExchangeType\<close> accepts.\<close>

lemma switch_exchange_type:
  "t \<notin> {ExchangeTypeDirect, ExchangeTypeFanout, ExchangeTypeTopic, ExchangeTypeHeaders} \<longleftrightarrow>
   validateExchangeType t \<noteq> None"
  by (simp add: validateExchangeType_def)

lemma exchange_type_facts [simp]:
  "validateExchangeType ExchangeTypeDirect = None" "validateExchangeType [] \<noteq> None"
  "defaultExchange \<noteq> []" "sint defaultMaxRetries = 3"
  by (simp_all add: validateExchangeType_def constant_defs)

lemma normalize_producer_error: "fst (normalize_producer D i p) = None \<longleftrightarrow> ok_producer p"
  unfolding normalize_producer_def ok_producer_def switch_exchange_type Let_def
  by simp

lemma normalize_producer_sound:
  "durationpb_ok D \<Longrightarrow> normalize_producer D i p = (None, q) \<Longrightarrow> wf_producer D q"
  unfolding normalize_producer_def wf_producer_def switch_exchange_type Let_def
  by (auto simp: default_duration_set not_less order_le_less signed_eq_0_iff split: if_splits)

lemma normalize_producer_stable: "wf_producer D p \<Longrightarrow> normalize_producer D i p = (None, p)"
  unfolding normalize_producer_def wf_producer_def switch_exchange_type Let_def
  by (auto simp: default_duration_id)

lemma normalize_consumer_error: "fst (normalize_consumer i c) = None \<longleftrightarrow> ok_consumer c"
  by (auto simp: normalize_consumer_def ok_consumer_def Let_def)

lemma normalize_consumer_sound: "normalize_consumer i c = (None, d) \<Longrightarrow> wf_consumer d"
  by (auto simp: normalize_consumer_def wf_consumer_def Let_def constant_defs split: if_splits)

lemma normalize_consumer_stable: "wf_consumer c \<Longrightarrow> normalize_consumer i c = (None, c)"
  by (auto simp: normalize_consumer_def wf_consumer_def Let_def)

interpretation prod: normalizer "durationpb_ok D" producer_nil "normalize_producer D"
  ok_producer "wf_producer D" for D
  by unfold_locales
    (auto simp: normalize_producer_error normalize_producer_stable intro: normalize_producer_sound)

interpretation cons: normalizer True consumer_nil normalize_consumer ok_consumer wf_consumer
  by unfold_locales
    (auto simp: normalize_consumer_error normalize_consumer_stable intro: normalize_consumer_sound)

text \<open>The settings outside the loops.\<close>

lemma normalize_globals_frame [simp]:
  "Urls (normalize_globals D cfg) = Urls cfg"
  "Producers (normalize_globals D cfg) = Producers cfg"
  "Consumers (normalize_globals D cfg) = Consumers cfg"
  "Username (normalize_globals D cfg) = Username cfg"
  "Password (normalize_globals D cfg) = Password cfg"
  by (simp_all add: normalize_globals_def Let_def)

lemma normalize_globals_sound:
  assumes "durationpb_ok D"
  shows "VirtualHost (normalize_globals D cfg) \<noteq> ''''"
    and "\<not> unset D (DialTimeout (normalize_globals D cfg))"
    and "\<not> unset D (Heartbeat (normalize_globals D cfg))"
    and "0 < sint (ChannelPoolSize (normalize_globals D cfg))"
  using assms
  by (simp_all add: normalize_globals_def Let_def default_duration_set constant_defs)

lemma normalize_globals_stable:
  "wf_config D cfg \<Longrightarrow> normalize_globals D cfg = cfg"
  by (auto simp: normalize_globals_def wf_config_def Let_def default_duration_id)

lemma normalize_error_iff:
  "fst (normalizeRabbitMQConfig D (Some cfg)) = None \<longleftrightarrow> ok_config cfg"
  using prod.each_error [of D 0 "Producers cfg"] cons.each_error [of 0 "Consumers cfg"]
    check_urls_None [of 0 "Urls cfg"]
  by (auto simp: normalizeRabbitMQConfig_def ok_config_def Let_def
      split: option.splits prod.splits)

lemma normalize_returns:
  assumes "ok_config cfg"
  shows "\<exists>cfg'. normalizeRabbitMQConfig D (Some cfg) = (None, Some cfg')"
proof -
  have "\<exists>r cfg'. normalizeRabbitMQConfig D (Some cfg) = (r, Some cfg')"
    by (auto simp: normalizeRabbitMQConfig_def Let_def split: option.splits prod.splits)
  with assms show ?thesis using normalize_error_iff [of D cfg] by auto
qed

lemma normalize_sound:
  assumes "durationpb_ok D" and "normalizeRabbitMQConfig D (Some cfg) = (None, Some cfg')"
  shows "wf_config D cfg'"
  using assms(2) normalize_globals_sound [OF assms(1)]
  by (auto simp: normalizeRabbitMQConfig_def wf_config_def Let_def check_urls_None
      split: option.splits prod.splits if_splits
      dest!: prod.each_sound [OF assms(1)] cons.each_sound [OF TrueI])

lemma normalize_stable:
  assumes "wf_config D cfg"
  shows "normalizeRabbitMQConfig D (Some cfg) = (None, Some cfg)"
proof -
  have "normalize_each producer_nil (normalize_producer D) 0 (Producers cfg) = (None, Producers cfg)"
    using assms by (intro prod.each_stable) (simp add: wf_config_def)
  moreover have "normalize_each consumer_nil normalize_consumer 0 (Consumers cfg) = (None, Consumers cfg)"
    using assms by (intro cons.each_stable) (simp add: wf_config_def)
  moreover have "check_urls 0 (Urls cfg) = None" "Urls cfg \<noteq> []"
    using assms by (simp_all add: wf_config_def check_urls_None)
  ultimately show ?thesis
    using assms by (simp add: normalizeRabbitMQConfig_def normalize_globals_stable Let_def)
qed

lemma wf_default: "durationpb_ok D \<Longrightarrow> wf_config D (defaultRabbitMQConfig D)"
  by (simp add: wf_config_def defaultRabbitMQConfig_def wf_producer_def wf_consumer_def
      unset_def durationpb_ok_def constant_defs validateExchangeType_def)

text \<open>What the loops change.\<close>

lemma normalize_each_rel:
  "(\<And>i x y. body i x = (None, y) \<Longrightarrow> R x y) \<Longrightarrow> normalize_each nilerr body i xs = (None, ys) \<Longrightarrow>
   list_all2 (rel_option R) xs ys"
proof (induction xs arbitrary: i ys)
  case (Cons x xs)
  then show ?case
    by (cases x) (auto split: option.splits prod.splits)
qed simp

lemma normalize_producer_keeps:
  "normalize_producer D i p = (None, q) \<Longrightarrow> keeps_producer D p q"
  unfolding normalize_producer_def keeps_producer_def
  by (cases "p_Exchange p = []"; cases "p_ExchangeType p = []"; cases "p_MaxRetries p = 0";
      auto simp: Let_def split: if_split_asm)

lemma normalize_consumer_keeps: "normalize_consumer i c = (None, d) \<Longrightarrow> keeps_consumer c d"
  unfolding normalize_consumer_def keeps_consumer_def
  by (cases "c_Queue c = []"; cases "c_ConsumerTag c = []"; cases "0 < sint (c_MaxConcurrency c)";
      cases "0 < sint (c_PrefetchCount c)"; auto simp: Let_def not_less split: if_split_asm)

lemma normalize_each_keeps:
  "normalize_each nilp (normalize_producer D) i ps = (None, ps') \<Longrightarrow>
     list_all2 (rel_option (keeps_producer D)) ps ps'"
  "normalize_each nilc normalize_consumer i cs = (None, cs') \<Longrightarrow>
     list_all2 (rel_option keeps_consumer) cs cs'"
  by (rule normalize_each_rel, erule normalize_producer_keeps normalize_consumer_keeps, assumption)+

lemma normalize_success:
  assumes "normalizeRabbitMQConfig D (Some cfg) = (None, Some cfg')"
  obtains ps cs where
    "normalize_each producer_nil (normalize_producer D) 0 (Producers cfg) = (None, ps)"
    "normalize_each consumer_nil normalize_consumer 0 (Consumers cfg) = (None, cs)"
    "cfg' = (normalize_globals D (if Urls cfg = [] then cfg\<lparr>Urls := [''amqp://localhost:5672/'']\<rparr> else cfg))
       \<lparr>Producers := ps, Consumers := cs\<rparr>"
  using assms
  by (auto simp: normalizeRabbitMQConfig_def Let_def split: option.splits prod.splits if_splits)

lemma normalize_keeps:
  assumes "normalizeRabbitMQConfig D (Some cfg) = (None, Some cfg')"
  shows "keeps_config D cfg cfg'"
  using assms
proof (rule normalize_success)
  fix ps cs
  assume ps: "normalize_each producer_nil (normalize_producer D) 0 (Producers cfg) = (None, ps)"
    and cs: "normalize_each consumer_nil normalize_consumer 0 (Consumers cfg) = (None, cs)"
    and cfg': "cfg' = (normalize_globals D (if Urls cfg = [] then cfg\<lparr>Urls := [''amqp://localhost:5672/'']\<rparr> else cfg))
       \<lparr>Producers := ps, Consumers := cs\<rparr>"
  show ?thesis
    using normalize_each_keeps(1) [OF ps] normalize_each_keeps(2) [OF cs]
    by (simp add: keeps_config_def cfg' normalize_globals_def Let_def constant_defs)
qed

section \<open>An instance of the protobuf runtime\<close>

text \<open>
  Seconds and nanoseconds as the protobuf documentation describes them.  Only the
  witnesses use it.
\<close>

definition sample_durationpb :: durationpb where
  "sample_durationpb = \<lparr>
     AsDuration = (\<lambda>d. case d of
         None \<Rightarrow> 0
       | Some d \<Rightarrow> Seconds d * 1000000000 + word_of_int (sint (Nanos d))),
     NewDuration = (\<lambda>d. \<lparr>Seconds = word_of_int (sint d sdiv 1000000000),
                          Nanos = word_of_int (sint d smod 1000000000)\<rparr>) \<rparr>"

lemma sample_durationpb_ok: "durationpb_ok sample_durationpb"
proof -
  have "sint (word_of_int (sint d smod 1000000000) :: int32) = sint d smod 1000000000" for d :: duration
    using smod_int_range [of 1000000000 "sint d"]
    by (auto simp: sint_sbintrunc' intro!: signed_take_bit_int_eq_self)
  moreover have "word_of_int (sint d sdiv 1000000000) * 1000000000 +
      word_of_int (sint d smod 1000000000) = d" for d :: duration
  proof -
    have "word_of_int (sint d sdiv 1000000000) * 1000000000 + word_of_int (sint d smod 1000000000) =
      (word_of_int (sint d sdiv 1000000000 * 1000000000 + sint d smod 1000000000) :: duration)"
      by simp
    then show ?thesis by (simp only: sdiv_mult_smod_eq of_int_sint scast_id)
  qed
  ultimately show ?thesis by (simp add: durationpb_ok_def sample_durationpb_def)
qed

definition sample_config :: RabbitMQ where
  "sample_config = \<lparr>
     Urls = [], Producers = [Some \<lparr>
       p_Enabled = True, p_Exchange = ''orders'', p_ExchangeType = ''topic'', p_RoutingKey = '''',
       p_MaxRetries = 0, p_RetryBackoff = None, p_PublishTimeout = None, p_Name = ''p1'',
       p_ExchangeDurable = True, p_ExchangeAutoDelete = False, p_MessagePersistent = False \<rparr>],
     Consumers = [Some \<lparr>
       c_Enabled = True, c_Queue = '''', c_Exchange = ''dlx'', c_RoutingKey = ''dead'',
       c_ConsumerTag = '''', c_MaxConcurrency = 0, c_PrefetchCount = 5, c_Name = ''c1'',
       c_QueueDurable = True, c_QueueAutoDelete = False, c_QueueExclusive = False,
       c_AutoAck = False \<rparr>],
     Username = '''', Password = '''', VirtualHost = '''', DialTimeout = None,
     Heartbeat = None, ChannelPoolSize = 0 \<rparr>"

lemma sample_config_ok: "ok_config sample_config"
  by (simp add: ok_config_def sample_config_def ok_producer_def ok_consumer_def
      validateExchangeType_def constant_defs)

section \<open>Properties\<close>



end
