(* ===== verification/Retry.thy ===== *)
theory Retry
  imports Config
begin

text \<open>
  \<open>RetryHandler\<close> (\<open>managers.go\<close>): \<open>DoWithRetry\<close> with its exponential back-off, which
  \<open>ConnectionManager.watchConnection\<close> also uses.

  The operation and the context belong to the caller.  \<open>retry_env\<close> gives what they do:
  \<open>op_result n\<close> is the error of the n-th call of \<open>operation\<close>, \<open>ctx_before n\<close> the error of
  the context if it is done at the check before attempt n, and \<open>ctx_sleep n\<close> the error
  if it is done before the back-off timer after attempt n fires.  The loop returns its
  error together with the calls and timers it made, in order.
\<close>

record retry_env =
  op_result :: "nat \<Rightarrow> goerror option"
  ctx_before :: "nat \<Rightarrow> goerror option"
  ctx_sleep :: "nat \<Rightarrow> goerror option"

datatype retry_event = Attempt nat | Sleep duration

record RetryHandler =
  rh_config :: RabbitMQ

definition NewRetryHandler :: "RabbitMQ \<Rightarrow> RetryHandler" where
  "NewRetryHandler cfg = \<lparr>rh_config = cfg\<rparr>"

text \<open>\<open>backoff *= 2\<close> with the cap of 30 seconds; the product wraps like Go's.\<close>

definition double_backoff :: "duration \<Rightarrow> duration" where
  "double_backoff backoff =
     (let backoff = backoff * 2
      in if sint backoff > sint (30 * Second) then 30 * Second else backoff)"

function retry_loop ::
  "retry_env \<Rightarrow> int \<Rightarrow> int \<Rightarrow> duration \<Rightarrow> goerror option \<Rightarrow> goerror option \<times> retry_event list" where
  "retry_loop R maxRetries attempt backoff lastErr =
     (if attempt \<le> maxRetries then
        (case ctx_before R (nat attempt) of
           Some e \<Rightarrow> (Some e, [])
         | None \<Rightarrow>
             (case op_result R (nat attempt) of
                None \<Rightarrow> (None, [Attempt (nat attempt)])
              | Some err \<Rightarrow>
                  if attempt = maxRetries then
                    (Some (WrapError (Some err) ''max retries exceeded''), [Attempt (nat attempt)])
                  else
                    (case ctx_sleep R (nat attempt) of
                       Some e \<Rightarrow> (Some e, [Attempt (nat attempt), Sleep backoff])
                     | None \<Rightarrow>
                         (case retry_loop R maxRetries (attempt + 1) (double_backoff backoff) (Some err) of
                            (r, evs) \<Rightarrow> (r, Attempt (nat attempt) # Sleep backoff # evs)))))
      else (Some (WrapError lastErr ''max retries exceeded''), []))"
  by pat_completeness auto
termination
  by (relation "measure (\<lambda>(R, maxRetries, attempt, backoff, lastErr). nat (maxRetries + 1 - attempt))") auto

definition DoWithRetry ::
  "durationpb \<Rightarrow> retry_env \<Rightarrow> RetryHandler \<Rightarrow> (goerror option \<times> retry_event list) outcome" where
  "DoWithRetry D R r =
     (case Producers (rh_config r) of
        [] \<Rightarrow> Returns (retry_loop R (sint defaultMaxRetries) 0 (100 * Millisecond) None)
      | None # _ \<Rightarrow> Panics
      | Some p # _ \<Rightarrow>
          Returns (retry_loop R (sint (p_MaxRetries p)) 0
            (if p_RetryBackoff p \<noteq> None then AsDuration D (p_RetryBackoff p) else 100 * Millisecond)
            None))"

fun attempts :: "retry_event list \<Rightarrow> nat list" where
  "attempts [] = []"
| "attempts (Attempt n # es) = n # attempts es"
| "attempts (Sleep d # es) = attempts es"

fun sleeps :: "retry_event list \<Rightarrow> duration list" where
  "sleeps [] = []"
| "sleeps (Attempt n # es) = sleeps es"
| "sleeps (Sleep d # es) = d # sleeps es"

section \<open>Specification\<close>

text \<open>
  \<open>stops R m k\<close>: the loop with \<open>maxRetries = m\<close> ends in iteration k if it gets there.
  \<open>verdict\<close> is what it then returns, \<open>final_events\<close> what it does in that iteration, and
  \<open>failed_rounds\<close> what it did before: one failed attempt and one sleep per iteration.
\<close>

definition stops :: "retry_env \<Rightarrow> nat \<Rightarrow> nat \<Rightarrow> bool" where
  "stops R m k \<longleftrightarrow> k = m \<or> ctx_before R k \<noteq> None \<or> op_result R k = None \<or> ctx_sleep R k \<noteq> None"

definition verdict :: "retry_env \<Rightarrow> nat \<Rightarrow> nat \<Rightarrow> goerror option" where
  "verdict R m n =
     (case ctx_before R n of
        Some e \<Rightarrow> Some e
      | None \<Rightarrow>
          (case op_result R n of
             None \<Rightarrow> None
           | Some err \<Rightarrow>
               if n = m then Some (WrapError (Some err) ''max retries exceeded'') else ctx_sleep R n))"

definition final_events :: "retry_env \<Rightarrow> nat \<Rightarrow> nat \<Rightarrow> duration \<Rightarrow> retry_event list" where
  "final_events R m n b =
     (if ctx_before R n \<noteq> None then []
      else if op_result R n = None \<or> n = m then [Attempt n]
      else [Attempt n, Sleep b])"

definition failed_rounds :: "nat \<Rightarrow> nat \<Rightarrow> duration \<Rightarrow> retry_event list" where
  "failed_rounds a n b =
     concat (map (\<lambda>k. [Attempt k, Sleep ((double_backoff ^^ (k - a)) b)]) [a..<n])"

section \<open>Lemmas\<close>

lemma failed_rounds_Cons:
  assumes "a < n"
  shows "failed_rounds a n b = Attempt a # Sleep b # failed_rounds (Suc a) n (double_backoff b)"
proof -
  have "map (\<lambda>k. [Attempt k, Sleep ((double_backoff ^^ (k - a)) b)]) [Suc a..<n] =
        map (\<lambda>k. [Attempt k, Sleep ((double_backoff ^^ (k - Suc a)) (double_backoff b))]) [Suc a..<n]"
    by (rule map_cong [OF refl]) (simp add: funpow_diff_Suc)
  with assms show ?thesis
    by (simp only: failed_rounds_def upt_conv_Cons list.map concat.simps append_Cons append_Nil
        diff_self_eq_0 funpow_0)
qed

declare retry_loop.simps [simp del]

text \<open>
  The back-off does not wrap below \<open>2 ^ 62\<close> nanoseconds, and stays at its cap once there.
\<close>

lemma sint_double: "\<bar>sint b\<bar> < 2 ^ 62 \<Longrightarrow> sint (b * 2 :: duration) = 2 * sint b"
proof -
  assume b: "\<bar>sint b\<bar> < 2 ^ 62"
  have "sint (b * 2 :: duration) = signed_take_bit 63 (sint b * 2)"
    by (simp add: sint_word_ariths)
  also have "\<dots> = sint b * 2"
    using b by (intro signed_take_bit_int_eq_self) auto
  finally show ?thesis by simp
qed

lemma sint_double_backoff:
  assumes "0 < sint b" "sint b < 2 ^ 62"
  shows "sint (double_backoff b) = min (2 * sint b) 30000000000"
  using assms sint_double [of b] by (simp add: double_backoff_def Let_def)

lemma sint_backoff_iterate:
  assumes "0 < sint b" "sint b < 2 ^ 62"
  shows "sint ((double_backoff ^^ Suc k) b) = min (2 ^ Suc k * sint b) 30000000000"
proof (induction k)
  case 0
  then show ?case using assms by (simp add: sint_double_backoff)
next
  case (Suc k)
  let ?c = "(double_backoff ^^ Suc k) b"
  have "0 < 2 ^ Suc k * sint b" using assms(1) by simp
  then have "0 < sint ?c" "sint ?c < 2 ^ 62" using Suc by auto
  then have "sint (double_backoff ?c) = min (2 * sint ?c) 30000000000"
    by (rule sint_double_backoff)
  then show ?case using Suc by auto
qed

text \<open>One iteration that goes on, and one that ends the loop.\<close>

lemma retry_loop_continue:
  assumes "a < m" "\<not> stops R m a"
  shows "retry_loop R (int m) (int a) b l =
    (let (r, evs) = retry_loop R (int m) (int (Suc a)) (double_backoff b) (op_result R a)
     in (r, Attempt a # Sleep b # evs))"
  using assms
  by (subst retry_loop.simps) (auto simp: stops_def add.commute split: prod.splits)

lemma retry_loop_end:
  assumes "n \<le> m" "stops R m n"
  shows "retry_loop R (int m) (int n) b l = (verdict R m n, final_events R m n b)"
  using assms
  by (subst retry_loop.simps) (auto simp: stops_def verdict_def final_events_def split: option.splits)

lemma retry_loop_run:
  "a \<le> n \<Longrightarrow> n \<le> m \<Longrightarrow> \<forall>k \<in> {a..<n}. \<not> stops R m k \<Longrightarrow> stops R m n \<Longrightarrow>
   retry_loop R (int m) (int a) b l =
     (verdict R m n, failed_rounds a n b @ final_events R m n ((double_backoff ^^ (n - a)) b))"
proof (induction "n - a" arbitrary: a b l)
  case 0
  then show ?case by (simp add: retry_loop_end failed_rounds_def)
next
  case (Suc d)
  then have "a < n" "\<not> stops R m a" by auto
  then have "retry_loop R (int m) (int a) b l =
    (let (r, evs) = retry_loop R (int m) (int (Suc a)) (double_backoff b) (op_result R a)
     in (r, Attempt a # Sleep b # evs))"
    using Suc.prems(2) by (intro retry_loop_continue) auto
  moreover have "retry_loop R (int m) (int (Suc a)) (double_backoff b) (op_result R a) =
    (verdict R m n, failed_rounds (Suc a) n (double_backoff b) @
       final_events R m n ((double_backoff ^^ (n - Suc a)) (double_backoff b)))"
    using Suc \<open>a < n\<close> by (intro Suc.hyps) auto
  moreover have "failed_rounds a n b = Attempt a # Sleep b # failed_rounds (Suc a) n (double_backoff b)"
    using \<open>a < n\<close> by (simp add: failed_rounds_Cons)
  moreover have "(double_backoff ^^ (n - Suc a)) (double_backoff b) = (double_backoff ^^ (n - a)) b"
    using \<open>a < n\<close> by (rule funpow_diff_Suc)
  ultimately show ?case by simp
qed

lemma attempts_append [simp]: "attempts (xs @ ys) = attempts xs @ attempts ys"
  by (induction xs rule: attempts.induct) auto

lemma sleeps_append [simp]: "sleeps (xs @ ys) = sleeps xs @ sleeps ys"
  by (induction xs rule: sleeps.induct) auto

lemma failed_rounds_snoc:
  "a \<le> n \<Longrightarrow> failed_rounds a (Suc n) b =
     failed_rounds a n b @ [Attempt n, Sleep ((double_backoff ^^ (n - a)) b)]"
  by (simp add: failed_rounds_def)

lemma attempts_failed_rounds: "attempts (failed_rounds 0 n b) = [0..<n]"
  by (induction n) (simp_all add: failed_rounds_snoc, simp add: failed_rounds_def)

lemma sleeps_failed_rounds: "sleeps (failed_rounds 0 n b) = map (\<lambda>k. (double_backoff ^^ k) b) [0..<n]"
  by (induction n) (simp_all add: failed_rounds_snoc, simp add: failed_rounds_def)

text \<open>The iteration in which the loop ends.\<close>

definition last_round :: "retry_env \<Rightarrow> nat \<Rightarrow> nat" where
  "last_round R m = (LEAST k. stops R m k)"

lemma last_round:
  "stops R m (last_round R m)" "last_round R m \<le> m" "k < last_round R m \<Longrightarrow> \<not> stops R m k"
proof -
  have m: "stops R m m" by (simp add: stops_def)
  then show "stops R m (last_round R m)" by (simp add: last_round_def LeastI)
  show "last_round R m \<le> m" using m by (simp add: last_round_def Least_le)
  show "k < last_round R m \<Longrightarrow> \<not> stops R m k" by (auto simp: last_round_def dest: not_less_Least)
qed

lemma retry_loop_spec:
  "retry_loop R (int m) 0 b l =
     (verdict R m (last_round R m),
      failed_rounds 0 (last_round R m) b @
        final_events R m (last_round R m) ((double_backoff ^^ last_round R m) b))"
  using retry_loop_run [of 0 "last_round R m" m R b l] last_round by simp

section \<open>A sample environment\<close>

text \<open>An operation that fails twice and then succeeds; used by the witnesses.\<close>

definition sample_retry_env :: retry_env where
  "sample_retry_env = \<lparr>
     op_result = (\<lambda>n. if n < 2 then Some (External ''transient'') else None),
     ctx_before = (\<lambda>n. None), ctx_sleep = (\<lambda>n. None) \<rparr>"

definition sample_producer :: "int32 \<Rightarrow> Producer" where
  "sample_producer retries = \<lparr>
     p_Enabled = True, p_Exchange = ''orders'', p_ExchangeType = ''topic'', p_RoutingKey = '''',
     p_MaxRetries = retries, p_RetryBackoff = Some \<lparr>Seconds = 1, Nanos = 0\<rparr>,
     p_PublishTimeout = None, p_Name = ''p1'', p_ExchangeDurable = True,
     p_ExchangeAutoDelete = False, p_MessagePersistent = False \<rparr>"

definition sample_handler :: "int32 \<Rightarrow> RetryHandler" where
  "sample_handler retries = NewRetryHandler (sample_config\<lparr>Producers := [Some (sample_producer retries)]\<rparr>)"

section \<open>Properties\<close>

text \<open>
  C22. \<open>DoWithRetry\<close> terminates and does exactly what it promises.  With \<open>m\<close> configured
  retries, it runs failed attempts 0, 1, ..., each followed by a back-off, up to the first
  iteration \<open>n \<le> m\<close> in which the context is done, the operation succeeds, the retries are
  used up or the context is done during the back-off.  It then returns the context's
  error, nil, the last error of the operation wrapped as \<open>max retries exceeded\<close>, or the
  context's error.
\<close>

theorem DoWithRetry_correct:
  assumes "Producers (rh_config r) = Some p # ps" and "p_RetryBackoff p = Some d"
    and "sint (p_MaxRetries p) = int m"
  shows "\<exists>n \<le> m. stops R m n \<and> (\<forall>k < n. \<not> stops R m k) \<and>
    DoWithRetry D R r =
      Returns (verdict R m n,
        failed_rounds 0 n (AsDuration D (Some d)) @
          final_events R m n ((double_backoff ^^ n) (AsDuration D (Some d))))"
  using assms last_round(1,2) [of R m] last_round(3)
  by (intro exI [of _ "last_round R m"]) (auto simp: DoWithRetry_def retry_loop_spec)

theorem DoWithRetry_correct_witness:
  "\<exists>evs. DoWithRetry sample_durationpb sample_retry_env (sample_handler 5) = Returns (None, evs) \<and>
     attempts evs = [0, 1, 2]"
proof -
  let ?b = "AsDuration sample_durationpb (Some \<lparr>Seconds = 1, Nanos = 0\<rparr>)"
  obtain n where n: "stops sample_retry_env 5 n" "\<forall>k < n. \<not> stops sample_retry_env 5 k"
    and run: "DoWithRetry sample_durationpb sample_retry_env (sample_handler 5) =
      Returns (verdict sample_retry_env 5 n,
        failed_rounds 0 n ?b @ final_events sample_retry_env 5 n ((double_backoff ^^ n) ?b))"
    using DoWithRetry_correct [of "sample_handler 5" "sample_producer 5" "[]" "\<lparr>Seconds = 1, Nanos = 0\<rparr>"
        5 sample_retry_env sample_durationpb]
    by (auto simp: sample_handler_def NewRetryHandler_def sample_producer_def)
  have "stops sample_retry_env 5 2" by (simp add: stops_def sample_retry_env_def)
  with n(2) have "n \<le> 2" by (meson not_le)
  moreover have "\<not> n < 2" using n(1) by (auto simp: stops_def sample_retry_env_def)
  ultimately have "n = 2" by simp
  with run show ?thesis
    by (simp add: verdict_def final_events_def sample_retry_env_def attempts_failed_rounds
        upt_rec numeral_2_eq_2)
qed

text \<open>
  C23. The operation is called at most \<open>m + 1\<close> times, in order and without gaps, and the
  handler sleeps at most \<open>m\<close> times.  When the configured back-off is positive and below
  \<open>2 ^ 62\<close> ns no sleep overflows: sleep number k lasts the configured back-off times
  \<open>2 ^ k\<close>, capped at 30 s from the second sleep on.
\<close>

theorem retry_bounds:
  assumes "0 < sint b" and "sint b < 2 ^ 62"
  shows "\<exists>n k. attempts (snd (retry_loop R (int m) 0 b l)) = [0..<n] \<and> n \<le> Suc m \<and> k \<le> m \<and>
    map sint (sleeps (snd (retry_loop R (int m) 0 b l))) =
      map (\<lambda>i. if i = 0 then sint b else min (2 ^ i * sint b) 30000000000) [0..<k]"
proof -
  let ?n = "last_round R m"
  let ?more = "ctx_before R ?n = None"
  let ?slept = "?more \<and> op_result R ?n \<noteq> None \<and> ?n \<noteq> m"
  let ?k = "if ?slept then Suc ?n else ?n"
  have sint: "sint ((double_backoff ^^ i) b) = (if i = 0 then sint b else min (2 ^ i * sint b) 30000000000)" for i
    using sint_backoff_iterate [OF assms, of "i - 1"] by (cases i) auto
  have "sleeps (snd (retry_loop R (int m) 0 b l)) = map (\<lambda>i. (double_backoff ^^ i) b) [0..<?k]"
    by (auto simp: retry_loop_spec final_events_def sleeps_failed_rounds)
  then have "map sint (sleeps (snd (retry_loop R (int m) 0 b l))) =
      map (\<lambda>i. if i = 0 then sint b else min (2 ^ i * sint b) 30000000000) [0..<?k]"
    by (simp only: map_map comp_def sint)
  moreover have "attempts (snd (retry_loop R (int m) 0 b l)) = [0..<if ?more then Suc ?n else ?n]"
    by (auto simp: retry_loop_spec final_events_def attempts_failed_rounds)
  moreover have "(if ?more then Suc ?n else ?n) \<le> Suc m" "?k \<le> m"
    using last_round(2) [of R m] by auto
  ultimately show ?thesis by blast
qed

theorem retry_bounds_witness:
  "\<exists>n k. attempts (snd (retry_loop sample_retry_env (int 3) 0 (100 * Millisecond) None)) = [0..<n] \<and>
     n \<le> Suc 3 \<and> k \<le> 3 \<and>
     map sint (sleeps (snd (retry_loop sample_retry_env (int 3) 0 (100 * Millisecond) None))) =
       map (\<lambda>i. if i = 0 then sint (100 * Millisecond) else min (2 ^ i * sint (100 * Millisecond)) 30000000000)
         [0..<k]"
  by (rule retry_bounds) simp_all

text \<open>
  C24. A configuration that was not normalised may carry a negative retry count.
  \<open>DoWithRetry\<close> then never calls the operation and returns a non-nil error that wraps
  nil, whose text is \<open>max retries exceeded: <nil>\<close>.
\<close>

theorem retry_negative:
  assumes "Producers (rh_config r) = Some p # ps" and "sint (p_MaxRetries p) < 0"
  shows "\<exists>e. DoWithRetry D R r = Returns (Some e, []) \<and> Unwrap e = None \<and>
    ErrorText e = Some ''max retries exceeded: <nil>''"
  using assms
  by (simp add: DoWithRetry_def retry_loop.simps WrapError_def Unwrap_def)

theorem retry_negative_witness:
  "\<exists>e. DoWithRetry sample_durationpb sample_retry_env (sample_handler (-1)) = Returns (Some e, []) \<and>
     Unwrap e = None \<and> ErrorText e = Some ''max retries exceeded: <nil>''"
  by (rule retry_negative [of _ "sample_producer (-1)" "[]"])
    (simp_all add: sample_handler_def NewRetryHandler_def sample_producer_def)

end
