(* ===== verification/Metrics.thy ===== *)
theory Metrics
  imports GoErrors "HOL-Library.Signed_Division" "HOL-Library.Sublist"
begin

text \<open>
  \<open>Metrics\<close> (\<open>metrics.go\<close>): counters, snapshots and the Prometheus exposition.

  A method is one change of the record.  Every counter method is one atomic instruction;
  \<open>IncrementReconnectionCount\<close> and \<open>Reset\<close> are several, so for these the model is that of calls
  that do not overlap.  Counters are words: \<open>atomic.AddInt64\<close> wraps.
  A method that reads the clock takes the time it reads as an argument.  The exposition is
  modelled to the byte, \<open>%f\<close> of a \<open>float64\<close> included.
\<close>

record Metrics =
  producerMessagesSent :: int64
  producerMessagesFailed :: int64
  producerLatency :: int64
  consumerMessagesReceived :: int64
  consumerMessagesFailed :: int64
  consumerLatency :: int64
  connectionErrors :: int64
  reconnectionCount :: int64
  lastReconnectTime :: gotime
  healthCheckCount :: int64
  healthCheckErrors :: int64
  lastHealthCheck :: gotime
  isHealthy :: int32

text \<open>The zero value \<open>Metrics{}\<close>, which \<open>NewRabbitMQClient\<close> uses.\<close>

definition zero_Metrics :: Metrics where
  "zero_Metrics = \<lparr>producerMessagesSent = 0, producerMessagesFailed = 0, producerLatency = 0,
     consumerMessagesReceived = 0, consumerMessagesFailed = 0, consumerLatency = 0,
     connectionErrors = 0, reconnectionCount = 0, lastReconnectTime = time_zero,
     healthCheckCount = 0, healthCheckErrors = 0, lastHealthCheck = time_zero, isHealthy = 0\<rparr>"

definition NewMetrics :: "gotime \<Rightarrow> Metrics" where
  "NewMetrics now = zero_Metrics\<lparr>lastHealthCheck := now\<rparr>"

section \<open>Updates\<close>

definition IncrementProducerMessagesSent :: "Metrics \<Rightarrow> Metrics" where
  "IncrementProducerMessagesSent m = m\<lparr>producerMessagesSent := producerMessagesSent m + 1\<rparr>"

definition IncrementProducerMessagesFailed :: "Metrics \<Rightarrow> Metrics" where
  "IncrementProducerMessagesFailed m = m\<lparr>producerMessagesFailed := producerMessagesFailed m + 1\<rparr>"

definition RecordProducerLatency :: "duration \<Rightarrow> Metrics \<Rightarrow> Metrics" where
  "RecordProducerLatency d m = m\<lparr>producerLatency := d\<rparr>"

definition IncrementConsumerMessagesReceived :: "Metrics \<Rightarrow> Metrics" where
  "IncrementConsumerMessagesReceived m = m\<lparr>consumerMessagesReceived := consumerMessagesReceived m + 1\<rparr>"

definition IncrementConsumerMessagesFailed :: "Metrics \<Rightarrow> Metrics" where
  "IncrementConsumerMessagesFailed m = m\<lparr>consumerMessagesFailed := consumerMessagesFailed m + 1\<rparr>"

definition RecordConsumerLatency :: "duration \<Rightarrow> Metrics \<Rightarrow> Metrics" where
  "RecordConsumerLatency d m = m\<lparr>consumerLatency := d\<rparr>"

definition IncrementConnectionErrors :: "Metrics \<Rightarrow> Metrics" where
  "IncrementConnectionErrors m = m\<lparr>connectionErrors := connectionErrors m + 1\<rparr>"

definition IncrementReconnectionCount :: "gotime \<Rightarrow> Metrics \<Rightarrow> Metrics" where
  "IncrementReconnectionCount now m =
     m\<lparr>reconnectionCount := reconnectionCount m + 1, lastReconnectTime := now\<rparr>"

definition IncrementHealthCheckCount :: "Metrics \<Rightarrow> Metrics" where
  "IncrementHealthCheckCount m = m\<lparr>healthCheckCount := healthCheckCount m + 1\<rparr>"

definition IncrementHealthCheckErrors :: "Metrics \<Rightarrow> Metrics" where
  "IncrementHealthCheckErrors m = m\<lparr>healthCheckErrors := healthCheckErrors m + 1\<rparr>"

definition SetHealthy :: "bool \<Rightarrow> Metrics \<Rightarrow> Metrics" where
  "SetHealthy healthy m = (if healthy then m\<lparr>isHealthy := 1\<rparr> else m\<lparr>isHealthy := 0\<rparr>)"

definition UpdateLastHealthCheck :: "gotime \<Rightarrow> Metrics \<Rightarrow> Metrics" where
  "UpdateLastHealthCheck now m = m\<lparr>lastHealthCheck := now\<rparr>"

definition Reset :: "gotime \<Rightarrow> Metrics \<Rightarrow> Metrics" where
  "Reset now m = m\<lparr>producerMessagesSent := 0, producerMessagesFailed := 0, producerLatency := 0,
     consumerMessagesReceived := 0, consumerMessagesFailed := 0, consumerLatency := 0,
     connectionErrors := 0, reconnectionCount := 0, healthCheckCount := 0, healthCheckErrors := 0,
     isHealthy := 0, lastReconnectTime := time_zero, lastHealthCheck := now\<rparr>"

section \<open>Snapshot\<close>

text \<open>The dynamic types of the values in the \<open>map[string]any\<close> that \<open>GetStats\<close> returns.\<close>

datatype stat = StatInt int64 | StatTime gotime | StatBool bool | StatMap "(gostring \<times> stat) list"

definition GetStats :: "Metrics \<Rightarrow> (gostring \<times> stat) list" where
  "GetStats m = [
     (''producer'', StatMap [
        (''messages_sent'', StatInt (producerMessagesSent m)),
        (''messages_failed'', StatInt (producerMessagesFailed m)),
        (''latency_ns'', StatInt (producerLatency m))]),
     (''consumer'', StatMap [
        (''messages_received'', StatInt (consumerMessagesReceived m)),
        (''messages_failed'', StatInt (consumerMessagesFailed m)),
        (''latency_ns'', StatInt (consumerLatency m))]),
     (''connection'', StatMap [
        (''errors'', StatInt (connectionErrors m)),
        (''reconnection_count'', StatInt (reconnectionCount m)),
        (''last_reconnect'', StatTime (lastReconnectTime m))]),
     (''health'', StatMap [
        (''check_count'', StatInt (healthCheckCount m)),
        (''check_errors'', StatInt (healthCheckErrors m)),
        (''last_check'', StatTime (lastHealthCheck m)),
        (''is_healthy'', StatBool (isHealthy m = 1))])]"

section \<open>Exposition\<close>

text \<open>
  \<open>Duration.Seconds\<close> and \<open>%f\<close>.  A \<open>float64\<close> is \<open>(m, k)\<close>, standing for \<open>m / 2 ^ k\<close>.
  \<open>float_div p q\<close> is the \<open>float64\<close> nearest to \<open>p / q\<close>, ties to even, with 53 bits of
  precision: \<open>k\<close> is the least exponent that makes the quotient at least \<open>2 ^ 52\<close>.  The
  values here are 0 or between \<open>10 ^ -9\<close> and \<open>2 ^ 34\<close>, so \<open>k \<le> 83\<close> and neither overflow nor
  subnormals occur.
\<close>

definition div_half_even :: "int \<Rightarrow> int \<Rightarrow> int" where
  "div_half_even p q =
     (let d = p div q; r = p mod q
      in if 2 * r < q \<or> 2 * r = q \<and> even d then d else d + 1)"

definition float_div :: "int \<Rightarrow> int \<Rightarrow> int \<times> nat" where
  "float_div p q =
     (case find (\<lambda>k. 2 ^ 52 * q \<le> \<bar>p\<bar> * 2 ^ k) [0..<128] of
        Some k \<Rightarrow> (sgn p * div_half_even (\<bar>p\<bar> * 2 ^ k) q, k)
      | None \<Rightarrow> (0, 0))"

definition Duration_Seconds :: "duration \<Rightarrow> int \<times> nat" where
  "Duration_Seconds d =
     (let sec = sint d sdiv 1000000000;
          nsec = sint d smod 1000000000;
          (m, k) = float_div nsec 1000000000
      in float_div (sec * 2 ^ k + m) (2 ^ k))"

definition pad6 :: "gostring \<Rightarrow> gostring" where
  "pad6 s = replicate (6 - length s) (CHR ''0'') @ s"

definition fmt_f :: "int \<times> nat \<Rightarrow> gostring" where
  "fmt_f = (\<lambda>(m, k).
     let n = nat (div_half_even (\<bar>m\<bar> * 1000000) (2 ^ k))
     in (if m < 0 then ''-'' else '''') @ decimal (n div 1000000) @ ''.'' @ pad6 (decimal (n mod 1000000)))"

text \<open>The three lines of one metric: \<open># HELP\<close>, \<open># TYPE\<close> and the sample.\<close>

definition metric :: "gostring \<Rightarrow> gostring \<Rightarrow> gostring \<Rightarrow> gostring \<Rightarrow> gostring list" where
  "metric name help type val =
     [''# HELP '' @ name @ '' '' @ help, ''# TYPE '' @ name @ '' '' @ type, name @ '' '' @ val]"

definition fmt_d :: "int64 \<Rightarrow> gostring" where
  "fmt_d x = strconv_Itoa (sint x)"

fun strings_Join :: "gostring list \<Rightarrow> gostring \<Rightarrow> gostring" where
  "strings_Join [] sep = []"
| "strings_Join [s] sep = s"
| "strings_Join (s # t # ss) sep = s @ sep @ strings_Join (t # ss) sep"

definition producer_lines :: "Metrics \<Rightarrow> gostring list" where
  "producer_lines m =
     metric ''lynx_rabbitmq_producer_messages_sent_total'' ''Total number of messages sent''
       ''counter'' (fmt_d (producerMessagesSent m)) @ [''''] @
     metric ''lynx_rabbitmq_producer_messages_failed_total'' ''Total number of failed messages''
       ''counter'' (fmt_d (producerMessagesFailed m)) @ [''''] @
     metric ''lynx_rabbitmq_producer_latency_seconds'' ''Producer latency in seconds''
       ''gauge'' (fmt_f (Duration_Seconds (producerLatency m))) @ ['''']"

definition consumer_lines :: "Metrics \<Rightarrow> gostring list" where
  "consumer_lines m =
     metric ''lynx_rabbitmq_consumer_messages_received_total'' ''Total number of messages received''
       ''counter'' (fmt_d (consumerMessagesReceived m)) @ [''''] @
     metric ''lynx_rabbitmq_consumer_messages_failed_total''
       ''Total number of failed message consumptions''
       ''counter'' (fmt_d (consumerMessagesFailed m)) @ [''''] @
     metric ''lynx_rabbitmq_consumer_latency_seconds'' ''Consumer latency in seconds''
       ''gauge'' (fmt_f (Duration_Seconds (consumerLatency m))) @ ['''']"

definition connection_lines :: "Metrics \<Rightarrow> gostring list" where
  "connection_lines m =
     metric ''lynx_rabbitmq_connection_errors_total'' ''Total number of connection errors''
       ''counter'' (fmt_d (connectionErrors m)) @ [''''] @
     metric ''lynx_rabbitmq_reconnection_count_total'' ''Total number of reconnections''
       ''counter'' (fmt_d (reconnectionCount m)) @ ['''']"

definition health_lines :: "Metrics \<Rightarrow> gostring list" where
  "health_lines m =
     (let healthyValue = (if isHealthy m = 1 then 1 else 0) in
     metric ''lynx_rabbitmq_health_check_count_total'' ''Total number of health checks''
       ''counter'' (fmt_d (healthCheckCount m)) @ [''''] @
     metric ''lynx_rabbitmq_health_check_errors_total'' ''Total number of health check errors''
       ''counter'' (fmt_d (healthCheckErrors m)) @ [''''] @
     metric ''lynx_rabbitmq_health_status'' ''Current health status (1=healthy, 0=unhealthy)''
       ''gauge'' (strconv_Itoa healthyValue) @ [''''] @
     metric ''lynx_rabbitmq_last_health_check_timestamp'' ''Unix timestamp of last health check''
       ''gauge'' (strconv_Itoa (time_Unix (lastHealthCheck m))))"

definition reconnect_lines :: "Metrics \<Rightarrow> gostring list" where
  "reconnect_lines m =
     (if \<not> time_IsZero (lastReconnectTime m) then
        [''''] @ metric ''lynx_rabbitmq_last_reconnect_timestamp''
          ''Unix timestamp of last reconnection''
          ''gauge'' (strconv_Itoa (time_Unix (lastReconnectTime m)))
      else [])"

definition GetPrometheusMetrics :: "Metrics \<Rightarrow> gostring" where
  "GetPrometheusMetrics m =
     strings_Join (producer_lines m @ consumer_lines m @ connection_lines m @ health_lines m @
       reconnect_lines m) [CHR 0x0A]"

section \<open>What an observer sees\<close>

text \<open>
  A scraper splits the exposition into lines and reads the values of the samples of one
  name; \<open>parse_int\<close> reads a decimal integer.
\<close>

definition digit_val :: "char \<Rightarrow> int" where
  "digit_val c = int (of_char c) - 48"

definition parse_nat :: "gostring \<Rightarrow> int" where
  "parse_nat s = foldl (\<lambda>n c. 10 * n + digit_val c) 0 s"

fun parse_int :: "gostring \<Rightarrow> int" where
  "parse_int [] = 0"
| "parse_int (c # s) = (if c = CHR ''-'' then - parse_nat s else parse_nat (c # s))"

fun split_lines :: "gostring \<Rightarrow> gostring list" where
  "split_lines [] = [[]]"
| "split_lines (c # s) =
     (if c = CHR 0x0A then [] # split_lines s
      else (case split_lines s of l # ls \<Rightarrow> (c # l) # ls | [] \<Rightarrow> [[c]]))"

definition scrape_lines :: "gostring \<Rightarrow> gostring list \<Rightarrow> gostring list" where
  "scrape_lines name lines = map (drop (Suc (length name))) (filter (prefix (name @ '' '')) lines)"

definition scrape :: "gostring \<Rightarrow> gostring \<Rightarrow> gostring list" where
  "scrape text name = scrape_lines name (split_lines text)"

definition prom_lines :: "Metrics \<Rightarrow> gostring list" where
  "prom_lines m = producer_lines m @ consumer_lines m @ connection_lines m @ health_lines m @
       reconnect_lines m"

text \<open>The calls a client of \<open>Metrics\<close> makes, and what a sequence of them does.\<close>

datatype metric_event =
    MessageSent | MessageFailed | SendLatency duration
  | MessageReceived | ReceiveFailed | ReceiveLatency duration
  | ConnectionError | Reconnected gotime
  | HealthChecked | HealthCheckFailed | HealthSet bool | HealthTime gotime
  | ResetAll gotime

fun apply_metric :: "metric_event \<Rightarrow> Metrics \<Rightarrow> Metrics" where
  "apply_metric MessageSent m = IncrementProducerMessagesSent m"
| "apply_metric MessageFailed m = IncrementProducerMessagesFailed m"
| "apply_metric (SendLatency d) m = RecordProducerLatency d m"
| "apply_metric MessageReceived m = IncrementConsumerMessagesReceived m"
| "apply_metric ReceiveFailed m = IncrementConsumerMessagesFailed m"
| "apply_metric (ReceiveLatency d) m = RecordConsumerLatency d m"
| "apply_metric ConnectionError m = IncrementConnectionErrors m"
| "apply_metric (Reconnected t) m = IncrementReconnectionCount t m"
| "apply_metric HealthChecked m = IncrementHealthCheckCount m"
| "apply_metric HealthCheckFailed m = IncrementHealthCheckErrors m"
| "apply_metric (HealthSet b) m = SetHealthy b m"
| "apply_metric (HealthTime t) m = UpdateLastHealthCheck t m"
| "apply_metric (ResetAll t) m = Reset t m"

fun is_reset :: "metric_event \<Rightarrow> bool" where
  "is_reset (ResetAll t) = True"
| "is_reset _ = False"

text \<open>The events after the last reset.\<close>

definition since_reset :: "metric_event list \<Rightarrow> metric_event list" where
  "since_reset es = rev (takeWhile (\<lambda>e. \<not> is_reset e) (rev es))"

fun is_reconnect :: "metric_event \<Rightarrow> bool" where
  "is_reconnect (Reconnected t) = True"
| "is_reconnect _ = False"

definition times :: "metric_event \<Rightarrow> metric_event list \<Rightarrow> int64" where
  "times e es = of_nat (count_list (since_reset es) e)"

section \<open>Lemmas\<close>

lemma of_char_digit: "k < 10 \<Longrightarrow> of_char (char_of (48 + k :: nat) :: char) = (48 + k :: nat)"
  by (simp add: of_char_of)

lemma digit_val_char: "k < 10 \<Longrightarrow> digit_val (char_of (48 + k :: nat)) = int k"
  using of_char_digit [of k] by (simp add: digit_val_def)

lemma decimal_small: "n < 10 \<Longrightarrow> decimal n = [char_of (48 + n)]"
  by (simp add: decimal.simps)

lemma decimal_large: "10 \<le> n \<Longrightarrow> decimal n = decimal (n div 10) @ [char_of (48 + n mod 10)]"
  by (subst decimal.simps) simp

lemma parse_decimal: "parse_nat (decimal n) = int n"
proof (induction n rule: less_induct)
  case (less n)
  consider "n < 10" | "10 \<le> n" "n div 10 < n" by (cases "n < 10") auto
  then show ?case
    using less by cases (simp_all add: decimal_small decimal_large parse_nat_def digit_val_char zdiv_int zmod_int)
qed

lemma set_decimal: "c \<in> set (decimal n) \<Longrightarrow> 48 \<le> (of_char c :: nat) \<and> (of_char c :: nat) \<le> 57"
proof (induction n rule: decimal.induct)
  case (1 n)
  then show ?case
    by (subst (asm) (2) decimal.simps) (auto simp: of_char_digit split: if_splits)
qed

lemma decimal_no_char [simp]:
  "CHR 0x0A \<notin> set (decimal n)" "CHR ''-'' \<notin> set (decimal n)" 
  by (auto dest!: set_decimal)

lemma parse_Itoa: "parse_int (strconv_Itoa i) = i"
proof (cases "i < 0")
  case True
  then show ?thesis by (simp add: strconv_Itoa_def parse_decimal)
next
  case False
  obtain c s where cs: "decimal (nat i) = c # s" by (cases "decimal (nat i)") (auto simp: decimal_nonempty)
  have "c \<noteq> CHR ''-''" using decimal_no_char(2) [of "nat i"] cs by auto
  with False cs parse_decimal [of "nat i"] show ?thesis by (simp add: strconv_Itoa_def)
qed

lemma Itoa_no_newline [simp]: "CHR 0x0A \<notin> set (strconv_Itoa i)"
  by (simp add: strconv_Itoa_def)

lemma split_lines_plain: "CHR 0x0A \<notin> set l \<Longrightarrow> split_lines l = [l]"
  by (induction l) auto

lemma split_lines_append:
  "CHR 0x0A \<notin> set l \<Longrightarrow> split_lines (l @ CHR 0x0A # s) = l # split_lines s"
  by (induction l) auto

lemma split_lines_Join:
  "ls \<noteq> [] \<Longrightarrow> \<forall>l \<in> set ls. CHR 0x0A \<notin> set l \<Longrightarrow> split_lines (strings_Join ls [CHR 0x0A]) = ls"
  by (induction ls "[CHR 0x0A]" rule: strings_Join.induct) (auto simp: split_lines_plain split_lines_append)

lemma fmt_no_newline [simp]: "CHR 0x0A \<notin> set (fmt_d x)" "CHR 0x0A \<notin> set (fmt_f f)"
  by (auto simp: fmt_d_def fmt_f_def pad6_def Let_def split: prod.splits)

lemmas prom_lines_defs = prom_lines_def producer_lines_def consumer_lines_def connection_lines_def
  health_lines_def reconnect_lines_def metric_def Let_def

lemma prom_no_newline: "\<forall>l \<in> set (prom_lines m). CHR 0x0A \<notin> set l"
  by (cases "time_IsZero (lastReconnectTime m)") (simp_all add: prom_lines_defs)

lemma scrape_prom: "scrape (GetPrometheusMetrics m) name = scrape_lines name (prom_lines m)"
proof -
  have "prom_lines m \<noteq> []" by (simp add: prom_lines_defs)
  then have "split_lines (GetPrometheusMetrics m) = prom_lines m"
    unfolding GetPrometheusMetrics_def prom_lines_def [symmetric]
    by (rule split_lines_Join [OF _ prom_no_newline])
  then show ?thesis by (simp add: scrape_def)
qed

text \<open>A name without blanks selects the samples of exactly its metric.\<close>

lemma prefix_word:
  "CHR '' '' \<notin> set n \<Longrightarrow> CHR '' '' \<notin> set n' \<Longrightarrow> prefix (n @ '' '') (n' @ CHR '' '' # v) \<longleftrightarrow> n = n'"
proof (induction n arbitrary: n')
  case Nil
  then show ?case by (cases n') auto
next
  case (Cons c n)
  then show ?case by (cases n') auto
qed

lemma scrape_metric:
  assumes "CHR '' '' \<notin> set n" "n \<noteq> ''#''" "CHR '' '' \<notin> set n'"
  shows "scrape_lines n (metric n' h t v) = (if n = n' then [v] else [])"
  using assms prefix_word [of n "''#''"] prefix_word [of n n']
  by (auto simp: metric_def scrape_lines_def simp del: prefix_snoc)

lemma scrape_append: "scrape_lines n (ls @ ms) = scrape_lines n ls @ scrape_lines n ms"
  "scrape_lines n ([] # ls) = scrape_lines n ls" "scrape_lines n [] = []"
  by (simp_all add: scrape_lines_def)

lemmas prom_sections = prom_lines_def producer_lines_def consumer_lines_def connection_lines_def
  health_lines_def reconnect_lines_def Let_def

lemmas metric_defs = IncrementProducerMessagesSent_def IncrementProducerMessagesFailed_def
  RecordProducerLatency_def IncrementConsumerMessagesReceived_def
  IncrementConsumerMessagesFailed_def RecordConsumerLatency_def IncrementConnectionErrors_def
  IncrementReconnectionCount_def IncrementHealthCheckCount_def IncrementHealthCheckErrors_def
  SetHealthy_def UpdateLastHealthCheck_def Reset_def

lemma since_reset_snoc:
  "since_reset (es @ [e]) = (if is_reset e then [] else since_reset es @ [e])"
  by (simp add: since_reset_def)

lemma times_snoc:
  "times x (es @ [e]) = (if is_reset e then 0 else times x es + (if x = e then 1 else 0))"
  by (simp add: times_def since_reset_snoc)

lemma length_since_reset: "length (since_reset es) \<le> length es"
  by (simp add: since_reset_def length_takeWhile_le [of _ "rev es", simplified])

text \<open>While fewer than \<open>2 ^ 63\<close> events were counted, the signed counter is the count.\<close>

lemma sint_times: "length es < 2 ^ 63 \<Longrightarrow> sint (times e es) = int (count_list (since_reset es) e)"
proof -
  assume "length es < 2 ^ 63"
  moreover have "count_list (since_reset es) e \<le> length es"
    using count_le_length [of "since_reset es" e] length_since_reset [of es] by linarith
  ultimately have "int (count_list (since_reset es) e) < 2 ^ 63" by simp
  then have "signed_take_bit 63 (int (count_list (since_reset es) e)) = int (count_list (since_reset es) e)"
    by (intro signed_take_bit_int_eq_self) auto
  then show ?thesis
    by (simp add: times_def signed_of_nat)
qed

section \<open>Properties\<close>

text \<open>
  C25. Counters count.  After any sequence of calls on a zero \<open>Metrics\<close>, every counter is
  the number of its increments since the last \<open>Reset\<close>, as a 64-bit word: no call touches
  another call's counter and the only inexactness is wrap-around.
\<close>

theorem metrics_count:
  "let m = fold apply_metric es zero_Metrics in
     producerMessagesSent m = times MessageSent es \<and>
     producerMessagesFailed m = times MessageFailed es \<and>
     consumerMessagesReceived m = times MessageReceived es \<and>
     consumerMessagesFailed m = times ReceiveFailed es \<and>
     connectionErrors m = times ConnectionError es \<and>
     reconnectionCount m = of_nat (length (filter is_reconnect (since_reset es))) \<and>
     healthCheckCount m = times HealthChecked es \<and>
     healthCheckErrors m = times HealthCheckFailed es"
proof (induction es rule: rev_induct)
  case Nil
  show ?case by (simp add: zero_Metrics_def times_def since_reset_def)
next
  case (snoc e es)
  then show ?case
    by (cases e) (simp_all add: metric_defs times_snoc since_reset_snoc Let_def)
qed

text \<open>
  C26. The exposition is faithful.  Scraping the Prometheus text gives, for every counter,
  the health status and the health-check timestamp, exactly one sample, whose decimal
  reading is the value held in the \<open>Metrics\<close> (the signed reading of the word); the
  reconnect timestamp is present exactly when a reconnect was recorded.
\<close>

theorem prometheus_roundtrip:
  "map (\<lambda>name. map parse_int (scrape (GetPrometheusMetrics m) (''lynx_rabbitmq_'' @ name)))
     [''producer_messages_sent_total'', ''producer_messages_failed_total'',
      ''consumer_messages_received_total'', ''consumer_messages_failed_total'',
      ''connection_errors_total'', ''reconnection_count_total'',
      ''health_check_count_total'', ''health_check_errors_total'',
      ''health_status'', ''last_health_check_timestamp'', ''last_reconnect_timestamp''] =
   [[sint (producerMessagesSent m)], [sint (producerMessagesFailed m)],
    [sint (consumerMessagesReceived m)], [sint (consumerMessagesFailed m)],
    [sint (connectionErrors m)], [sint (reconnectionCount m)],
    [sint (healthCheckCount m)], [sint (healthCheckErrors m)],
    [of_bool (isHealthy m = 1)], [time_Unix (lastHealthCheck m)],
    if time_IsZero (lastReconnectTime m) then [] else [time_Unix (lastReconnectTime m)]]"
  by (cases "time_IsZero (lastReconnectTime m)")
    (simp_all add: scrape_prom prom_sections scrape_metric scrape_append fmt_d_def parse_Itoa)

end
