(* ===== verification/Pool.thy ===== *)
theory Pool
  imports Prelude
begin

text \<open>
  \<open>GoroutinePool\<close> (\<open>pool.go\<close>) as a step relation over all interleavings of its worker
  goroutines and of any finite set of calls of \<open>Submit\<close>, \<open>Wait\<close> and \<open>Close\<close>.

  One step is one action of one goroutine between two points where another may run: taking
  or releasing the mutex, one test, one channel operation, the start or the end of a task.
  A goroutine's position in its method is a \<open>caller\<close> or \<open>worker\<close> value; goroutines at the
  same position are interchangeable, so they form multisets.  The \<open>sync.RWMutex\<close> is a
  reader count and a writer flag; a reader may enter whenever no writer holds it, which
  allows every schedule of Go's mutex and more.  Sending on a closed channel and closing a
  channel twice set \<open>panicked\<close>.  Tasks are opaque: a task that itself calls methods of the
  pool is not modelled.
\<close>

section \<open>State\<close>

text \<open>A \<open>func()\<close> value: nil or a task, numbered.\<close>

type_synonym task = "nat option"

datatype caller =
    SubmitCall task | SubmitLocked task | SubmitSelect task | SubmitInline task
  | SubmitUnlock | SubmitDone
  | WaitCall | WaitLocked | WaitClosed | WaitUnlock | WaitWG | WaitDone

datatype worker = Receiving | Working task | Exited

record GoroutinePool =
  capacity :: nat
  queue :: "task list"
  chanClosed :: bool
  closed :: bool
  wg :: nat
  readers :: nat
  writer :: bool
  callers :: "caller multiset"
  pool_workers :: "worker multiset"
  panicked :: bool
  accepted :: "nat multiset"
  executed :: "nat multiset"

text \<open>
  \<open>accepted\<close> and \<open>executed\<close> are history: the tasks that entered the channel or were taken
  to run inline, and the tasks that ran to their end.
\<close>

definition runnable :: "task \<Rightarrow> nat multiset" where
  "runnable t = (case t of Some n \<Rightarrow> {#n#} | None \<Rightarrow> {#})"

text \<open>The calls the environment makes.\<close>

datatype pool_call = Submit task | Wait | Close

fun enter :: "pool_call \<Rightarrow> caller" where
  "enter (Submit t) = SubmitCall t"
| "enter Wait = WaitCall"
| "enter Close = WaitCall"

text \<open>\<open>make(chan func(), size)\<close> panics on a negative size.\<close>

definition NewGoroutinePool :: "int \<Rightarrow> GoroutinePool outcome" where
  "NewGoroutinePool n = (if n < 0 then Panics
     else Returns \<lparr>capacity = nat n, queue = [], chanClosed = False, closed = False,
       wg = nat n, readers = 0, writer = False, callers = {#},
       pool_workers = replicate_mset (nat n) Receiving, panicked = False,
       accepted = {#}, executed = {#}\<rparr>)"

definition pool_init :: "GoroutinePool \<Rightarrow> bool" where
  "pool_init p \<longleftrightarrow>
     (\<exists>n cs q. NewGoroutinePool n = Returns q \<and> p = q\<lparr>callers := mset (map enter cs)\<rparr>)"

text \<open>What \<open>Wait\<close> leaves behind once every call has returned (lemma \<open>Pool_Wait_final\<close>).\<close>

definition Pool_Wait :: "GoroutinePool \<Rightarrow> GoroutinePool" where
  "Pool_Wait p = p\<lparr>queue := [], chanClosed := True, closed := True, wg := 0, readers := 0,
     writer := False, pool_workers := replicate_mset (capacity p) Exited, executed := accepted p\<rparr>"

definition IsClosed :: "GoroutinePool \<Rightarrow> bool" where
  "IsClosed p = closed p"

section \<open>Steps\<close>

text \<open>The loop of \<open>worker\<close>: \<open>range p.workers\<close>, the task, the deferred \<open>wg.Done\<close>.\<close>

inductive worker_step :: "GoroutinePool \<Rightarrow> GoroutinePool \<Rightarrow> bool" where
  receive: "pool_workers p = add_mset Receiving W \<Longrightarrow> queue p = t # q \<Longrightarrow>
    worker_step p (p\<lparr>pool_workers := add_mset (Working t) W, queue := q\<rparr>)"
| finish: "pool_workers p = add_mset (Working t) W \<Longrightarrow>
    worker_step p (p\<lparr>pool_workers := add_mset Receiving W, executed := executed p + runnable t\<rparr>)"
| drained: "pool_workers p = add_mset Receiving W \<Longrightarrow> queue p = [] \<Longrightarrow> chanClosed p \<Longrightarrow>
    worker_step p (p\<lparr>pool_workers := add_mset Exited W, wg := wg p - 1\<rparr>)"

text \<open>\<open>Submit\<close>.\<close>

inductive submit_step :: "GoroutinePool \<Rightarrow> GoroutinePool \<Rightarrow> bool" where
  rlock: "callers p = add_mset (SubmitCall t) C \<Longrightarrow> \<not> writer p \<Longrightarrow>
    submit_step p (p\<lparr>callers := add_mset (SubmitLocked t) C, readers := readers p + 1\<rparr>)"
| drop_closed: "callers p = add_mset (SubmitLocked t) C \<Longrightarrow> closed p \<Longrightarrow>
    submit_step p (p\<lparr>callers := add_mset SubmitUnlock C\<rparr>)"
| proceed: "callers p = add_mset (SubmitLocked t) C \<Longrightarrow> \<not> closed p \<Longrightarrow>
    submit_step p (p\<lparr>callers := add_mset (SubmitSelect t) C\<rparr>)"
| send: "callers p = add_mset (SubmitSelect t) C \<Longrightarrow> \<not> chanClosed p \<Longrightarrow>
    length (queue p) < capacity p \<Longrightarrow>
    submit_step p (p\<lparr>callers := add_mset SubmitUnlock C, queue := queue p @ [t],
      accepted := accepted p + runnable t\<rparr>)"
| send_closed: "callers p = add_mset (SubmitSelect t) C \<Longrightarrow> chanClosed p \<Longrightarrow>
    submit_step p (p\<lparr>panicked := True, callers := C\<rparr>)"
| default: "callers p = add_mset (SubmitSelect t) C \<Longrightarrow> \<not> chanClosed p \<Longrightarrow>
    \<not> length (queue p) < capacity p \<Longrightarrow>
    submit_step p (p\<lparr>callers := add_mset (SubmitInline t) C, accepted := accepted p + runnable t\<rparr>)"
| inline_done: "callers p = add_mset (SubmitInline t) C \<Longrightarrow>
    submit_step p (p\<lparr>callers := add_mset SubmitUnlock C, executed := executed p + runnable t\<rparr>)"
| runlock: "callers p = add_mset SubmitUnlock C \<Longrightarrow>
    submit_step p (p\<lparr>callers := add_mset SubmitDone C, readers := readers p - 1\<rparr>)"

text \<open>\<open>Wait\<close> and \<open>Close\<close>, whose bodies are the same.\<close>

inductive wait_step :: "GoroutinePool \<Rightarrow> GoroutinePool \<Rightarrow> bool" where
  lock: "callers p = add_mset WaitCall C \<Longrightarrow> \<not> writer p \<Longrightarrow> readers p = 0 \<Longrightarrow>
    wait_step p (p\<lparr>callers := add_mset WaitLocked C, writer := True\<rparr>)"
| already: "callers p = add_mset WaitLocked C \<Longrightarrow> closed p \<Longrightarrow>
    wait_step p (p\<lparr>callers := add_mset WaitUnlock C\<rparr>)"
| close_chan: "callers p = add_mset WaitLocked C \<Longrightarrow> \<not> closed p \<Longrightarrow> \<not> chanClosed p \<Longrightarrow>
    wait_step p (p\<lparr>callers := add_mset WaitClosed C, chanClosed := True\<rparr>)"
| close_closed: "callers p = add_mset WaitLocked C \<Longrightarrow> \<not> closed p \<Longrightarrow> chanClosed p \<Longrightarrow>
    wait_step p (p\<lparr>panicked := True, callers := C\<rparr>)"
| set_closed: "callers p = add_mset WaitClosed C \<Longrightarrow>
    wait_step p (p\<lparr>callers := add_mset WaitUnlock C, closed := True\<rparr>)"
| unlock: "callers p = add_mset WaitUnlock C \<Longrightarrow>
    wait_step p (p\<lparr>callers := add_mset WaitWG C, writer := False\<rparr>)"
| wg_wait: "callers p = add_mset WaitWG C \<Longrightarrow> wg p = 0 \<Longrightarrow>
    wait_step p (p\<lparr>callers := add_mset WaitDone C\<rparr>)"

definition pool_step :: "GoroutinePool \<Rightarrow> GoroutinePool \<Rightarrow> bool" where
  "pool_step p p' \<longleftrightarrow> worker_step p p' \<or> submit_step p p' \<or> wait_step p p'"

section \<open>Invariant\<close>

fun reading :: "caller \<Rightarrow> bool" where
  "reading (SubmitLocked t) = True" | "reading (SubmitSelect t) = True"
| "reading (SubmitInline t) = True" | "reading SubmitUnlock = True"
| "reading _ = False"

fun writing :: "caller \<Rightarrow> bool" where
  "writing WaitLocked = True" | "writing WaitClosed = True" | "writing WaitUnlock = True"
| "writing _ = False"

text \<open>Callers past the \<open>closed\<close> test of \<open>Submit\<close> that still may touch the channel or a task.\<close>

fun admitted :: "caller \<Rightarrow> bool" where
  "admitted (SubmitSelect t) = True" | "admitted (SubmitInline t) = True"
| "admitted _ = False"

fun after_close :: "caller \<Rightarrow> bool" where
  "after_close WaitUnlock = True" | "after_close WaitWG = True" | "after_close WaitDone = True"
| "after_close _ = False"

fun caller_task :: "caller \<Rightarrow> nat multiset" where
  "caller_task (SubmitInline t) = runnable t"
| "caller_task _ = {#}"

fun worker_task :: "worker \<Rightarrow> nat multiset" where
  "worker_task (Working t) = runnable t"
| "worker_task _ = {#}"

text \<open>Accepted tasks that have not run to their end.\<close>

definition pending :: "GoroutinePool \<Rightarrow> nat multiset" where
  "pending p = (\<Sum>t \<in># mset (queue p). runnable t) + (\<Sum>w \<in># pool_workers p. worker_task w) +
     (\<Sum>c \<in># callers p. caller_task c)"

definition mutex_inv :: "GoroutinePool \<Rightarrow> bool" where
  "mutex_inv p \<longleftrightarrow>
     readers p = size (filter_mset reading (callers p)) \<and>
     of_bool (writer p) = size (filter_mset writing (callers p)) \<and>
     (writer p \<longrightarrow> readers p = 0)"

definition closed_inv :: "GoroutinePool \<Rightarrow> bool" where
  "closed_inv p \<longleftrightarrow>
     (chanClosed p \<longleftrightarrow> closed p \<or> WaitClosed \<in># callers p) \<and>
     (WaitClosed \<in># callers p \<longrightarrow> \<not> closed p) \<and>
     (closed p \<longrightarrow> filter_mset admitted (callers p) = {#}) \<and>
     (\<not> closed p \<longrightarrow> filter_mset after_close (callers p) = {#})"

definition worker_inv :: "GoroutinePool \<Rightarrow> bool" where
  "worker_inv p \<longleftrightarrow>
     size (pool_workers p) = capacity p \<and> length (queue p) \<le> capacity p \<and>
     wg p = size (filter_mset (\<lambda>w. w \<noteq> Exited) (pool_workers p)) \<and>
     (Exited \<in># pool_workers p \<longrightarrow> chanClosed p \<and> queue p = []) \<and>
     (WaitDone \<in># callers p \<longrightarrow> wg p = 0)"

definition task_inv :: "GoroutinePool \<Rightarrow> bool" where
  "task_inv p \<longleftrightarrow> accepted p = executed p + pending p"

definition pool_inv :: "GoroutinePool \<Rightarrow> bool" where
  "pool_inv p \<longleftrightarrow> \<not> panicked p \<and> mutex_inv p \<and> closed_inv p \<and> worker_inv p \<and> task_inv p"

lemma admitted_reading: "admitted c \<Longrightarrow> reading c"
  by (cases c) auto

lemma writer_alone:
  assumes "mutex_inv p" "callers p = add_mset c C" "writing c"
  shows "writer p" "d \<in># C \<Longrightarrow> \<not> writing d" "d \<in># C \<Longrightarrow> \<not> reading d" "d \<in># C \<Longrightarrow> \<not> admitted d" "WaitClosed \<notin># C"
proof -
  show w: "writer p" using assms by (cases "writer p") (auto simp: mutex_inv_def)
  show nw: "\<not> writing d" if "d \<in># C" for d using assms w that by (auto simp: mutex_inv_def)
  show "WaitClosed \<notin># C" using nw [of WaitClosed] by auto
  show "\<not> reading d" if "d \<in># C" using assms w that by (auto simp: mutex_inv_def split: if_splits)
  then show "\<not> admitted d" if "d \<in># C" using that admitted_reading by blast
qed

lemma reader_alone: "mutex_inv p \<Longrightarrow> c \<in># callers p \<Longrightarrow> reading c \<Longrightarrow> d \<in># callers p \<Longrightarrow> \<not> writing d"
  by (cases "writer p") (auto simp: mutex_inv_def)

lemma admitted_open:
  assumes "pool_inv p" "c \<in># callers p" "admitted c"
  shows "\<not> closed p" "\<not> chanClosed p"
proof -
  show "\<not> closed p" using assms by (auto simp: pool_inv_def closed_inv_def)
  moreover have "WaitClosed \<notin># callers p"
    using reader_alone [of p c WaitClosed] assms admitted_reading by (auto simp: pool_inv_def)
  ultimately show "\<not> chanClosed p" using assms(1) by (auto simp: pool_inv_def closed_inv_def)
qed

lemmas pool_inv_defs = pool_inv_def mutex_inv_def closed_inv_def worker_inv_def task_inv_def pending_def

lemma worker_step_inv: "worker_step p p' \<Longrightarrow> pool_inv p \<Longrightarrow> pool_inv p'"
  by (induction rule: worker_step.induct) (auto simp: pool_inv_defs ac_simps)

lemma submit_step_inv: "submit_step p p' \<Longrightarrow> pool_inv p \<Longrightarrow> pool_inv p'"
proof (induction rule: submit_step.induct)
  case (send_closed p t C)
  then show ?case using admitted_open [of p "SubmitSelect t"] by auto
qed (auto simp: pool_inv_defs ac_simps)

lemma wait_step_inv: "wait_step p p' \<Longrightarrow> pool_inv p \<Longrightarrow> pool_inv p'"
proof (induction rule: wait_step.induct)
  case (close_closed p C)
  then have "mutex_inv p" by (simp add: pool_inv_def)
  from writer_alone(2) [OF this close_closed(1), of WaitClosed] close_closed show ?case
    by (auto simp: pool_inv_def closed_inv_def)
next
  case (close_chan p C)
  then have "mutex_inv p" by (simp add: pool_inv_def)
  from writer_alone [OF this close_chan(1)] close_chan show ?case
    by (auto simp: pool_inv_defs)
next
  case (set_closed p C)
  then have "mutex_inv p" by (simp add: pool_inv_def)
  from writer_alone [OF this set_closed(1)] set_closed show ?case
    by (auto simp: pool_inv_defs)
next
  case (unlock p C)
  then have "mutex_inv p" by (simp add: pool_inv_def)
  from writer_alone [OF this unlock(1)] unlock show ?case
    by (auto simp: pool_inv_defs)
qed (auto simp: pool_inv_defs)


subsection \<open>Initial states\<close>

lemma enter_fresh [simp]:
  "\<not> reading (enter c)" "\<not> writing (enter c)" "\<not> admitted (enter c)" "\<not> after_close (enter c)"
  "enter c \<noteq> WaitClosed" "enter c \<noteq> WaitDone" "caller_task (enter c) = {#}"
  by (cases c; simp)+

lemma enter_fresh_sym [simp]: "WaitClosed \<noteq> enter c" "WaitDone \<noteq> enter c"
  by (metis enter_fresh(5)) (metis enter_fresh(6))

lemma live_workers: "size {#w \<in># replicate_mset n Receiving. w \<noteq> Exited#} = n"
  by (induction n) simp_all

lemma pool_inv_init: "pool_init p \<Longrightarrow> pool_inv p"
  by (auto simp: pool_inv_defs pool_init_def NewGoroutinePool_def image_mset.compositionality comp_def
      live_workers split: if_splits)

interpretation pool: inductive_invariant pool_init pool_step pool_inv
  by unfold_locales
    (auto simp: pool_step_def intro: pool_inv_init worker_step_inv submit_step_inv wait_step_inv)

section \<open>Termination and progress\<close>

text \<open>An upper bound for the number of steps left.\<close>

fun caller_weight :: "caller \<Rightarrow> nat" where
  "caller_weight (SubmitCall t) = 10" | "caller_weight (SubmitLocked t) = 9"
| "caller_weight (SubmitSelect t) = 8" | "caller_weight (SubmitInline t) = 5"
| "caller_weight SubmitUnlock = 1" | "caller_weight SubmitDone = 0"
| "caller_weight WaitCall = 5" | "caller_weight WaitLocked = 4" | "caller_weight WaitClosed = 3"
| "caller_weight WaitUnlock = 2" | "caller_weight WaitWG = 1" | "caller_weight WaitDone = 0"

fun worker_weight :: "worker \<Rightarrow> nat" where
  "worker_weight Receiving = 1" | "worker_weight (Working t) = 3" | "worker_weight Exited = 0"

definition weight :: "GoroutinePool \<Rightarrow> nat" where
  "weight p = 3 * length (queue p) + (\<Sum>c \<in># callers p. caller_weight c) +
     (\<Sum>w \<in># pool_workers p. worker_weight w)"

lemma weight_decreases: "pool_step p p' \<Longrightarrow> weight p' < weight p"
  by (auto simp: pool_step_def weight_def elim!: worker_step.cases submit_step.cases wait_step.cases)

lemma weight_bounds: "(pool_step ^^ n) p p' \<Longrightarrow> n + weight p' \<le> weight p"
proof (induction n arbitrary: p')
  case (Suc n)
  then obtain q where "(pool_step ^^ n) p q" "pool_step q p'" by auto
  with Suc.IH [of q] weight_decreases [of q p'] show ?case by simp
qed simp

text \<open>
  A step a fair scheduler of Go's \<open>RWMutex\<close> allows: while a writer waits, no further reader
  enters (\<open>sync.RWMutex\<close>: a blocked \<open>Lock\<close> excludes new readers).
\<close>

definition finished :: "caller \<Rightarrow> bool" where
  "finished c \<longleftrightarrow> c = SubmitDone \<or> c = WaitDone"

definition fair_step :: "GoroutinePool \<Rightarrow> GoroutinePool \<Rightarrow> bool" where
  "fair_step p p' \<longleftrightarrow> pool_step p p' \<and> (readers p < readers p' \<longrightarrow> WaitCall \<notin># callers p)"

lemmas step_intros = worker_step.intros submit_step.intros wait_step.intros

lemma worker_active:
  assumes "pool_inv p" "w \<in># pool_workers p" "w \<noteq> Exited" "queue p \<noteq> [] \<or> chanClosed p \<or> w \<noteq> Receiving"
  shows "\<exists>p'. fair_step p p'"
proof -
  obtain W where W: "pool_workers p = add_mset w W" using assms(2) by (auto dest: multi_member_split)
  show ?thesis
  proof (cases w)
    case Receiving
    then show ?thesis
      using W assms(4) worker_step.receive [of p W] worker_step.drained [of p W]
      by (cases "queue p") (fastforce simp: fair_step_def pool_step_def)+
  next
    case (Working t)
    then show ?thesis using W worker_step.finish [of p t W] by (fastforce simp: fair_step_def pool_step_def)
  qed (use assms in simp)
qed

lemma reader_active:
  assumes "callers p = add_mset c C" "reading c"
  shows "\<exists>p'. fair_step p p'"
proof (cases c)
  case (SubmitLocked t)
  then show ?thesis using assms drop_closed [of p t C] proceed [of p t C]
    by (cases "closed p") (fastforce simp: fair_step_def pool_step_def)+
next
  case (SubmitSelect t)
  then show ?thesis using assms send [of p t C] send_closed [of p t C] default [of p t C]
    by (cases "chanClosed p"; cases "length (queue p) < capacity p") (fastforce simp: fair_step_def pool_step_def)+
next
  case (SubmitInline t)
  then show ?thesis using assms inline_done [of p t C] by (fastforce simp: fair_step_def pool_step_def)
next
  case SubmitUnlock
  then show ?thesis using assms runlock [of p C] by (fastforce simp: fair_step_def pool_step_def)
qed (use assms in auto)

lemma writer_active:
  assumes "callers p = add_mset c C" "writing c"
  shows "\<exists>p'. fair_step p p'"
proof (cases c)
  case WaitLocked
  then show ?thesis using assms already [of p C] close_chan [of p C] close_closed [of p C]
    by (cases "closed p"; cases "chanClosed p") (fastforce simp: fair_step_def pool_step_def)+
next
  case WaitClosed
  then show ?thesis using assms set_closed [of p C] by (fastforce simp: fair_step_def pool_step_def)
next
  case WaitUnlock
  then show ?thesis using assms unlock [of p C] by (fastforce simp: fair_step_def pool_step_def)
qed (use assms in auto)

lemma lock_free_or_active:
  assumes "pool_inv p"
  shows "(\<exists>p'. fair_step p p') \<or> \<not> writer p \<and> readers p = 0"
proof (cases "\<exists>c \<in># callers p. reading c \<or> writing c")
  case True
  then show ?thesis using reader_active writer_active by (metis multi_member_split)
next
  case False
  then have "filter_mset reading (callers p) = {#}" "filter_mset writing (callers p) = {#}" by auto
  with assms show ?thesis by (auto simp: pool_inv_def mutex_inv_def split: if_splits)
qed

lemma progress:
  assumes "pool_inv p" "c \<in># callers p" "\<not> finished c"
  shows "\<exists>p'. fair_step p p'"
proof (rule ccontr)
  assume stuck: "\<not> ?thesis"
  then have free: "\<not> writer p" "readers p = 0" using lock_free_or_active [OF assms(1)] by auto
  have no_call: "WaitCall \<notin># callers p"
  proof
    assume "WaitCall \<in># callers p"
    then obtain C where "callers p = add_mset WaitCall C" by (auto dest: multi_member_split)
    then show False using stuck free lock [of p C] by (fastforce simp: fair_step_def pool_step_def)
  qed
  obtain C where C: "callers p = add_mset c C" using assms(2) by (auto dest: multi_member_split)
  show False
  proof (cases c)
    case (SubmitCall t)
    then show ?thesis using stuck free no_call C rlock [of p t C] by (fastforce simp: fair_step_def pool_step_def)
  next
    case WaitWG
    show ?thesis
    proof (cases "wg p = 0")
      case True
      then show ?thesis using stuck C WaitWG wg_wait [of p C] by (fastforce simp: fair_step_def pool_step_def)
    next
      case False
      then have "filter_mset (\<lambda>w. w \<noteq> Exited) (pool_workers p) \<noteq> {#}"
        using assms(1) by (auto simp: pool_inv_def worker_inv_def simp del: filter_mset_eq_mempty_iff)
      then obtain w where "w \<in># pool_workers p" "w \<noteq> Exited"
        by (auto elim!: multiset_nonemptyE)
      moreover have "chanClosed p"
        using assms(1) C WaitWG by (auto simp: pool_inv_def closed_inv_def)
      ultimately show ?thesis using worker_active [OF assms(1)] stuck by blast
    qed
  qed (use assms no_call stuck C reader_active [OF C] writer_active [OF C] in \<open>auto simp: finished_def\<close>)
qed

lemma queue_progress:
  assumes "pool_inv p" "queue p \<noteq> []"
  shows "\<exists>p'. fair_step p p'"
proof -
  have "pool_workers p \<noteq> {#}" using assms by (auto simp: pool_inv_def worker_inv_def)
  then obtain w where w: "w \<in># pool_workers p" by blast
  moreover have "w \<noteq> Exited" using assms w by (auto simp: pool_inv_def worker_inv_def)
  ultimately show ?thesis using worker_active assms by blast
qed

lemma waited_quiet:
  assumes "pool_inv p" "WaitDone \<in># callers p"
  shows "closed p" "queue p = []" "pending p = {#}" "w \<in># pool_workers p \<Longrightarrow> w = Exited"
proof -
  show cl: "closed p" using assms by (auto simp: pool_inv_def closed_inv_def)
  show ex: "w = Exited" if "w \<in># pool_workers p" for w
    using assms that by (fastforce simp: pool_inv_def worker_inv_def)
  show q: "queue p = []"
  proof (cases "pool_workers p = {#}")
    case True
    then show ?thesis using assms(1) by (auto simp: pool_inv_def worker_inv_def)
  next
    case False
    then show ?thesis using ex assms(1) by (metis multiset_nonemptyE pool_inv_def worker_inv_def)
  qed
  have "caller_task c = {#}" if "c \<in># callers p" for c
    using assms(1) that cl by (cases c) (auto simp: pool_inv_def closed_inv_def)
  then show "pending p = {#}" using q ex by (fastforce simp: pending_def)
qed

lemma quiet_stays: "pool_inv p \<Longrightarrow> WaitDone \<in># callers p \<Longrightarrow> pool_step p p' \<Longrightarrow>
   WaitDone \<in># callers p' \<and> accepted p' = accepted p \<and> executed p' = executed p"
proof -
  assume inv: "pool_inv p" and wd: "WaitDone \<in># callers p" and st: "pool_step p p'"
  note quiet = waited_quiet [OF inv wd]
  have "w = Exited" if "w \<in># pool_workers p" for w using quiet(4) that .
  then have "worker_step p p' \<Longrightarrow> False"
    by (metis worker.distinct(3,5) union_single_eq_member worker_step.cases)
  moreover have "submit_step p p' \<Longrightarrow> ?thesis"
    using wd quiet(1) inv by (auto elim!: submit_step.cases simp: pool_inv_def closed_inv_def)
  moreover have "wait_step p p' \<Longrightarrow> ?thesis"
    using wd inv quiet(1) by (auto elim!: wait_step.cases simp: pool_inv_def closed_inv_def)
  ultimately show ?thesis using st by (auto simp: pool_step_def)
qed


lemma Pool_Wait_final:
  assumes "reachable pool_init pool_step p" "WaitDone \<in># callers p" "\<forall>c \<in># callers p. finished c"
  shows "Pool_Wait p = p"
proof -
  have inv: "pool_inv p" using assms(1) by (rule pool.inv_reachable)
  note q = waited_quiet [OF inv assms(2)]
  have "pool_workers p = replicate_mset (capacity p) Exited"
    using q(4) inv by (metis pool_inv_def set_mset_subset_singletonD singletonI subsetI worker_inv_def)
  moreover have "filter_mset reading (callers p) = {#}" "filter_mset writing (callers p) = {#}"
    using assms(3) by (auto simp: finished_def)
  then have "readers p = 0" "\<not> writer p"
    using inv unfolding pool_inv_def mutex_inv_def by (metis size_empty, metis of_bool_eq_0_iff size_empty)
  moreover have "wg p = 0" "chanClosed p" "accepted p = executed p"
    using inv assms(2) q by (auto simp: pool_inv_def worker_inv_def closed_inv_def task_inv_def)
  ultimately show ?thesis using q by (simp add: Pool_Wait_def)
qed

section \<open>A sample run\<close>

text \<open>One worker, one \<open>Submit\<close> of task 7 and one \<open>Wait\<close>, stepped to the end.\<close>

definition sample_pool :: "caller multiset \<Rightarrow> worker \<Rightarrow> task list \<Rightarrow> bool \<Rightarrow> bool \<Rightarrow>
    nat \<Rightarrow> bool \<Rightarrow> nat multiset \<Rightarrow> nat multiset \<Rightarrow> GoroutinePool" where
  "sample_pool C w q cc cl rd wr ac ex = \<lparr>capacity = 1, queue = q, chanClosed = cc, closed = cl,
     wg = (if w = Exited then 0 else 1), readers = rd, writer = wr, callers = C,
     pool_workers = {#w#}, panicked = False, accepted = ac, executed = ex\<rparr>"

lemma sample_init:
  "reachable pool_init pool_step (sample_pool {#SubmitCall (Some 7), WaitCall#} Receiving [] False False 0 False {#} {#})"
proof -
  have "pool_init (sample_pool {#SubmitCall (Some 7), WaitCall#} Receiving [] False False 0 False {#} {#})"
    unfolding pool_init_def
    by (rule exI [of _ 1], rule exI [of _ "[Submit (Some 7), Wait]"])
      (simp add: sample_pool_def NewGoroutinePool_def)
  then show ?thesis by (rule reach_init)
qed

lemma sample_steps:
  "pool_step (sample_pool {#SubmitCall (Some 7), WaitCall#} Receiving [] False False 0 False {#} {#})
     (sample_pool {#SubmitLocked (Some 7), WaitCall#} Receiving [] False False 1 False {#} {#})"
  "pool_step (sample_pool {#SubmitLocked (Some 7), WaitCall#} Receiving [] False False 1 False {#} {#})
     (sample_pool {#SubmitSelect (Some 7), WaitCall#} Receiving [] False False 1 False {#} {#})"
  "pool_step (sample_pool {#SubmitSelect (Some 7), WaitCall#} Receiving [] False False 1 False {#} {#})
     (sample_pool {#SubmitUnlock, WaitCall#} Receiving [Some 7] False False 1 False {#7#} {#})"
  "pool_step (sample_pool {#SubmitUnlock, WaitCall#} Receiving [Some 7] False False 1 False {#7#} {#})
     (sample_pool {#SubmitDone, WaitCall#} Receiving [Some 7] False False 0 False {#7#} {#})"
  "pool_step (sample_pool {#SubmitDone, WaitCall#} Receiving [Some 7] False False 0 False {#7#} {#})
     (sample_pool {#SubmitDone, WaitLocked#} Receiving [Some 7] False False 0 True {#7#} {#})"
  "pool_step (sample_pool {#SubmitDone, WaitLocked#} Receiving [Some 7] False False 0 True {#7#} {#})
     (sample_pool {#SubmitDone, WaitClosed#} Receiving [Some 7] True False 0 True {#7#} {#})"
  "pool_step (sample_pool {#SubmitDone, WaitClosed#} Receiving [Some 7] True False 0 True {#7#} {#})
     (sample_pool {#SubmitDone, WaitUnlock#} Receiving [Some 7] True True 0 True {#7#} {#})"
  "pool_step (sample_pool {#SubmitDone, WaitUnlock#} Receiving [Some 7] True True 0 True {#7#} {#})
     (sample_pool {#SubmitDone, WaitWG#} Receiving [Some 7] True True 0 False {#7#} {#})"
  "pool_step (sample_pool {#SubmitDone, WaitWG#} Receiving [Some 7] True True 0 False {#7#} {#})
     (sample_pool {#SubmitDone, WaitWG#} (Working (Some 7)) [] True True 0 False {#7#} {#})"
  "pool_step (sample_pool {#SubmitDone, WaitWG#} (Working (Some 7)) [] True True 0 False {#7#} {#})
     (sample_pool {#SubmitDone, WaitWG#} Receiving [] True True 0 False {#7#} {#7#})"
  "pool_step (sample_pool {#SubmitDone, WaitWG#} Receiving [] True True 0 False {#7#} {#7#})
     (sample_pool {#SubmitDone, WaitWG#} Exited [] True True 0 False {#7#} {#7#})"
  "pool_step (sample_pool {#SubmitDone, WaitWG#} Exited [] True True 0 False {#7#} {#7#})
     (sample_pool {#SubmitDone, WaitDone#} Exited [] True True 0 False {#7#} {#7#})"
  using rlock [of "sample_pool {#SubmitCall (Some 7), WaitCall#} Receiving [] False False 0 False {#} {#}" "Some 7" "{#WaitCall#}"]
    proceed [of "sample_pool {#SubmitLocked (Some 7), WaitCall#} Receiving [] False False 1 False {#} {#}" "Some 7" "{#WaitCall#}"]
    send [of "sample_pool {#SubmitSelect (Some 7), WaitCall#} Receiving [] False False 1 False {#} {#}" "Some 7" "{#WaitCall#}"]
    runlock [of "sample_pool {#SubmitUnlock, WaitCall#} Receiving [Some 7] False False 1 False {#7#} {#}" "{#WaitCall#}"]
    lock [of "sample_pool {#SubmitDone, WaitCall#} Receiving [Some 7] False False 0 False {#7#} {#}" "{#SubmitDone#}"]
    close_chan [of "sample_pool {#SubmitDone, WaitLocked#} Receiving [Some 7] False False 0 True {#7#} {#}" "{#SubmitDone#}"]
    set_closed [of "sample_pool {#SubmitDone, WaitClosed#} Receiving [Some 7] True False 0 True {#7#} {#}" "{#SubmitDone#}"]
    unlock [of "sample_pool {#SubmitDone, WaitUnlock#} Receiving [Some 7] True True 0 True {#7#} {#}" "{#SubmitDone#}"]
    receive [of "sample_pool {#SubmitDone, WaitWG#} Receiving [Some 7] True True 0 False {#7#} {#}" "{#}" "Some 7" "[]"]
    finish [of "sample_pool {#SubmitDone, WaitWG#} (Working (Some 7)) [] True True 0 False {#7#} {#}" "Some 7" "{#}"]
    drained [of "sample_pool {#SubmitDone, WaitWG#} Receiving [] True True 0 False {#7#} {#7#}" "{#}"]
    wg_wait [of "sample_pool {#SubmitDone, WaitWG#} Exited [] True True 0 False {#7#} {#7#}" "{#SubmitDone#}"]
  by (simp_all add: pool_step_def sample_pool_def runnable_def add_mset_commute)

text \<open>Runs compose step by step.\<close>

lemma pool_run: "pool_step p p' \<Longrightarrow> reachable pool_init pool_step p \<Longrightarrow> reachable pool_init pool_step p'"
  by (rule reach_step)

lemma sample_end: "reachable pool_init pool_step (sample_pool {#SubmitDone, WaitDone#} Exited [] True True 0 False {#7#} {#7#})"
  by (intro sample_init sample_steps [THEN pool_run])

section \<open>Properties\<close>

text \<open>
  C27.  In every interleaving the pool never sends on or closes a closed channel, its queue
  never exceeds the channel's capacity, \<open>Wait\<close> holds the mutex alone, and every accepted task
  has either run to its end or is still queued or running: no task is lost or run twice.
\<close>

theorem pool_safe:
  assumes "reachable pool_init pool_step p"
  shows "\<not> panicked p \<and> length (queue p) \<le> capacity p \<and>
    size (filter_mset writing (callers p)) \<le> 1 \<and>
    (filter_mset writing (callers p) \<noteq> {#} \<longrightarrow> filter_mset reading (callers p) = {#}) \<and>
    accepted p = executed p + pending p"
proof -
  have inv: "pool_inv p" using assms by (rule pool.inv_reachable)
  moreover have "size (filter_mset writing (callers p)) = of_bool (writer p)"
    using inv unfolding pool_inv_def mutex_inv_def by metis
  then have "size (filter_mset writing (callers p)) \<le> 1" by simp
  moreover have "reading c \<Longrightarrow> False" if "c \<in># callers p" "d \<in># callers p" "writing d" for c d
    using reader_alone [of p c d] inv that by (simp add: pool_inv_def)
  ultimately show ?thesis
    by (auto simp: pool_inv_def worker_inv_def task_inv_def)
qed

theorem pool_safe_witness:
  "\<not> panicked (sample_pool {#SubmitDone, WaitDone#} Exited [] True True 0 False {#7#} {#7#})"
  using pool_safe [OF sample_end] by blast

text \<open>
  C28.  \<open>Wait\<close> and \<open>Close\<close> return only when every accepted task has run and every worker has
  exited, and this stays so whatever is called afterwards: nothing is accepted any more.
\<close>

theorem wait_drains:
  assumes "reachable pool_init pool_step p" and "WaitDone \<in># callers p" and "pool_step\<^sup>*\<^sup>* p p'"
  shows "IsClosed p' \<and> executed p' = accepted p' \<and> accepted p' = accepted p \<and> queue p' = [] \<and>
    pool_workers p' = replicate_mset (capacity p') Exited"
proof -
  have inv: "pool_inv p" using assms(1) by (rule pool.inv_reachable)
  have "WaitDone \<in># callers p' \<and> accepted p' = accepted p \<and> pool_inv p'"
    using assms(3)
  proof (induction rule: rtranclp_induct)
    case base
    show ?case using assms(2) inv by simp
  next
    case (step y z)
    then show ?case using quiet_stays [of y z] pool.inv_step by auto
  qed
  then have p': "WaitDone \<in># callers p'" "accepted p' = accepted p" "pool_inv p'" by auto
  note q = waited_quiet [OF p'(3,1)]
  have "pool_workers p' = replicate_mset (size (pool_workers p')) Exited"
    using q(4) by (metis set_mset_subset_singletonD singletonI subsetI)
  moreover have "size (pool_workers p') = capacity p'" "accepted p' = executed p'"
    using p'(3) q(3) by (simp_all add: pool_inv_def worker_inv_def task_inv_def)
  ultimately show ?thesis using q p'(2) by (simp add: IsClosed_def)
qed

theorem wait_drains_witness:
  "executed (sample_pool {#SubmitDone, WaitDone#} Exited [] True True 0 False {#7#} {#7#}) = {#7#}"
  using wait_drains [OF sample_end _ rtranclp.rtrancl_refl] by (simp add: sample_pool_def)

text \<open>
  C29.  No call blocks forever: a run has at most \<open>weight\<close> steps, and where a fair scheduler
  has no step left, every \<open>Submit\<close>, \<open>Wait\<close> and \<open>Close\<close> has returned and every accepted task
  has run.
\<close>

theorem pool_terminates:
  assumes "reachable pool_init pool_step p"
  shows "(\<forall>n p'. (pool_step ^^ n) p p' \<longrightarrow> n \<le> weight p) \<and>
    ((\<nexists>p'. fair_step p p') \<longrightarrow>
       (\<forall>c \<in># callers p. finished c) \<and> executed p = accepted p)"
proof -
  have inv: "pool_inv p" using assms by (rule pool.inv_reachable)
  have "(\<forall>c \<in># callers p. finished c) \<and> executed p = accepted p" if stuck: "\<nexists>p'. fair_step p p'"
  proof -
    have fin: "\<forall>c \<in># callers p. finished c" using progress [OF inv] stuck by blast
    moreover have "queue p = []" using queue_progress [OF inv] stuck by blast
    moreover have "worker_task w = {#}" if "w \<in># pool_workers p" for w
      using worker_active [OF inv that] stuck by (cases w) auto
    moreover have "caller_task c = {#}" if "c \<in># callers p" for c
      using fin that by (auto simp: finished_def)
    ultimately have "pending p = {#}" by (simp add: pending_def)
    with fin inv show ?thesis by (simp add: pool_inv_def task_inv_def)
  qed
  moreover have "n \<le> weight p" if "(pool_step ^^ n) p p'" for n p'
    using weight_bounds [OF that] by simp
  ultimately show ?thesis by blast
qed

theorem pool_terminates_witness:
  "\<not> (\<exists>n p'. 16 < n \<and>
      (pool_step ^^ n) (sample_pool {#SubmitCall (Some 7), WaitCall#} Receiving [] False False 0 False {#} {#}) p')"
proof -
  have "weight (sample_pool {#SubmitCall (Some 7), WaitCall#} Receiving [] False False 0 False {#} {#}) = 16"
    by (simp add: sample_pool_def weight_def)
  with pool_terminates [OF sample_init] show ?thesis by (metis not_le)
qed

end
