(* ===== verification/Health.thy ===== *)
theory Health
  imports GoErrors
begin

text \<open>
  \<open>HealthChecker\<close> (\<open>managers.go\<close>).

  The methods are functions on the record, for use by a caller that runs alone.  A method
  with several critical sections can interleave with others: \<open>health_step\<close> has one step per
  critical section or channel operation of \<open>Stop\<close>, \<open>Start\<close> and the goroutines of \<open>run\<close>, with
  any number of concurrent calls.  \<open>stopOnce\<close> is a \<open>sync.Once\<close>: a call of \<open>Do\<close> runs the
  function if none has, and returns only when the run is over.

  The record carries two fields the struct has not: \<open>hc_runners\<close>, the goroutines \<open>Start\<close>
  launched, and \<open>hc_checks\<close>, the results of the checks made, latest first.
\<close>

section \<open>State and operations\<close>

datatype once = Fresh | Running | Done

text \<open>A goroutine of \<open>run\<close>: at its \<open>select\<close>, in the probe it read, or returned.\<close>

datatype runner = Selecting | Probing "nat option" | Returned

record HealthChecker =
  hc_interval :: duration
  hc_stopChanClosed :: bool
  hc_stopOnce :: once
  hc_healthy :: bool
  hc_lastCheck :: gotime
  hc_errorCount :: int64
  hc_lastError :: "goerror option"
  hc_stopped :: bool
  hc_probe :: "nat option"
  hc_runners :: "runner multiset"
  hc_checks :: "goerror option list"

definition NewHealthChecker :: HealthChecker where
  "NewHealthChecker = \<lparr>hc_interval = 30 * Second, hc_stopChanClosed = False, hc_stopOnce = Fresh,
     hc_healthy = True, hc_lastCheck = time_zero, hc_errorCount = 0, hc_lastError = None,
     hc_stopped = False, hc_probe = None, hc_runners = {#}, hc_checks = []\<rparr>"

definition SetProbe :: "nat option \<Rightarrow> HealthChecker \<Rightarrow> HealthChecker" where
  "SetProbe fn h = h\<lparr>hc_probe := fn\<rparr>"

definition HealthChecker_Start :: "HealthChecker \<Rightarrow> HealthChecker" where
  "HealthChecker_Start h = h\<lparr>hc_runners := add_mset Selecting (hc_runners h)\<rparr>"

definition HealthChecker_Stop :: "HealthChecker \<Rightarrow> HealthChecker outcome" where
  "HealthChecker_Stop h =
     (if \<not> hc_stopped h \<and> hc_stopOnce h = Fresh then
        if hc_stopChanClosed h then Panics
        else Returns (h\<lparr>hc_stopChanClosed := True, hc_stopped := True, hc_stopOnce := Done\<rparr>)
      else Returns h)"

definition IsHealthy :: "HealthChecker \<Rightarrow> bool" where
  "IsHealthy h = hc_healthy h"

definition GetLastCheck :: "HealthChecker \<Rightarrow> gotime" where
  "GetLastCheck h = hc_lastCheck h"

definition GetErrorCount :: "HealthChecker \<Rightarrow> int64" where
  "GetErrorCount h = hc_errorCount h"

definition GetLastError :: "HealthChecker \<Rightarrow> goerror option" where
  "GetLastError h = hc_lastError h"

text \<open>The second half of \<open>performHealthCheck\<close>, under the lock.\<close>

definition record_check :: "gotime \<Rightarrow> goerror option \<Rightarrow> HealthChecker \<Rightarrow> HealthChecker" where
  "record_check now probeErr h =
     (let h = h\<lparr>hc_lastCheck := now, hc_checks := probeErr # hc_checks h\<rparr> in
      case probeErr of
        Some e \<Rightarrow> h\<lparr>hc_healthy := False, hc_lastError := Some e, hc_errorCount := hc_errorCount h + 1\<rparr>
      | None \<Rightarrow> h\<lparr>hc_healthy := True, hc_lastError := None\<rparr>)"

text \<open>\<open>call p\<close> is the result of the probe \<open>p\<close>.\<close>

definition performHealthCheck :: "(nat \<Rightarrow> goerror option) \<Rightarrow> gotime \<Rightarrow> HealthChecker \<Rightarrow> HealthChecker" where
  "performHealthCheck call now h =
     record_check now (case hc_probe h of Some p \<Rightarrow> call p | None \<Rightarrow> None) h"

section \<open>Interleavings\<close>

text \<open>A call of \<open>Stop\<close>: before it reads \<open>stopped\<close>, before \<open>Do\<close>, in the function, returned.\<close>

datatype stopper = StopCall | StopDo | StopClose | StopMark | StopDone

record health_state =
  checker :: HealthChecker
  stoppers :: "stopper multiset"
  hc_panicked :: bool

definition health_init :: "health_state \<Rightarrow> bool" where
  "health_init s \<longleftrightarrow> s = \<lparr>checker = NewHealthChecker, stoppers = {#}, hc_panicked = False\<rparr>"

inductive stop_step :: "health_state \<Rightarrow> health_state \<Rightarrow> bool" where
  read_stopped: "stoppers s = add_mset StopCall C \<Longrightarrow> hc_stopped (checker s) \<Longrightarrow>
    stop_step s (s\<lparr>stoppers := add_mset StopDone C\<rparr>)"
| read_running: "stoppers s = add_mset StopCall C \<Longrightarrow> \<not> hc_stopped (checker s) \<Longrightarrow>
    stop_step s (s\<lparr>stoppers := add_mset StopDo C\<rparr>)"
| do_done: "stoppers s = add_mset StopDo C \<Longrightarrow> hc_stopOnce (checker s) = Done \<Longrightarrow>
    stop_step s (s\<lparr>stoppers := add_mset StopDone C\<rparr>)"
| do_run: "stoppers s = add_mset StopDo C \<Longrightarrow> hc_stopOnce (checker s) = Fresh \<Longrightarrow>
    stop_step s (s\<lparr>stoppers := add_mset StopClose C, checker := (checker s)\<lparr>hc_stopOnce := Running\<rparr>\<rparr>)"
| do_close: "stoppers s = add_mset StopClose C \<Longrightarrow> \<not> hc_stopChanClosed (checker s) \<Longrightarrow>
    stop_step s (s\<lparr>stoppers := add_mset StopMark C, checker := (checker s)\<lparr>hc_stopChanClosed := True\<rparr>\<rparr>)"
| do_close_closed: "stoppers s = add_mset StopClose C \<Longrightarrow> hc_stopChanClosed (checker s) \<Longrightarrow>
    stop_step s (s\<lparr>stoppers := C, hc_panicked := True\<rparr>)"
| do_mark: "stoppers s = add_mset StopMark C \<Longrightarrow>
    stop_step s (s\<lparr>stoppers := add_mset StopDone C,
      checker := (checker s)\<lparr>hc_stopped := True, hc_stopOnce := Done\<rparr>\<rparr>)"

text \<open>The loop of \<open>run\<close>; the probe is read first and its result, any error, recorded later.\<close>

inductive run_step :: "HealthChecker \<Rightarrow> HealthChecker \<Rightarrow> bool" where
  tick: "hc_runners h = add_mset Selecting R \<Longrightarrow>
    run_step h (h\<lparr>hc_runners := add_mset (Probing (hc_probe h)) R\<rparr>)"
| checked: "hc_runners h = add_mset (Probing p) R \<Longrightarrow> (p = None \<longrightarrow> probeErr = None) \<Longrightarrow>
    run_step h ((record_check now probeErr h)\<lparr>hc_runners := add_mset Selecting R\<rparr>)"
| stop_received: "hc_runners h = add_mset Selecting R \<Longrightarrow> hc_stopChanClosed h \<Longrightarrow>
    run_step h (h\<lparr>hc_runners := add_mset Returned R\<rparr>)"

inductive health_step :: "health_state \<Rightarrow> health_state \<Rightarrow> bool" where
  by_call: "health_step s (s\<lparr>stoppers := add_mset StopCall (stoppers s)\<rparr>)"
| by_stop: "stop_step s t \<Longrightarrow> health_step s t"
| by_run: "run_step (checker s) h \<Longrightarrow> health_step s (s\<lparr>checker := h\<rparr>)"
| by_start: "health_step s (s\<lparr>checker := HealthChecker_Start (checker s)\<rparr>)"
| by_set_probe: "health_step s (s\<lparr>checker := SetProbe fn (checker s)\<rparr>)"

section \<open>Invariant\<close>

text \<open>The results are the record of the checks made.\<close>

definition checks_inv :: "HealthChecker \<Rightarrow> bool" where
  "checks_inv h \<longleftrightarrow>
     hc_errorCount h = of_nat (length (filter (\<lambda>e. e \<noteq> None) (hc_checks h))) \<and>
     (case hc_checks h of
        [] \<Rightarrow> hc_healthy h \<and> hc_lastError h = None \<and> hc_lastCheck h = time_zero
      | e # _ \<Rightarrow> hc_healthy h = (e = None) \<and> hc_lastError h = e)"

text \<open>Exactly one call of \<open>Stop\<close> is inside \<open>Do\<close> while it runs; the channel follows it.\<close>

definition stop_inv :: "health_state \<Rightarrow> bool" where
  "stop_inv s \<longleftrightarrow> (let h = checker s; C = filter_mset (\<lambda>c. c = StopClose \<or> c = StopMark) (stoppers s) in
     \<not> hc_panicked s \<and>
     (case hc_stopOnce h of
        Fresh \<Rightarrow> C = {#} \<and> \<not> hc_stopped h \<and> \<not> hc_stopChanClosed h \<and> StopDone \<notin># stoppers s
      | Running \<Rightarrow> (C = {#StopClose#} \<and> \<not> hc_stopChanClosed h \<or> C = {#StopMark#} \<and> hc_stopChanClosed h) \<and>
          \<not> hc_stopped h \<and> StopDone \<notin># stoppers s
      | Done \<Rightarrow> C = {#} \<and> hc_stopped h \<and> hc_stopChanClosed h))"

definition runner_inv :: "HealthChecker \<Rightarrow> bool" where
  "runner_inv h \<longleftrightarrow> (Returned \<in># hc_runners h \<longrightarrow> hc_stopChanClosed h)"

definition health_inv :: "health_state \<Rightarrow> bool" where
  "health_inv s \<longleftrightarrow> checks_inv (checker s) \<and> stop_inv s \<and> runner_inv (checker s)"

lemma checks_inv_frame [simp]:
  "checks_inv (h\<lparr>hc_runners := R\<rparr>) = checks_inv h"
  "checks_inv (h\<lparr>hc_stopOnce := o1\<rparr>) = checks_inv h"
  "checks_inv (h\<lparr>hc_stopChanClosed := b\<rparr>) = checks_inv h"
  "checks_inv (h\<lparr>hc_stopped := b\<rparr>) = checks_inv h"
  "checks_inv (h\<lparr>hc_probe := fn\<rparr>) = checks_inv h"
  by (auto simp: checks_inv_def split: list.splits)

lemma record_check_inv: "checks_inv h \<Longrightarrow> checks_inv (record_check now e h)"
  by (cases e) (auto simp: checks_inv_def record_check_def Let_def)

lemma record_check_frame [simp]:
  "hc_stopOnce (record_check now e h) = hc_stopOnce h"
  "hc_stopped (record_check now e h) = hc_stopped h"
  "hc_stopChanClosed (record_check now e h) = hc_stopChanClosed h"
  "hc_runners (record_check now e h) = hc_runners h"
  "hc_checks (record_check now e h) = e # hc_checks h"
  "hc_probe (record_check now e h) = hc_probe h"
  by (cases e; simp add: record_check_def Let_def)+

lemma run_step_keeps:
  assumes "run_step h h'" "checks_inv h" "runner_inv h"
  shows "checks_inv h' \<and> runner_inv h' \<and> hc_stopOnce h' = hc_stopOnce h \<and>
    hc_stopped h' = hc_stopped h \<and> hc_stopChanClosed h' = hc_stopChanClosed h"
  using assms by (induction rule: run_step.induct) (auto simp: runner_inv_def record_check_inv)

lemma stop_step_inv: "stop_step s t \<Longrightarrow> health_inv s \<Longrightarrow> health_inv t"
  by (induction rule: stop_step.induct)
    (auto simp: health_inv_def stop_inv_def runner_inv_def Let_def split: once.splits)

lemma health_step_inv: "health_step s t \<Longrightarrow> health_inv s \<Longrightarrow> health_inv t"
proof (induction rule: health_step.induct)
  case (by_stop s t)
  then show ?case using stop_step_inv by blast
next
  case (by_run s h)
  then show ?case using run_step_keeps [of "checker s" h]
    by (auto simp: health_inv_def stop_inv_def Let_def split: once.splits)
qed (auto simp: health_inv_def stop_inv_def runner_inv_def HealthChecker_Start_def SetProbe_def Let_def
      split: once.splits)

interpretation health: inductive_invariant health_init health_step health_inv
proof
  show "health_init s \<Longrightarrow> health_inv s" for s
    by (simp add: health_init_def health_inv_def checks_inv_def stop_inv_def runner_inv_def NewHealthChecker_def)
qed (rule health_step_inv)

section \<open>Stop returns\<close>

fun stopper_weight :: "stopper \<Rightarrow> nat" where
  "stopper_weight StopCall = 4" | "stopper_weight StopDo = 3" | "stopper_weight StopClose = 2"
| "stopper_weight StopMark = 1" | "stopper_weight StopDone = 0"

definition stop_weight :: "health_state \<Rightarrow> nat" where
  "stop_weight s = (\<Sum>c \<in># stoppers s. stopper_weight c)"

lemma stop_weight_decreases: "stop_step s t \<Longrightarrow> stop_weight t < stop_weight s"
  by (induction rule: stop_step.induct) (auto simp: stop_weight_def)

lemma do_occupied:
  assumes "health_inv s" "hc_stopOnce (checker s) = Running"
  shows "StopClose \<in># stoppers s \<or> StopMark \<in># stoppers s"
proof -
  have "filter_mset (\<lambda>c. c = StopClose \<or> c = StopMark) (stoppers s) \<noteq> {#}"
    using assms by (auto simp: health_inv_def stop_inv_def Let_def simp del: filter_mset_eq_mempty_iff)
  then show ?thesis by auto
qed

lemma stop_enabled:
  assumes "health_inv s" "c \<in># stoppers s" "c \<noteq> StopDone"
  shows "\<exists>t. stop_step s t"
proof -
  obtain C where C: "stoppers s = add_mset c C" using assms(2) by (auto dest: multi_member_split)
  show ?thesis
  proof (cases c)
    case StopDo
    show ?thesis
    proof (cases "hc_stopOnce (checker s)")
      case Running
      with assms(1) have "StopClose \<in># stoppers s \<or> StopMark \<in># stoppers s" by (rule do_occupied)
      then show ?thesis by (metis do_close do_close_closed do_mark multi_member_split)
    qed (use C StopDo in \<open>auto intro: stop_step.intros\<close>)
  qed (use C assms(3) in \<open>auto intro: stop_step.intros, (blast intro: stop_step.intros)+\<close>)
qed

section \<open>The method alone\<close>

text \<open>
  The function \<open>HealthChecker_Stop\<close> on the record refines the interleaving model: in a
  reachable state with no \<open>Stop\<close> in flight it does not panic, and a single \<open>Stop\<close> call that
  runs alone ends in exactly the state it computes.
\<close>

lemma HealthChecker_Stop_refines:
  assumes "reachable health_init health_step s" and "\<forall>c \<in># stoppers s. c = StopDone"
  shows "\<exists>h. HealthChecker_Stop (checker s) = Returns h \<and>
    stop_step\<^sup>*\<^sup>* (s\<lparr>stoppers := add_mset StopCall (stoppers s)\<rparr>)
      (s\<lparr>stoppers := add_mset StopDone (stoppers s), checker := h\<rparr>)"
proof -
  have inv: "health_inv s" using assms(1) by (rule health.inv_reachable)
  let ?s = "\<lambda>c h. s\<lparr>stoppers := add_mset c (stoppers s), checker := h\<rparr>"
  let ?h = "checker s"
  show ?thesis
  proof (cases "hc_stopOnce ?h")
    case Fresh
    with inv have f: "\<not> hc_stopped ?h" "\<not> hc_stopChanClosed ?h"
      by (auto simp: health_inv_def stop_inv_def Let_def)
    let ?h1 = "?h\<lparr>hc_stopOnce := Running\<rparr>"
    let ?h2 = "?h1\<lparr>hc_stopChanClosed := True\<rparr>"
    let ?h3 = "?h2\<lparr>hc_stopped := True, hc_stopOnce := Done\<rparr>"
    have "stop_step (?s StopCall ?h) (?s StopDo ?h)" "stop_step (?s StopDo ?h) (?s StopClose ?h1)"
      "stop_step (?s StopClose ?h1) (?s StopMark ?h2)" "stop_step (?s StopMark ?h2) (?s StopDone ?h3)"
      using f Fresh read_running [of "?s StopCall ?h" "stoppers s"] do_run [of "?s StopDo ?h" "stoppers s"]
        do_close [of "?s StopClose ?h1" "stoppers s"] do_mark [of "?s StopMark ?h2" "stoppers s"]
      by simp_all
    then have "stop_step\<^sup>*\<^sup>* (?s StopCall ?h) (?s StopDone ?h3)"
      by (meson converse_rtranclp_into_rtranclp rtranclp.rtrancl_refl)
    then show ?thesis using f Fresh by (simp add: HealthChecker_Stop_def)
  next
    case Running
    with do_occupied [OF inv] assms(2) show ?thesis by auto
  next
    case Done
    with inv have "hc_stopped ?h" by (auto simp: health_inv_def stop_inv_def Let_def)
    then have "stop_step (?s StopCall ?h) (?s StopDone ?h)"
      using read_stopped [of "?s StopCall ?h" "stoppers s"] by simp
    then show ?thesis using Done by (auto simp: HealthChecker_Stop_def)
  qed
qed

section \<open>Properties\<close>

text \<open>A run with one check that fails, one \<open>Stop\<close> and the exit of the goroutine.\<close>

definition sample_health :: "stopper multiset \<Rightarrow> HealthChecker \<Rightarrow> health_state" where
  "sample_health C h = \<lparr>checker = h, stoppers = C, hc_panicked = False\<rparr>"

definition sample_checker :: HealthChecker where
  "sample_checker = (record_check 5 (Some (External ''closed'')) (SetProbe (Some 0) NewHealthChecker))
     \<lparr>hc_runners := {#Selecting#}\<rparr>"

lemma sample_checker_reachable: "reachable health_init health_step (sample_health {#} sample_checker)"
proof -
  let ?n = "SetProbe (Some 0) NewHealthChecker"
  let ?p = "(HealthChecker_Start ?n)\<lparr>hc_runners := {#Probing (Some 0)#}\<rparr>"
  have "reachable health_init health_step (sample_health {#} NewHealthChecker)"
    by (rule reach_init) (simp add: health_init_def sample_health_def)
  then have "reachable health_init health_step (sample_health {#} ?n)"
    by (rule reach_step) (use by_set_probe [of "sample_health {#} NewHealthChecker" "Some 0"] in
      \<open>simp add: sample_health_def\<close>)
  then have "reachable health_init health_step (sample_health {#} (HealthChecker_Start ?n))"
    by (rule reach_step) (use by_start [of "sample_health {#} ?n"] in \<open>simp add: sample_health_def\<close>)
  then have "reachable health_init health_step (sample_health {#} ?p)"
    by (rule reach_step) (use by_run [of "sample_health {#} (HealthChecker_Start ?n)" ?p] tick [of "HealthChecker_Start ?n" "{#}"] in
      \<open>simp add: sample_health_def HealthChecker_Start_def SetProbe_def NewHealthChecker_def\<close>)
  then show ?thesis
    by (rule reach_step) (use by_run [of "sample_health {#} ?p" sample_checker]
        checked [of ?p "Some 0" "{#}" "Some (External ''closed'')" 5] in
      \<open>simp add: sample_health_def sample_checker_def record_check_def HealthChecker_Start_def SetProbe_def NewHealthChecker_def\<close>)
qed

text \<open>
  C30.  However calls of \<open>Start\<close>, \<open>Stop\<close>, \<open>SetProbe\<close> and the checking goroutines interleave,
  the stop channel is closed at most once, \<open>Stop\<close> returns only after it is closed, and the
  getters report the checks made: healthy exactly when the latest check succeeded (or none
  was made), its error, and the number of failed checks modulo \<open>2^64\<close>.
\<close>

theorem health_safe:
  assumes "reachable health_init health_step s"
  shows "\<not> hc_panicked s \<and>
    (StopDone \<in># stoppers s \<longrightarrow> hc_stopChanClosed (checker s) \<and> hc_stopped (checker s)) \<and>
    IsHealthy (checker s) = (case hc_checks (checker s) of [] \<Rightarrow> True | e # _ \<Rightarrow> e = None) \<and>
    GetLastError (checker s) = (case hc_checks (checker s) of [] \<Rightarrow> None | e # _ \<Rightarrow> e) \<and>
    GetErrorCount (checker s) = of_nat (length (filter (\<lambda>e. e \<noteq> None) (hc_checks (checker s))))"
proof -
  have inv: "health_inv s" using assms by (rule health.inv_reachable)
  then have "\<not> hc_panicked s"
    "StopDone \<in># stoppers s \<Longrightarrow> hc_stopChanClosed (checker s) \<and> hc_stopped (checker s)"
    by (auto simp: health_inv_def stop_inv_def Let_def split: once.splits)
  moreover have "checks_inv (checker s)" using inv by (simp add: health_inv_def)
  ultimately show ?thesis
    by (auto simp: checks_inv_def IsHealthy_def GetLastError_def GetErrorCount_def split: list.splits)
qed

theorem health_safe_witness:
  "\<not> IsHealthy sample_checker \<and> GetErrorCount sample_checker = 1 \<and>
   GetLastError sample_checker = Some (External ''closed'')"
  using health_safe [OF sample_checker_reachable]
  by (simp add: sample_health_def sample_checker_def NewHealthChecker_def SetProbe_def)

text \<open>
  C31.  No call of \<open>Stop\<close> blocks: the calls in flight take at most \<open>stop_weight\<close> steps, and as
  long as one has not returned, one of them can take a step.  Once a \<open>Stop\<close> has returned,
  every checking goroutine can return: at once from its \<open>select\<close>, or after its probe.
\<close>

theorem Stop_returns:
  assumes "reachable health_init health_step s"
  shows "(\<forall>n t. (stop_step ^^ n) s t \<longrightarrow> n \<le> stop_weight s) \<and>
    ((\<nexists>t. stop_step s t) \<longrightarrow> (\<forall>c \<in># stoppers s. c = StopDone)) \<and>
    (StopDone \<in># stoppers s \<longrightarrow>
      (\<forall>R. hc_runners (checker s) = add_mset Selecting R \<longrightarrow>
         run_step (checker s) ((checker s)\<lparr>hc_runners := add_mset Returned R\<rparr>)))"
proof -
  have inv: "health_inv s" using assms by (rule health.inv_reachable)
  have "n + stop_weight t \<le> stop_weight s" if "(stop_step ^^ n) s t" for n t
    using that stop_weight_decreases by (induction n arbitrary: t) fastforce+
  then have "\<forall>n t. (stop_step ^^ n) s t \<longrightarrow> n \<le> stop_weight s" using add_leD1 by blast
  moreover have "hc_stopChanClosed (checker s)" if "StopDone \<in># stoppers s"
    using inv that by (auto simp: health_inv_def stop_inv_def Let_def split: once.splits)
  ultimately show ?thesis using stop_enabled [OF inv] stop_received by blast
qed

theorem Stop_returns_witness:
  "\<not> (\<exists>n t. 4 < n \<and> (stop_step ^^ n) (sample_health {#StopCall#} sample_checker) t)"
proof -
  have "reachable health_init health_step (sample_health {#StopCall#} sample_checker)"
    using reach_step [OF sample_checker_reachable by_call] by (simp add: sample_health_def)
  from Stop_returns [OF this] show ?thesis
    by (auto simp: stop_weight_def sample_health_def)
qed

end
