(* ===== verification/ConnManager.thy ===== *)
theory ConnManager
  imports Retry
begin

text \<open>
  \<open>ConnectionManager\<close> (\<open>managers.go\<close>).

  As for the health checker, the methods are functions on the record, and \<open>manager_step\<close>
  gives the interleavings: one step per critical section, channel operation or callback of
  \<open>Start\<close>, \<open>Stop\<close>, \<open>ForceReconnect\<close> and the goroutines of \<open>watchConnection\<close>.  Callbacks and
  notify channels are numbered.  The broker's behaviour is open: a notify channel may deliver
  an error, be closed, or stay silent, and the callback may fail or succeed each time.

  Two fields are not in the struct: \<open>cm_watchers\<close>, the goroutines of \<open>watchConnection\<close>, and
  \<open>cm_started\<close>, how many of them \<open>Start\<close> launched.
\<close>

section \<open>State and operations\<close>

text \<open>
  A goroutine of \<open>watchConnection\<close>: at the first \<open>select\<close>, before it marks the connection
  lost, at the stop test of the loop, in the callback, before it marks the connection live,
  before it registers the new notify channel, in the back-off sleep, returned.
\<close>

datatype watcher =
    Watching | Lost | Looping duration | Calling duration | Reconnected | Rewatching
  | Sleeping duration | Gone

record ConnectionManager =
  cm_config :: RabbitMQ
  cm_connected :: bool
  cm_stopChanClosed :: bool
  cm_stopped :: bool
  cm_reconnect :: "nat option"
  cm_connNotify :: "nat option"
  cm_watchers :: "watcher multiset"
  cm_started :: nat

definition NewConnectionManager :: "RabbitMQ \<Rightarrow> ConnectionManager" where
  "NewConnectionManager cfg = \<lparr>cm_config = cfg, cm_connected = False, cm_stopChanClosed = False,
     cm_stopped = False, cm_reconnect = None, cm_connNotify = None, cm_watchers = {#}, cm_started = 0\<rparr>"

definition SetReconnectFunc :: "nat option \<Rightarrow> ConnectionManager \<Rightarrow> ConnectionManager" where
  "SetReconnectFunc fn c = c\<lparr>cm_reconnect := fn\<rparr>"

definition SetConnectionNotify :: "nat option \<Rightarrow> ConnectionManager \<Rightarrow> ConnectionManager" where
  "SetConnectionNotify ch c = c\<lparr>cm_connNotify := ch\<rparr>"

definition ConnectionManager_Start :: "ConnectionManager \<Rightarrow> ConnectionManager" where
  "ConnectionManager_Start c =
     (let c = c\<lparr>cm_connected := True\<rparr> in
      if cm_connNotify c \<noteq> None \<and> cm_reconnect c \<noteq> None
      then c\<lparr>cm_watchers := add_mset Watching (cm_watchers c), cm_started := cm_started c + 1\<rparr>
      else c)"

text \<open>
  \<open>Stop\<close>: the critical section, which says whether the call goes on, and the \<open>select\<close> that
  closes the channel unless it is closed.
\<close>

definition stop_lock :: "ConnectionManager \<Rightarrow> bool \<times> ConnectionManager" where
  "stop_lock c =
     (let c = c\<lparr>cm_connected := False\<rparr> in
      if cm_stopped c then (False, c) else (True, c\<lparr>cm_stopped := True\<rparr>))"

definition stop_close :: "ConnectionManager \<Rightarrow> ConnectionManager" where
  "stop_close c = (if cm_stopChanClosed c then c else c\<lparr>cm_stopChanClosed := True\<rparr>)"

definition ConnectionManager_Stop :: "ConnectionManager \<Rightarrow> ConnectionManager" where
  "ConnectionManager_Stop c = (case stop_lock c of (True, c) \<Rightarrow> stop_close c | (False, c) \<Rightarrow> c)"

definition ConnectionManager_IsConnected :: "ConnectionManager \<Rightarrow> bool" where
  "ConnectionManager_IsConnected c = cm_connected c"

definition ConnectionManager_GetHealthChecker :: "ConnectionManager \<Rightarrow> unit option" where
  "ConnectionManager_GetHealthChecker c = None"

text \<open>\<open>call fn\<close> is the error of the callback.\<close>

definition ForceReconnect :: "(nat \<Rightarrow> goerror option) \<Rightarrow> ConnectionManager \<Rightarrow> ConnectionManager" where
  "ForceReconnect call c =
     (case cm_reconnect c of
        None \<Rightarrow> c\<lparr>cm_connected := True\<rparr>
      | Some fn \<Rightarrow>
          let c = c\<lparr>cm_connected := False\<rparr> in
          (case call fn of Some _ \<Rightarrow> c | None \<Rightarrow> c\<lparr>cm_connected := True\<rparr>))"

section \<open>Interleavings\<close>

text \<open>
  A call of \<open>Stop\<close> before the lock, before the \<open>select\<close>, at the \<open>close\<close> of its default
  branch, returned; a call of \<open>ForceReconnect\<close> before and in the callback, after it
  succeeded, returned.
\<close>

datatype manager_call =
    MStop | MStopSelect | MStopClose | MStopDone
  | MForce | MForceCall | MForceOk | MForceDone

record manager_state =
  manager :: ConnectionManager
  calls :: "manager_call multiset"
  cm_panicked :: bool

definition manager_init :: "manager_state \<Rightarrow> bool" where
  "manager_init s \<longleftrightarrow> (\<exists>cfg. s = \<lparr>manager = NewConnectionManager cfg, calls = {#}, cm_panicked = False\<rparr>)"

inductive watcher_step :: "ConnectionManager \<Rightarrow> ConnectionManager \<Rightarrow> bool" where
  notified: "cm_watchers c = add_mset Watching W \<Longrightarrow>
    watcher_step c (c\<lparr>cm_watchers := add_mset Lost W\<rparr>)"
| notify_closed: "cm_watchers c = add_mset Watching W \<Longrightarrow>
    watcher_step c (c\<lparr>cm_watchers := add_mset Gone W\<rparr>)"
| watch_stopped: "cm_watchers c = add_mset Watching W \<Longrightarrow> cm_stopChanClosed c \<Longrightarrow>
    watcher_step c (c\<lparr>cm_watchers := add_mset Gone W\<rparr>)"
| mark_lost: "cm_watchers c = add_mset Lost W \<Longrightarrow>
    watcher_step c (c\<lparr>cm_connected := False, cm_watchers := add_mset (Looping (500 * Millisecond)) W\<rparr>)"
| loop_stopped: "cm_watchers c = add_mset (Looping b) W \<Longrightarrow> cm_stopChanClosed c \<Longrightarrow>
    watcher_step c (c\<lparr>cm_watchers := add_mset Gone W\<rparr>)"
| loop_call: "cm_watchers c = add_mset (Looping b) W \<Longrightarrow> \<not> cm_stopChanClosed c \<Longrightarrow>
    watcher_step c (c\<lparr>cm_watchers := add_mset (Calling b) W\<rparr>)"
| call_ok: "cm_watchers c = add_mset (Calling b) W \<Longrightarrow>
    watcher_step c (c\<lparr>cm_watchers := add_mset Reconnected W\<rparr>)"
| mark_live: "cm_watchers c = add_mset Reconnected W \<Longrightarrow>
    watcher_step c (c\<lparr>cm_connected := True, cm_watchers := add_mset Rewatching W\<rparr>)"
| rewatch: "cm_watchers c = add_mset Rewatching W \<Longrightarrow>
    watcher_step c (c\<lparr>cm_watchers := add_mset Watching (add_mset Gone W)\<rparr>)"
| call_failed: "cm_watchers c = add_mset (Calling b) W \<Longrightarrow>
    watcher_step c (c\<lparr>cm_watchers := add_mset (Sleeping b) W\<rparr>)"
| sleep_stopped: "cm_watchers c = add_mset (Sleeping b) W \<Longrightarrow> cm_stopChanClosed c \<Longrightarrow>
    watcher_step c (c\<lparr>cm_watchers := add_mset Gone W\<rparr>)"
| timer_fired: "cm_watchers c = add_mset (Sleeping b) W \<Longrightarrow>
    watcher_step c (c\<lparr>cm_watchers := add_mset (Looping (double_backoff b)) W\<rparr>)"

inductive call_step :: "manager_state \<Rightarrow> manager_state \<Rightarrow> bool" where
  stop_locked: "calls s = add_mset MStop C \<Longrightarrow> stop_lock (manager s) = (go, m) \<Longrightarrow>
    call_step s (s\<lparr>calls := add_mset (if go then MStopSelect else MStopDone) C, manager := m\<rparr>)"
| stop_closed: "calls s = add_mset MStopSelect C \<Longrightarrow> cm_stopChanClosed (manager s) \<Longrightarrow>
    call_step s (s\<lparr>calls := add_mset MStopDone C\<rparr>)"
| stop_default: "calls s = add_mset MStopSelect C \<Longrightarrow> \<not> cm_stopChanClosed (manager s) \<Longrightarrow>
    call_step s (s\<lparr>calls := add_mset MStopClose C\<rparr>)"
| stop_closes: "calls s = add_mset MStopClose C \<Longrightarrow> \<not> cm_stopChanClosed (manager s) \<Longrightarrow>
    call_step s (s\<lparr>calls := add_mset MStopDone C, manager := (manager s)\<lparr>cm_stopChanClosed := True\<rparr>\<rparr>)"
| stop_closes_closed: "calls s = add_mset MStopClose C \<Longrightarrow> cm_stopChanClosed (manager s) \<Longrightarrow>
    call_step s (s\<lparr>calls := C, cm_panicked := True\<rparr>)"
| force_flip: "calls s = add_mset MForce C \<Longrightarrow> cm_reconnect (manager s) = None \<Longrightarrow>
    call_step s (s\<lparr>calls := add_mset MForceDone C, manager := (manager s)\<lparr>cm_connected := True\<rparr>\<rparr>)"
| force_lost: "calls s = add_mset MForce C \<Longrightarrow> cm_reconnect (manager s) = Some fn \<Longrightarrow>
    call_step s (s\<lparr>calls := add_mset MForceCall C, manager := (manager s)\<lparr>cm_connected := False\<rparr>\<rparr>)"
| force_failed: "calls s = add_mset MForceCall C \<Longrightarrow>
    call_step s (s\<lparr>calls := add_mset MForceDone C\<rparr>)"
| force_ok: "calls s = add_mset MForceCall C \<Longrightarrow>
    call_step s (s\<lparr>calls := add_mset MForceOk C\<rparr>)"
| force_live: "calls s = add_mset MForceOk C \<Longrightarrow>
    call_step s (s\<lparr>calls := add_mset MForceDone C, manager := (manager s)\<lparr>cm_connected := True\<rparr>\<rparr>)"

inductive manager_step :: "manager_state \<Rightarrow> manager_state \<Rightarrow> bool" where
  m_new_call: "c = MStop \<or> c = MForce \<Longrightarrow> manager_step s (s\<lparr>calls := add_mset c (calls s)\<rparr>)"
| m_call: "call_step s t \<Longrightarrow> manager_step s t"
| m_watch: "watcher_step (manager s) m \<Longrightarrow> manager_step s (s\<lparr>manager := m\<rparr>)"
| m_start: "manager_step s (s\<lparr>manager := ConnectionManager_Start (manager s)\<rparr>)"
| m_set_reconnect: "manager_step s (s\<lparr>manager := SetReconnectFunc fn (manager s)\<rparr>)"
| m_set_notify: "manager_step s (s\<lparr>manager := SetConnectionNotify ch (manager s)\<rparr>)"

section \<open>Invariant\<close>

text \<open>The sleep of a watcher is one of 500 ms, 1 s, 2 s, ..., 16 s, 30 s.\<close>

definition watch_backoff :: "duration \<Rightarrow> bool" where
  "watch_backoff b \<longleftrightarrow> (\<exists>k. b = (double_backoff ^^ k) (500 * Millisecond))"

fun watcher_backoff :: "watcher \<Rightarrow> duration option" where
  "watcher_backoff (Looping b) = Some b" | "watcher_backoff (Calling b) = Some b"
| "watcher_backoff (Sleeping b) = Some b" | "watcher_backoff _ = None"

definition watchers_inv :: "ConnectionManager \<Rightarrow> bool" where
  "watchers_inv c \<longleftrightarrow>
     size (filter_mset (\<lambda>w. w \<noteq> Gone) (cm_watchers c)) \<le> cm_started c \<and>
     (\<forall>w \<in># cm_watchers c. \<forall>b. watcher_backoff w = Some b \<longrightarrow> watch_backoff b)"

text \<open>One call of \<open>Stop\<close>, the one that set \<open>stopped\<close>, is on its way to close the channel.\<close>

definition closing_inv :: "manager_state \<Rightarrow> bool" where
  "closing_inv s \<longleftrightarrow> (let m = manager s;
       C = filter_mset (\<lambda>c. c = MStopSelect \<or> c = MStopClose) (calls s) in
     \<not> cm_panicked s \<and>
     (cm_stopChanClosed m \<longrightarrow> cm_stopped m) \<and>
     size C = of_bool (cm_stopped m \<and> \<not> cm_stopChanClosed m) \<and>
     (MStopDone \<in># calls s \<longrightarrow> cm_stopped m))"

definition manager_inv :: "manager_state \<Rightarrow> bool" where
  "manager_inv s \<longleftrightarrow> watchers_inv (manager s) \<and> closing_inv s"

lemma watch_backoff_init [simp]: "watch_backoff (500 * Millisecond)"
  unfolding watch_backoff_def by (rule exI [of _ 0]) simp

lemma watch_backoff_double [simp]: "watch_backoff b \<Longrightarrow> watch_backoff (double_backoff b)"
  unfolding watch_backoff_def by (metis funpow.simps(2) comp_apply)

lemma watcher_step_keeps:
  assumes "watcher_step c c'"
  shows "(watchers_inv c \<longrightarrow> watchers_inv c') \<and> cm_stopped c' = cm_stopped c \<and>
    cm_stopChanClosed c' = cm_stopChanClosed c \<and> cm_started c' = cm_started c"
  using assms by (induction rule: watcher_step.induct) (auto simp: watchers_inv_def)

lemma watchers_inv_frame [simp]:
  "watchers_inv (c\<lparr>cm_connected := b\<rparr>) = watchers_inv c"
  "watchers_inv (c\<lparr>cm_stopChanClosed := b\<rparr>) = watchers_inv c"
  "watchers_inv (c\<lparr>cm_stopped := b\<rparr>) = watchers_inv c"
  "watchers_inv (c\<lparr>cm_reconnect := fn\<rparr>) = watchers_inv c"
  "watchers_inv (c\<lparr>cm_connNotify := ch\<rparr>) = watchers_inv c"
  by (simp_all add: watchers_inv_def)

lemma call_step_inv: "call_step s t \<Longrightarrow> manager_inv s \<Longrightarrow> manager_inv t"
proof (induction rule: call_step.induct)
  case (stop_closes s C)
  then show ?case
    by (cases "cm_stopped (manager s)") (auto simp: manager_inv_def closing_inv_def Let_def)
qed (auto simp: manager_inv_def closing_inv_def stop_lock_def Let_def split: if_splits)

lemma Start_frame:
  "watchers_inv c \<Longrightarrow> watchers_inv (ConnectionManager_Start c)"
  "cm_stopped (ConnectionManager_Start c) = cm_stopped c"
  "cm_stopChanClosed (ConnectionManager_Start c) = cm_stopChanClosed c"
  by (auto simp: ConnectionManager_Start_def watchers_inv_def Let_def)

lemma manager_step_inv: "manager_step s t \<Longrightarrow> manager_inv s \<Longrightarrow> manager_inv t"
proof (induction rule: manager_step.induct)
  case (m_call s t)
  then show ?case using call_step_inv by blast
next
  case (m_watch s m)
  then show ?case using watcher_step_keeps [of "manager s" m]
    by (auto simp: manager_inv_def closing_inv_def Let_def)
qed (auto simp: manager_inv_def closing_inv_def Start_frame SetReconnectFunc_def SetConnectionNotify_def Let_def)

interpretation manager: inductive_invariant manager_init manager_step manager_inv
proof
  show "manager_init s \<Longrightarrow> manager_inv s" for s
    by (auto simp: manager_init_def manager_inv_def watchers_inv_def closing_inv_def NewConnectionManager_def)
qed (rule manager_step_inv)

section \<open>After Stop\<close>

fun watcher_weight :: "watcher \<Rightarrow> nat" where
  "watcher_weight (Calling b) = 6" | "watcher_weight Reconnected = 5" | "watcher_weight Rewatching = 4"
| "watcher_weight Watching = 3" | "watcher_weight Lost = 2" | "watcher_weight (Sleeping b) = 2"
| "watcher_weight (Looping b) = 1" | "watcher_weight Gone = 0"

definition watch_weight :: "ConnectionManager \<Rightarrow> nat" where
  "watch_weight c = (\<Sum>w \<in># cm_watchers c. watcher_weight w)"

lemma watch_weight_decreases:
  "watcher_step c c' \<Longrightarrow> cm_stopChanClosed c \<Longrightarrow> watch_weight c' < watch_weight c"
  by (induction rule: watcher_step.induct) (auto simp: watch_weight_def)

lemma watch_weight_bounds:
  "(watcher_step ^^ n) c c' \<Longrightarrow> cm_stopChanClosed c \<Longrightarrow>
     n + watch_weight c' \<le> watch_weight c \<and> cm_stopChanClosed c'"
proof (induction n arbitrary: c')
  case (Suc n)
  then obtain d where d: "(watcher_step ^^ n) c d" "watcher_step d c'" by auto
  with Suc.IH [of d] Suc.prems have "n + watch_weight d \<le> watch_weight c" "cm_stopChanClosed d" by auto
  with d watch_weight_decreases [of d c'] watcher_step_keeps [of d c'] show ?case by simp
qed simp

lemma watcher_enabled:
  assumes "w \<in># cm_watchers c" "w \<noteq> Gone"
  shows "\<exists>c'. watcher_step c c'"
proof -
  obtain W where W: "cm_watchers c = add_mset w W" using assms(1) by (auto dest: multi_member_split)
  show ?thesis
  proof (cases w)
    case (Looping b)
    then show ?thesis using W loop_stopped loop_call by (cases "cm_stopChanClosed c") blast+
  qed (use W assms(2) in \<open>auto intro: watcher_step.intros\<close>)
qed

lemma watch_backoff_range:
  assumes "watch_backoff b"
  shows "500000000 \<le> sint b \<and> sint b \<le> 30000000000"
proof -
  obtain k where k: "b = (double_backoff ^^ k) (500 * Millisecond)" using assms by (auto simp: watch_backoff_def)
  have half: "sint (500 * Millisecond) = 500000000" by (simp add: Millisecond_def)
  show ?thesis
  proof (cases k)
    case 0
    then show ?thesis using k half by simp
  next
    case (Suc j)
    have "(1::int) \<le> 2 ^ Suc j" by (rule one_le_power) simp
    then show ?thesis
      using k Suc half sint_backoff_iterate [of "500 * Millisecond" j] by (simp add: min_def)
  qed
qed

section \<open>A sample run\<close>

text \<open>
  The broker closes the connection, the watcher reconnects, and while it is between the
  callback and its next critical section a call of \<open>Stop\<close> runs to its end.
\<close>

definition sample_manager :: "manager_call multiset \<Rightarrow> bool \<Rightarrow> bool \<Rightarrow> bool \<Rightarrow> nat option \<Rightarrow> nat option \<Rightarrow>
    watcher multiset \<Rightarrow> nat \<Rightarrow> manager_state" where
  "sample_manager C conn cc st rec no W k = \<lparr>manager = \<lparr>cm_config = sample_config,
     cm_connected = conn, cm_stopChanClosed = cc, cm_stopped = st, cm_reconnect = rec,
     cm_connNotify = no, cm_watchers = W, cm_started = k\<rparr>, calls = C, cm_panicked = False\<rparr>"

lemmas sample_manager_defs = sample_manager_def SetReconnectFunc_def SetConnectionNotify_def
  ConnectionManager_Start_def stop_lock_def

lemma sample_manager_steps:
  "manager_step (sample_manager {#} False False False None None {#} 0)
     (sample_manager {#} False False False (Some 0) None {#} 0)"
  "manager_step (sample_manager {#} False False False (Some 0) None {#} 0)
     (sample_manager {#} False False False (Some 0) (Some 0) {#} 0)"
  "manager_step (sample_manager {#} False False False (Some 0) (Some 0) {#} 0)
     (sample_manager {#} True False False (Some 0) (Some 0) {#Watching#} 1)"
  "manager_step (sample_manager {#} True False False (Some 0) (Some 0) {#Watching#} 1)
     (sample_manager {#} True False False (Some 0) (Some 0) {#Lost#} 1)"
  "manager_step (sample_manager {#} True False False (Some 0) (Some 0) {#Lost#} 1)
     (sample_manager {#} False False False (Some 0) (Some 0) {#Looping (500 * Millisecond)#} 1)"
  "manager_step (sample_manager {#} False False False (Some 0) (Some 0) {#Looping (500 * Millisecond)#} 1)
     (sample_manager {#} False False False (Some 0) (Some 0) {#Calling (500 * Millisecond)#} 1)"
  "manager_step (sample_manager {#} False False False (Some 0) (Some 0) {#Calling (500 * Millisecond)#} 1)
     (sample_manager {#} False False False (Some 0) (Some 0) {#Reconnected#} 1)"
  "manager_step (sample_manager {#} False False False (Some 0) (Some 0) {#Reconnected#} 1)
     (sample_manager {#MStop#} False False False (Some 0) (Some 0) {#Reconnected#} 1)"
  "manager_step (sample_manager {#MStop#} False False False (Some 0) (Some 0) {#Reconnected#} 1)
     (sample_manager {#MStopSelect#} False False True (Some 0) (Some 0) {#Reconnected#} 1)"
  "manager_step (sample_manager {#MStopSelect#} False False True (Some 0) (Some 0) {#Reconnected#} 1)
     (sample_manager {#MStopClose#} False False True (Some 0) (Some 0) {#Reconnected#} 1)"
  "manager_step (sample_manager {#MStopClose#} False False True (Some 0) (Some 0) {#Reconnected#} 1)
     (sample_manager {#MStopDone#} False True True (Some 0) (Some 0) {#Reconnected#} 1)"
  "manager_step (sample_manager {#MStopDone#} False True True (Some 0) (Some 0) {#Reconnected#} 1)
     (sample_manager {#MStopDone#} True True True (Some 0) (Some 0) {#Rewatching#} 1)"
  "manager_step (sample_manager {#MStopDone#} True True True (Some 0) (Some 0) {#Rewatching#} 1)
     (sample_manager {#MStopDone#} True True True (Some 0) (Some 0) {#Watching, Gone#} 1)"
  "manager_step (sample_manager {#MStopDone#} True True True (Some 0) (Some 0) {#Watching, Gone#} 1)
     (sample_manager {#MStopDone#} True True True (Some 0) (Some 0) {#Gone, Gone#} 1)"
proof -
  show "manager_step (sample_manager {#} False False False None None {#} 0)
     (sample_manager {#} False False False (Some 0) None {#} 0)"
    using m_set_reconnect [of "sample_manager {#} False False False None None {#} 0" "Some 0"]
    by (simp add: sample_manager_defs)
  show "manager_step (sample_manager {#} False False False (Some 0) None {#} 0)
     (sample_manager {#} False False False (Some 0) (Some 0) {#} 0)"
    using m_set_notify [of "sample_manager {#} False False False (Some 0) None {#} 0" "Some 0"]
    by (simp add: sample_manager_defs)
  show "manager_step (sample_manager {#} False False False (Some 0) (Some 0) {#} 0)
     (sample_manager {#} True False False (Some 0) (Some 0) {#Watching#} 1)"
    using m_start [of "sample_manager {#} False False False (Some 0) (Some 0) {#} 0"]
    by (simp add: sample_manager_defs)
  show "manager_step (sample_manager {#} True False False (Some 0) (Some 0) {#Watching#} 1)
     (sample_manager {#} True False False (Some 0) (Some 0) {#Lost#} 1)"
    using m_watch [of "sample_manager {#} True False False (Some 0) (Some 0) {#Watching#} 1" "manager (sample_manager {#} True False False (Some 0) (Some 0) {#Lost#} 1)"] notified [of "manager (sample_manager {#} True False False (Some 0) (Some 0) {#Watching#} 1)" "{#}"]
    by (simp add: sample_manager_defs)
  show "manager_step (sample_manager {#} True False False (Some 0) (Some 0) {#Lost#} 1)
     (sample_manager {#} False False False (Some 0) (Some 0) {#Looping (500 * Millisecond)#} 1)"
    using m_watch [of "sample_manager {#} True False False (Some 0) (Some 0) {#Lost#} 1" "manager (sample_manager {#} False False False (Some 0) (Some 0) {#Looping (500 * Millisecond)#} 1)"] mark_lost [of "manager (sample_manager {#} True False False (Some 0) (Some 0) {#Lost#} 1)" "{#}"]
    by (simp add: sample_manager_defs)
  show "manager_step (sample_manager {#} False False False (Some 0) (Some 0) {#Looping (500 * Millisecond)#} 1)
     (sample_manager {#} False False False (Some 0) (Some 0) {#Calling (500 * Millisecond)#} 1)"
    using m_watch [of "sample_manager {#} False False False (Some 0) (Some 0) {#Looping (500 * Millisecond)#} 1" "manager (sample_manager {#} False False False (Some 0) (Some 0) {#Calling (500 * Millisecond)#} 1)"] loop_call [of "manager (sample_manager {#} False False False (Some 0) (Some 0) {#Looping (500 * Millisecond)#} 1)" "500 * Millisecond" "{#}"]
    by (simp add: sample_manager_defs)
  show "manager_step (sample_manager {#} False False False (Some 0) (Some 0) {#Calling (500 * Millisecond)#} 1)
     (sample_manager {#} False False False (Some 0) (Some 0) {#Reconnected#} 1)"
    using m_watch [of "sample_manager {#} False False False (Some 0) (Some 0) {#Calling (500 * Millisecond)#} 1" "manager (sample_manager {#} False False False (Some 0) (Some 0) {#Reconnected#} 1)"] call_ok [of "manager (sample_manager {#} False False False (Some 0) (Some 0) {#Calling (500 * Millisecond)#} 1)" "500 * Millisecond" "{#}"]
    by (simp add: sample_manager_defs)
  show "manager_step (sample_manager {#} False False False (Some 0) (Some 0) {#Reconnected#} 1)
     (sample_manager {#MStop#} False False False (Some 0) (Some 0) {#Reconnected#} 1)"
    using m_new_call [of MStop "sample_manager {#} False False False (Some 0) (Some 0) {#Reconnected#} 1"]
    by (simp add: sample_manager_defs)
  show "manager_step (sample_manager {#MStop#} False False False (Some 0) (Some 0) {#Reconnected#} 1)
     (sample_manager {#MStopSelect#} False False True (Some 0) (Some 0) {#Reconnected#} 1)"
    using m_call [OF stop_locked [of "sample_manager {#MStop#} False False False (Some 0) (Some 0) {#Reconnected#} 1" "{#}"]]
    by (simp add: sample_manager_defs)
  show "manager_step (sample_manager {#MStopSelect#} False False True (Some 0) (Some 0) {#Reconnected#} 1)
     (sample_manager {#MStopClose#} False False True (Some 0) (Some 0) {#Reconnected#} 1)"
    using m_call [OF stop_default [of "sample_manager {#MStopSelect#} False False True (Some 0) (Some 0) {#Reconnected#} 1" "{#}"]]
    by (simp add: sample_manager_defs)
  show "manager_step (sample_manager {#MStopClose#} False False True (Some 0) (Some 0) {#Reconnected#} 1)
     (sample_manager {#MStopDone#} False True True (Some 0) (Some 0) {#Reconnected#} 1)"
    using m_call [OF stop_closes [of "sample_manager {#MStopClose#} False False True (Some 0) (Some 0) {#Reconnected#} 1" "{#}"]]
    by (simp add: sample_manager_defs)
  show "manager_step (sample_manager {#MStopDone#} False True True (Some 0) (Some 0) {#Reconnected#} 1)
     (sample_manager {#MStopDone#} True True True (Some 0) (Some 0) {#Rewatching#} 1)"
    using m_watch [of "sample_manager {#MStopDone#} False True True (Some 0) (Some 0) {#Reconnected#} 1" "manager (sample_manager {#MStopDone#} True True True (Some 0) (Some 0) {#Rewatching#} 1)"] mark_live [of "manager (sample_manager {#MStopDone#} False True True (Some 0) (Some 0) {#Reconnected#} 1)" "{#}"]
    by (simp add: sample_manager_defs)
  show "manager_step (sample_manager {#MStopDone#} True True True (Some 0) (Some 0) {#Rewatching#} 1)
     (sample_manager {#MStopDone#} True True True (Some 0) (Some 0) {#Watching, Gone#} 1)"
    using m_watch [of "sample_manager {#MStopDone#} True True True (Some 0) (Some 0) {#Rewatching#} 1" "manager (sample_manager {#MStopDone#} True True True (Some 0) (Some 0) {#Watching, Gone#} 1)"] rewatch [of "manager (sample_manager {#MStopDone#} True True True (Some 0) (Some 0) {#Rewatching#} 1)" "{#}"]
    by (simp add: sample_manager_defs)
  show "manager_step (sample_manager {#MStopDone#} True True True (Some 0) (Some 0) {#Watching, Gone#} 1)
     (sample_manager {#MStopDone#} True True True (Some 0) (Some 0) {#Gone, Gone#} 1)"
    using m_watch [of "sample_manager {#MStopDone#} True True True (Some 0) (Some 0) {#Watching, Gone#} 1" "manager (sample_manager {#MStopDone#} True True True (Some 0) (Some 0) {#Gone, Gone#} 1)"] watch_stopped [of "manager (sample_manager {#MStopDone#} True True True (Some 0) (Some 0) {#Watching, Gone#} 1)" "{#Gone#}"]
    by (simp add: sample_manager_defs)
qed

lemma manager_run:
  "manager_step s t \<Longrightarrow> reachable manager_init manager_step s \<Longrightarrow> reachable manager_init manager_step t"
  by (rule reach_step)

lemma sample_manager_init: "reachable manager_init manager_step (sample_manager {#} False False False None None {#} 0)"
  by (rule reach_init) (auto simp: manager_init_def sample_manager_def NewConnectionManager_def)

lemma sample_manager_end: "reachable manager_init manager_step (sample_manager {#MStopDone#} True True True (Some 0) (Some 0) {#Gone, Gone#} 1)"
  by (intro sample_manager_init sample_manager_steps [THEN manager_run])

section \<open>Properties\<close>

text \<open>
  C32.  In every interleaving of \<open>Start\<close>, \<open>Stop\<close>, \<open>ForceReconnect\<close> and the watchers the stop
  channel is closed at most once, there are never more live watchers than \<open>Start\<close> launched,
  and every back-off sleep lasts between 500 ms and 30 s.
\<close>

theorem manager_safe:
  assumes "reachable manager_init manager_step s"
  shows "\<not> cm_panicked s \<and>
    size (filter_mset (\<lambda>w. w \<noteq> Gone) (cm_watchers (manager s))) \<le> cm_started (manager s) \<and>
    (\<forall>b. Sleeping b \<in># cm_watchers (manager s) \<longrightarrow> 500000000 \<le> sint b \<and> sint b \<le> 30000000000)"
proof -
  have inv: "watchers_inv (manager s)" "closing_inv s"
    using manager.inv_reachable [OF assms] by (simp_all add: manager_inv_def)
  have "watch_backoff b" if "Sleeping b \<in># cm_watchers (manager s)" for b
    using inv(1) that by (fastforce simp: watchers_inv_def)
  with inv watch_backoff_range show ?thesis by (auto simp: watchers_inv_def closing_inv_def Let_def)
qed

theorem manager_safe_witness: "\<not> cm_panicked (sample_manager {#MStopDone#} True True True (Some 0) (Some 0) {#Gone, Gone#} 1)"
  using manager_safe [OF sample_manager_end] by blast

text \<open>
  C33.  Once the stop channel is closed every watcher returns: the watchers together take at
  most \<open>watch_weight\<close> further steps, whatever the broker and the callback do, and one that
  has not returned can always take a step.
\<close>

theorem watchers_return:
  assumes "cm_stopChanClosed c"
  shows "(\<forall>n c'. (watcher_step ^^ n) c c' \<longrightarrow> n \<le> watch_weight c) \<and>
    ((\<nexists>c'. watcher_step c c') \<longrightarrow> (\<forall>w \<in># cm_watchers c. w = Gone))"
proof -
  have "n \<le> watch_weight c" if "(watcher_step ^^ n) c c'" for n c'
    using watch_weight_bounds [OF that assms] by simp
  then show ?thesis using watcher_enabled by blast
qed

theorem watchers_return_witness:
  "\<not> (\<exists>n c'. 5 < n \<and> (watcher_step ^^ n) (manager (sample_manager {#MStopDone#} False True True (Some 0) (Some 0) {#Reconnected#} 1)) c')"
  using watchers_return [of "manager (sample_manager {#MStopDone#} False True True (Some 0) (Some 0) {#Reconnected#} 1)"]
  by (auto simp: watch_weight_def sample_manager_def)

text \<open>
  C34.  \<open>ConnectionManager_Stop\<close> on the record refines the interleaving model: in a reachable
  state with no \<open>Stop\<close> on its way to the \<open>close\<close>, a single call that runs alone ends in the
  state it computes, which is disconnected and has the stop channel closed.
\<close>

theorem ConnectionManager_Stop_refines:
  assumes "reachable manager_init manager_step s"
    and "MStopSelect \<notin># calls s" and "MStopClose \<notin># calls s"
  shows "call_step\<^sup>*\<^sup>* (s\<lparr>calls := add_mset MStop (calls s)\<rparr>)
      (s\<lparr>calls := add_mset MStopDone (calls s), manager := ConnectionManager_Stop (manager s)\<rparr>) \<and>
    \<not> ConnectionManager_IsConnected (ConnectionManager_Stop (manager s)) \<and>
    cm_stopChanClosed (ConnectionManager_Stop (manager s))"
proof -
  let ?m = "manager s"
  let ?s = "\<lambda>c m. s\<lparr>calls := add_mset c (calls s), manager := m\<rparr>"
  let ?C = "filter_mset (\<lambda>c. c = MStopSelect \<or> c = MStopClose) (calls s)"
  have "closing_inv s" using manager.inv_reachable [OF assms(1)] by (simp add: manager_inv_def)
  then have inv: "size ?C = of_bool (cm_stopped ?m \<and> \<not> cm_stopChanClosed ?m)"
    "cm_stopChanClosed ?m \<longrightarrow> cm_stopped ?m"
    unfolding closing_inv_def Let_def by blast+
  have "size ?C = 0" using assms(2,3) by auto
  then have sc: "cm_stopped ?m = cm_stopChanClosed ?m" using inv by (metis of_bool_eq_0_iff)
  have lock: "call_step (?s MStop ?m) (?s (if go then MStopSelect else MStopDone) m)" if "stop_lock ?m = (go, m)" for go m
    using stop_locked [of "?s MStop ?m" "calls s" go m] that by simp
  show ?thesis
  proof (cases "cm_stopped ?m")
    case True
    then have "stop_lock ?m = (False, ?m\<lparr>cm_connected := False\<rparr>)" by (simp add: stop_lock_def)
    with lock [OF this] True sc show ?thesis
      by (auto simp: ConnectionManager_Stop_def ConnectionManager_IsConnected_def)
  next
    case False
    let ?n = "?m\<lparr>cm_connected := False, cm_stopped := True\<rparr>"
    have comm: "s\<lparr>manager := m, calls := c\<rparr> = s\<lparr>calls := c, manager := m\<rparr>" for m c by simp
    have l: "stop_lock ?m = (True, ?n)" using False by (simp add: stop_lock_def)
    have "call_step (?s MStopSelect ?n) (?s MStopClose ?n)"
      "call_step (?s MStopClose ?n) (?s MStopDone (?n\<lparr>cm_stopChanClosed := True\<rparr>))"
      using False sc stop_default [of "?s MStopSelect ?n" "calls s"] stop_closes [of "?s MStopClose ?n" "calls s"]
      by (simp_all add: comm)
    moreover have "ConnectionManager_Stop ?m = ?n\<lparr>cm_stopChanClosed := True\<rparr>"
      using l False sc by (simp add: ConnectionManager_Stop_def stop_close_def)
    moreover have "call_step (?s MStop ?m) (?s MStopSelect ?n)" using lock [OF l] by simp
    ultimately show ?thesis
      by (simp add: ConnectionManager_IsConnected_def)
  qed
qed

theorem ConnectionManager_Stop_refines_witness:
  "\<not> ConnectionManager_IsConnected (ConnectionManager_Stop (manager (sample_manager {#} False False False None None {#} 0)))"
  using ConnectionManager_Stop_refines [OF sample_manager_init] by (simp add: sample_manager_def)


end
