(* ===== verification/NetURL.thy ===== *)
theory NetURL
  imports GoErrors "HOL-Library.Sublist"
begin

text \<open>
  What \<open>buildDialURL\<close> uses of Go's \<open>net/url\<close> and \<open>strings\<close> packages: \<open>url.Parse\<close>,
  \<open>URL.String\<close>, \<open>url.UserPassword\<close>, and the escaping they rest on (Go 1.26, to which
  \<open>go.mod\<close> pins the package).  Errors of \<open>url.Parse\<close> are \<^const>\<open>None\<close>: the only caller drops
  them.  Whether the text between brackets is an IPv6 address is decided by \<open>net/netip\<close>; this
  one test is the argument \<open>ip6\<close> of the parser.

  Section \<open>Round trips\<close> shows that escaping loses nothing, and that a URL of the shape
  the client dials is parsed back to the components it was made of.
\<close>

section \<open>Strings\<close>

text \<open>\<open>strings.Cut\<close> at a one-byte separator; the flag says whether it was found.\<close>

fun strings_Cut :: "gostring \<Rightarrow> char \<Rightarrow> gostring \<times> gostring \<times> bool" where
  "strings_Cut [] c = ([], [], False)"
| "strings_Cut (x # s) c =
     (if x = c then ([], s, True)
      else (case strings_Cut s c of (a, b, found) \<Rightarrow> (x # a, b, found)))"

text \<open>The text before and after the last occurrence of a byte (\<open>strings.LastIndex\<close>).\<close>

definition cut_last :: "gostring \<Rightarrow> char \<Rightarrow> (gostring \<times> gostring) option" where
  "cut_last s c = (case strings_Cut (rev s) c of
     (a, b, True) \<Rightarrow> Some (rev b, rev a)
   | (a, b, False) \<Rightarrow> None)"

definition strings_HasPrefix :: "gostring \<Rightarrow> gostring \<Rightarrow> bool" where
  "strings_HasPrefix s p \<longleftrightarrow> take (length p) s = p"

definition strings_TrimPrefix :: "gostring \<Rightarrow> gostring \<Rightarrow> gostring" where
  "strings_TrimPrefix s p = (if strings_HasPrefix s p then drop (length p) s else s)"

definition between :: "char \<Rightarrow> char \<Rightarrow> char \<Rightarrow> bool" where
  "between a c b \<longleftrightarrow> (of_char a :: nat) \<le> of_char c \<and> (of_char c :: nat) \<le> of_char b"

definition is_letter :: "char \<Rightarrow> bool" where
  "is_letter c \<longleftrightarrow> between CHR ''a'' c CHR ''z'' \<or> between CHR ''A'' c CHR ''Z''"

definition is_digit :: "char \<Rightarrow> bool" where
  "is_digit c \<longleftrightarrow> between CHR ''0'' c CHR ''9''"

text \<open>\<open>strings.ToLower\<close> on ASCII.\<close>

definition lower_char :: "char \<Rightarrow> char" where
  "lower_char c = (if between CHR ''A'' c CHR ''Z'' then char_of (of_char c + 32 :: nat) else c)"

definition strings_ToLower :: "gostring \<Rightarrow> gostring" where
  "strings_ToLower s = map lower_char s"

section \<open>Escaping\<close>

datatype encoding = encodePath | encodeHost | encodeZone | encodeUserPassword | encodeFragment

definition shouldEscape :: "char \<Rightarrow> encoding \<Rightarrow> bool" where
  "shouldEscape c mode =
     (if is_letter c \<or> is_digit c then False
      else if (mode = encodeHost \<or> mode = encodeZone) \<and> c \<in> set ''!$&'' \<union> {CHR 0x27} \<union> set ''()*+,;=:[]<>'' \<union> {CHR 0x22}
      then False
      else if c \<in> set ''-_.~'' then False
      else if c \<in> set ''$&+,/:;=?@'' \<and> mode = encodePath then c = CHR ''?''
      else if c \<in> set ''$&+,/:;=?@'' \<and> mode = encodeUserPassword then c \<in> set ''@/?:''
      else if c \<in> set ''$&+,/:;=?@'' \<and> mode = encodeFragment then False
      else if mode = encodeFragment \<and> c \<in> set ''!()*'' then False
      else True)"

definition upperhex :: "nat \<Rightarrow> char" where
  "upperhex n = (if n < 10 then char_of (48 + n) else char_of (55 + n))"

definition ishex :: "char \<Rightarrow> bool" where
  "ishex c \<longleftrightarrow> is_digit c \<or> between CHR ''a'' c CHR ''f'' \<or> between CHR ''A'' c CHR ''F''"

definition unhex :: "char \<Rightarrow> nat" where
  "unhex c =
     (if is_digit c then of_char c - 48
      else if between CHR ''a'' c CHR ''f'' then of_char c - 87
      else if between CHR ''A'' c CHR ''F'' then of_char c - 55
      else 0)"

definition escape_char :: "encoding \<Rightarrow> char \<Rightarrow> gostring" where
  "escape_char mode c =
     (if shouldEscape c mode
      then [CHR ''%'', upperhex (of_char c div 16), upperhex (of_char c mod 16)]
      else [c])"

definition escape :: "gostring \<Rightarrow> encoding \<Rightarrow> gostring" where
  "escape s mode = concat (map (escape_char mode) s)"

text \<open>May the escape sequence of these two digits stand in a string of this mode?\<close>

definition escape_ok :: "encoding \<Rightarrow> char \<Rightarrow> char \<Rightarrow> bool" where
  "escape_ok mode a b \<longleftrightarrow>
     ishex a \<and> ishex b \<and>
     \<not> (mode = encodeHost \<and> unhex a < 8 \<and> [a, b] \<noteq> ''25'') \<and>
     \<not> (mode = encodeZone \<and> [a, b] \<noteq> ''25'' \<and>
        char_of (unhex a * 16 + unhex b) \<noteq> CHR '' '' \<and>
        shouldEscape (char_of (unhex a * 16 + unhex b)) encodeHost)"

definition plain_ok :: "encoding \<Rightarrow> char \<Rightarrow> bool" where
  "plain_ok mode c \<longleftrightarrow>
     \<not> ((mode = encodeHost \<or> mode = encodeZone) \<and> (of_char c :: nat) < 128 \<and> shouldEscape c mode)"

fun unescape :: "gostring \<Rightarrow> encoding \<Rightarrow> gostring option" where
  "unescape [] mode = Some []"
| "unescape (c # s) mode =
     (if c = CHR ''%'' then
        (case s of
           a # b # t \<Rightarrow>
             if escape_ok mode a b
             then map_option ((#) (char_of (unhex a * 16 + unhex b))) (unescape t mode)
             else None
         | _ \<Rightarrow> None)
      else if plain_ok mode c then map_option ((#) c) (unescape s mode)
      else None)"

section \<open>URLs\<close>

record Userinfo =
  username :: gostring
  password :: gostring
  passwordSet :: bool

definition UserPassword :: "gostring \<Rightarrow> gostring \<Rightarrow> Userinfo" where
  "UserPassword u p = \<lparr>username = u, password = p, passwordSet = True\<rparr>"

definition User_only :: "gostring \<Rightarrow> Userinfo" where
  "User_only u = \<lparr>username = u, password = '''', passwordSet = False\<rparr>"

record URL =
  Scheme :: gostring
  Opaque :: gostring
  User :: "Userinfo option"
  Host :: gostring
  Path :: gostring
  RawPath :: gostring
  OmitHost :: bool
  ForceQuery :: bool
  RawQuery :: gostring
  Fragment :: gostring
  RawFragment :: gostring

definition empty_URL :: URL where
  "empty_URL = \<lparr>Scheme = '''', Opaque = '''', User = None, Host = '''', Path = '''', RawPath = '''',
     OmitHost = False, ForceQuery = False, RawQuery = '''', Fragment = '''', RawFragment = ''''\<rparr>"

subsection \<open>Parsing\<close>

definition containsCTLByte :: "gostring \<Rightarrow> bool" where
  "containsCTLByte s \<longleftrightarrow> (\<exists>c \<in> set s. (of_char c :: nat) < 32 \<or> (of_char c :: nat) = 127)"

text \<open>\<open>getScheme\<close>, scanning from position \<open>i\<close> with the part read so far: the scheme and the rest.\<close>

fun scan_scheme :: "gostring \<Rightarrow> gostring \<Rightarrow> gostring \<Rightarrow> (gostring \<times> gostring) option" where
  "scan_scheme raw seen [] = Some ('''', raw)"
| "scan_scheme raw seen (c # s) =
     (if is_letter c then scan_scheme raw (seen @ [c]) s
      else if is_digit c \<or> c \<in> set ''+-.'' then
        if seen = '''' then Some ('''', raw) else scan_scheme raw (seen @ [c]) s
      else if c = CHR '':'' then
        if seen = '''' then None else Some (seen, s)
      else Some ('''', raw))"

definition getScheme :: "gostring \<Rightarrow> (gostring \<times> gostring) option" where
  "getScheme raw = scan_scheme raw '''' raw"

definition validOptionalPort :: "gostring \<Rightarrow> bool" where
  "validOptionalPort p \<longleftrightarrow> (case p of [] \<Rightarrow> True | c # ds \<Rightarrow> c = CHR '':'' \<and> list_all is_digit ds)"

definition validUserinfo :: "gostring \<Rightarrow> bool" where
  "validUserinfo s \<longleftrightarrow>
     list_all (\<lambda>c. is_letter c \<or> is_digit c \<or> c \<in> set ''-._:~!$&()*+,;=%@'' \<union> {CHR 0x27}) s"

text \<open>The index of a zone separator \<open>%25\<close> splits the address from the zone.\<close>

fun cut_zone :: "gostring \<Rightarrow> gostring \<times> gostring" where
  "cut_zone [] = ([], [])"
| "cut_zone (c # s) =
     (if take 3 (c # s) = ''%25'' then ([], c # s)
      else (case cut_zone s of (a, b) \<Rightarrow> (c # a, b)))"

definition parse_bracketed :: "(gostring \<Rightarrow> bool) \<Rightarrow> gostring \<Rightarrow> gostring option" where
  "parse_bracketed ip6 host =
     (case cut_last host CHR '']'' of
        None \<Rightarrow> None
      | Some (front, colonPort) \<Rightarrow>
          if \<not> validOptionalPort colonPort then None
          else (case cut_zone (tl front) of (addr, zone) \<Rightarrow>
            (case (unescape addr encodeHost, unescape zone encodeZone, unescape colonPort encodeHost) of
               (Some a, Some z, Some p) \<Rightarrow>
                 if ip6 (a @ z) then Some (''['' @ a @ z @ '']'' @ p) else None
             | _ \<Rightarrow> None)))"

definition parseHost :: "(gostring \<Rightarrow> bool) \<Rightarrow> gostring \<Rightarrow> gostring option" where
  "parseHost ip6 host =
     (if CHR ''['' \<in> set host then
        if hd host = CHR ''['' \<and> CHR ''['' \<notin> set (tl host) then parse_bracketed ip6 host else None
      else
        (case strings_Cut host CHR '':'' of (_, port, found) \<Rightarrow>
           if found \<and> \<not> validOptionalPort ('':'' @ port) then None
           else unescape host encodeHost))"

definition parse_userinfo :: "gostring \<Rightarrow> Userinfo option" where
  "parse_userinfo userinfo =
     (if \<not> validUserinfo userinfo then None
      else
        (case strings_Cut userinfo CHR '':'' of (u, p, found) \<Rightarrow>
           if \<not> found then map_option User_only (unescape userinfo encodeUserPassword)
           else
             (case (unescape u encodeUserPassword, unescape p encodeUserPassword) of
                (Some u', Some p') \<Rightarrow> Some (UserPassword u' p')
              | _ \<Rightarrow> None)))"

definition parseAuthority :: "(gostring \<Rightarrow> bool) \<Rightarrow> gostring \<Rightarrow> (Userinfo option \<times> gostring) option" where
  "parseAuthority ip6 authority =
     (case cut_last authority CHR ''@'' of
        None \<Rightarrow> map_option (\<lambda>h. (None, h)) (parseHost ip6 authority)
      | Some (userinfo, h) \<Rightarrow>
          (case (parseHost ip6 h, parse_userinfo userinfo) of
             (Some h', Some u) \<Rightarrow> Some (Some u, h')
           | _ \<Rightarrow> None))"

definition setPath :: "gostring \<Rightarrow> URL \<Rightarrow> URL option" where
  "setPath p u = map_option (\<lambda>path. u\<lparr>Path := path, RawPath := (if p = escape path encodePath then '''' else p)\<rparr>)
     (unescape p encodePath)"

definition setFragment :: "gostring \<Rightarrow> URL \<Rightarrow> URL option" where
  "setFragment f u = map_option (\<lambda>frag. u\<lparr>Fragment := frag, RawFragment := (if f = escape frag encodeFragment then '''' else f)\<rparr>)
     (unescape f encodeFragment)"

text \<open>The part after the scheme and the query.\<close>

definition parse_rest :: "(gostring \<Rightarrow> bool) \<Rightarrow> URL \<Rightarrow> gostring \<Rightarrow> URL option" where
  "parse_rest ip6 u rest =
     (if \<not> strings_HasPrefix rest ''/'' \<and> Scheme u \<noteq> '''' then Some (u\<lparr>Opaque := rest\<rparr>)
      else if \<not> strings_HasPrefix rest ''/'' \<and> CHR '':'' \<in> set (fst (strings_Cut rest CHR ''/'')) then None
      else if (Scheme u \<noteq> '''' \<or> \<not> strings_HasPrefix rest ''///'') \<and> strings_HasPrefix rest ''//'' then
        (case strings_Cut (drop 2 rest) CHR ''/'' of (authority, tail, found) \<Rightarrow>
           (case parseAuthority ip6 authority of
              None \<Rightarrow> None
            | Some (user, host) \<Rightarrow>
                setPath (if found then ''/'' @ tail else '''') (u\<lparr>User := user, Host := host\<rparr>)))
      else setPath rest (u\<lparr>OmitHost := (Scheme u \<noteq> '''' \<and> strings_HasPrefix rest ''/'')\<rparr>))"

definition parse_url :: "(gostring \<Rightarrow> bool) \<Rightarrow> gostring \<Rightarrow> URL option" where
  "parse_url ip6 raw =
     (if containsCTLByte raw then None
      else if raw = ''*'' then Some (empty_URL\<lparr>Path := ''*''\<rparr>)
      else
        (case getScheme raw of
           None \<Rightarrow> None
         | Some (scheme, rest) \<Rightarrow>
             let u = empty_URL\<lparr>Scheme := strings_ToLower scheme\<rparr>;
                 (front, query, found) = strings_Cut rest CHR ''?''
             in if found \<and> query = '''' then parse_rest ip6 (u\<lparr>ForceQuery := True\<rparr>) front
                else parse_rest ip6 (u\<lparr>RawQuery := query\<rparr>) front))"

definition url_Parse :: "(gostring \<Rightarrow> bool) \<Rightarrow> gostring \<Rightarrow> URL option" where
  "url_Parse ip6 raw =
     (case strings_Cut raw CHR ''#'' of (u, frag, _) \<Rightarrow>
        (case parse_url ip6 u of
           None \<Rightarrow> None
         | Some url \<Rightarrow> if frag = '''' then Some url else setFragment frag url))"

subsection \<open>Printing\<close>

definition validEncoded :: "gostring \<Rightarrow> encoding \<Rightarrow> bool" where
  "validEncoded s mode \<longleftrightarrow>
     list_all (\<lambda>c. c \<in> set ''!$&()*+,;=:@[]%'' \<union> {CHR 0x27} \<or> \<not> shouldEscape c mode) s"

definition EscapedPath :: "URL \<Rightarrow> gostring" where
  "EscapedPath u =
     (if RawPath u \<noteq> '''' \<and> validEncoded (RawPath u) encodePath \<and>
         unescape (RawPath u) encodePath = Some (Path u) then RawPath u
      else if Path u = ''*'' then ''*''
      else escape (Path u) encodePath)"

definition EscapedFragment :: "URL \<Rightarrow> gostring" where
  "EscapedFragment u =
     (if RawFragment u \<noteq> '''' \<and> validEncoded (RawFragment u) encodeFragment \<and>
         unescape (RawFragment u) encodeFragment = Some (Fragment u) then RawFragment u
      else escape (Fragment u) encodeFragment)"

definition Userinfo_String :: "Userinfo \<Rightarrow> gostring" where
  "Userinfo_String ui = escape (username ui) encodeUserPassword @
     (if passwordSet ui then '':'' @ escape (password ui) encodeUserPassword else '''')"

definition url_authority :: "URL \<Rightarrow> gostring" where
  "url_authority u =
     (if Scheme u = '''' \<and> Host u = '''' \<and> User u = None then ''''
      else if OmitHost u \<and> Host u = '''' \<and> User u = None then ''''
      else
        (if Host u \<noteq> '''' \<or> Path u \<noteq> '''' \<or> User u \<noteq> None then ''//'' else '''') @
        (case User u of Some ui \<Rightarrow> Userinfo_String ui @ ''@'' | None \<Rightarrow> '''') @
        (if Host u \<noteq> '''' then escape (Host u) encodeHost else ''''))"

definition url_String :: "URL \<Rightarrow> gostring" where
  "url_String u =
     (let scheme = (if Scheme u \<noteq> '''' then Scheme u @ '':'' else '''');
          front = scheme @ url_authority u;
          path = EscapedPath u
      in (if Opaque u \<noteq> '''' then scheme @ Opaque u
          else front @
            (if path \<noteq> '''' \<and> hd path \<noteq> CHR ''/'' \<and> Host u \<noteq> '''' then ''/'' else '''') @
            (if front = '''' \<and> \<not> (path \<noteq> '''' \<and> hd path \<noteq> CHR ''/'' \<and> Host u \<noteq> '''') \<and>
                CHR '':'' \<in> set (fst (strings_Cut path CHR ''/'')) then ''./'' else '''') @ path) @
         (if ForceQuery u \<or> RawQuery u \<noteq> '''' then ''?'' @ RawQuery u else '''') @
         (if Fragment u \<noteq> '''' then ''#'' @ EscapedFragment u else ''''))"

section \<open>Round trips\<close>

lemma strings_Cut_found [simp]: "c \<notin> set a \<Longrightarrow> strings_Cut (a @ c # b) c = (a, b, True)"
  by (induction a) auto

lemma strings_Cut_absent [simp]: "c \<notin> set s \<Longrightarrow> strings_Cut s c = (s, [], False)"
  by (induction s) auto

lemma strings_Cut_split: "strings_Cut s c = (a, b, f) \<Longrightarrow>
    c \<notin> set a \<and> (if f then s = a @ c # b else s = a \<and> b = [])"
  by (induction s arbitrary: a b f) (auto split: prod.splits if_splits)

lemma cut_last_found [simp]: "c \<notin> set b \<Longrightarrow> cut_last (a @ c # b) c = Some (a, b)"
  by (simp add: cut_last_def)

lemma cut_last_absent [simp]: "c \<notin> set s \<Longrightarrow> cut_last s c = None"
  by (simp add: cut_last_def)

lemma upperhex_table:
  "list_all (\<lambda>n. ishex (upperhex n) \<and> unhex (upperhex n) = n \<and> (is_letter (upperhex n) \<or> is_digit (upperhex n))) [0..<16]"
  by (simp add: upt_rec upperhex_def ishex_def unhex_def is_letter_def is_digit_def between_def)

lemma upperhex_ok: "n < 16 \<Longrightarrow> ishex (upperhex n) \<and> unhex (upperhex n) = n"
  and upperhex_digit: "n < 16 \<Longrightarrow> is_letter (upperhex n) \<or> is_digit (upperhex n)"
  using upperhex_table by (simp_all add: list_all_iff)

text \<open>A mode whose escapes \<open>unescape\<close> accepts anywhere.\<close>

definition free_mode :: "encoding \<Rightarrow> bool" where
  "free_mode mode \<longleftrightarrow> mode \<noteq> encodeHost \<and> mode \<noteq> encodeZone"

lemma shouldEscape_percent [simp]: "free_mode mode \<Longrightarrow> shouldEscape CHR ''%'' mode"
  by (cases mode) (simp_all add: free_mode_def shouldEscape_def is_letter_def is_digit_def between_def)

lemma hex_value: "of_char c div 16 * 16 + of_char c mod 16 = (of_char c :: nat)"
  by (rule div_mult_mod_eq)

lemma of_char_div_16: "(of_char c :: nat) div 16 < 16"
  using nat_of_char_less_256 [of c] by (simp add: less_mult_imp_div_less)

lemma unescape_escape_char:
  assumes "free_mode mode"
  shows "unescape (escape_char mode c @ s) mode = map_option ((#) c) (unescape s mode)"
proof (cases "shouldEscape c mode")
  case True
  let ?a = "upperhex (of_char c div 16)" and ?b = "upperhex (of_char c mod 16)"
  have h: "ishex ?a" "unhex ?a = of_char c div 16" "ishex ?b" "unhex ?b = of_char c mod 16"
    using upperhex_ok [of "of_char c div 16"] upperhex_ok [of "of_char c mod 16"] of_char_div_16 [of c] by simp_all
  have "escape_ok mode ?a ?b" using assms h by (auto simp: escape_ok_def free_mode_def)
  moreover have "char_of (unhex ?a * 16 + unhex ?b) = c" unfolding h hex_value by simp
  ultimately show ?thesis using True by (simp add: escape_char_def)
next
  case False
  then have "c \<noteq> CHR ''%''" using assms shouldEscape_percent by blast
  then show ?thesis using False assms by (auto simp: escape_char_def plain_ok_def free_mode_def)
qed

lemma unescape_escape: "free_mode mode \<Longrightarrow> unescape (escape s mode) mode = Some s"
  by (induction s) (simp_all add: escape_def unescape_escape_char)

text \<open>The bytes of an escaped string.\<close>

lemma escape_set:
  assumes "c \<in> set (escape s mode)"
  shows "c = CHR ''%'' \<or> is_letter c \<or> is_digit c \<or> \<not> shouldEscape c mode"
proof -
  obtain x where "c \<in> set (escape_char mode x)" using assms by (auto simp: escape_def)
  then show ?thesis
    using upperhex_digit [of "of_char x div 16"] upperhex_digit [of "of_char x mod 16"] of_char_div_16 [of x]
    by (auto simp: escape_char_def split: if_splits)
qed

definition plain_byte :: "char \<Rightarrow> bool" where
  "plain_byte c \<longleftrightarrow> (32::nat) \<le> of_char c \<and> (of_char c :: nat) \<noteq> 127 \<and> c \<noteq> CHR ''?'' \<and> c \<noteq> CHR ''#''"

definition user_byte :: "char \<Rightarrow> bool" where
  "user_byte c \<longleftrightarrow> is_letter c \<or> is_digit c \<or> c \<in> set ''-_.~$&+,;=%''"

lemma user_byte_escape: "c \<in> set (escape s encodeUserPassword) \<Longrightarrow> user_byte c"
  by (drule escape_set) (auto simp: user_byte_def shouldEscape_def split: if_splits)

lemma user_byte_plain: "user_byte c \<Longrightarrow> plain_byte c \<and> c \<notin> set ''/:@[''"
  by (auto simp: user_byte_def plain_byte_def is_letter_def is_digit_def between_def)

lemma letter_plain: "is_letter c \<or> is_digit c \<Longrightarrow> plain_byte c \<and> c \<notin> set ''/:@[%''"
  by (auto simp: plain_byte_def is_letter_def is_digit_def between_def)

lemma colon_plain: "\<not> is_letter CHR '':''" "\<not> is_digit CHR '':''"
  by (simp_all add: is_letter_def is_digit_def between_def)

lemma special_escaped:
  assumes "\<not> plain_byte c"
  shows "shouldEscape c encodePath"
proof -
  have "\<not> is_letter c \<and> \<not> is_digit c" using assms letter_plain by blast
  moreover have "c \<notin> set ''-_.~''" using assms by (auto simp: plain_byte_def)
  moreover have "c \<in> set ''$&+,/:;=?@'' \<Longrightarrow> c = CHR ''?''" using assms by (auto simp: plain_byte_def)
  ultimately show ?thesis unfolding shouldEscape_def by (simp del: set_simps list.set)
qed

lemma path_byte_escape:
  assumes "c \<in> set (escape s encodePath)"
  shows "plain_byte c"
proof -
  have "plain_byte CHR ''%''" by (simp add: plain_byte_def)
  with escape_set [OF assms] letter_plain special_escaped show ?thesis by blast
qed

subsection \<open>Plain hosts\<close>

definition host_byte :: "char \<Rightarrow> bool" where
  "host_byte c \<longleftrightarrow> is_letter c \<or> is_digit c \<or> c \<in> set ''.-''"

text \<open>A name of letters, digits, dots and dashes, with a decimal port or none.\<close>

definition plain_host :: "gostring \<Rightarrow> bool" where
  "plain_host h \<longleftrightarrow> (case strings_Cut h CHR '':'' of (n, p, f) \<Rightarrow>
     n \<noteq> '''' \<and> list_all host_byte n \<and> list_all is_digit p)"

lemma host_byte_plain:
  assumes "host_byte c \<or> c = CHR '':''"
  shows "plain_byte c \<and> c \<notin> set ''/@[%'' \<and> \<not> shouldEscape c encodeHost"
proof (cases "is_letter c \<or> is_digit c")
  case True
  then show ?thesis using letter_plain [of c] by (auto simp: shouldEscape_def)
next
  case False
  then have "c = CHR ''.'' \<or> c = CHR ''-'' \<or> c = CHR '':''" using assms by (auto simp: host_byte_def)
  then show ?thesis by (elim disjE) (simp_all add: plain_byte_def shouldEscape_def)
qed

lemma plain_host_bytes:
  assumes "plain_host h" "c \<in> set h"
  shows "host_byte c \<or> c = CHR '':''"
proof -
  obtain n p f where cut: "strings_Cut h CHR '':'' = (n, p, f)" by (metis prod_cases3)
  then have "set h \<subseteq> set n \<union> {CHR '':''} \<union> set p" using strings_Cut_split [OF cut] by (auto split: if_splits)
  with assms cut show ?thesis by (auto simp: plain_host_def list_all_iff host_byte_def)
qed

lemma unescape_plain: "\<forall>c \<in> set s. c \<noteq> CHR ''%'' \<and> plain_ok mode c \<Longrightarrow> unescape s mode = Some s"
  by (induction s) auto

lemma escape_plain: "\<forall>c \<in> set s. \<not> shouldEscape c mode \<Longrightarrow> escape s mode = s"
  by (induction s) (auto simp: escape_def escape_char_def)

lemma parseHost_plain:
  assumes "plain_host h"
  shows "parseHost ip6 h = Some h" "escape h encodeHost = h" "h \<noteq> ''''"
proof -
  have b: "plain_byte c \<and> c \<notin> set ''/@[%'' \<and> \<not> shouldEscape c encodeHost" if "c \<in> set h" for c
    using plain_host_bytes [OF assms that] by (rule host_byte_plain)
  obtain n p f where cut: "strings_Cut h CHR '':'' = (n, p, f)" by (metis prod_cases3)
  have "validOptionalPort ('':'' @ p)" using assms cut by (simp add: plain_host_def validOptionalPort_def)
  moreover have "unescape h encodeHost = Some h" using b by (intro unescape_plain) (auto simp: plain_ok_def)
  ultimately show "parseHost ip6 h = Some h" using b cut by (auto simp: parseHost_def)
  show "escape h encodeHost = h" using b by (intro escape_plain) blast
  show "h \<noteq> ''''" using assms by (auto simp: plain_host_def)
qed

subsection \<open>Parsing a printed URL\<close>

lemma scan_scheme_letters:
  "list_all is_letter s \<Longrightarrow> seen @ s \<noteq> '''' \<Longrightarrow> scan_scheme raw seen (s @ CHR '':'' # t) = Some (seen @ s, t)"
  by (induction s arbitrary: seen) (simp_all add: colon_plain)

text \<open>A scheme of lower-case letters.\<close>

definition plain_scheme :: "gostring \<Rightarrow> bool" where
  "plain_scheme s \<longleftrightarrow> s \<noteq> '''' \<and> list_all is_letter s \<and> strings_ToLower s = s"

lemma plain_bytes_url:
  assumes "list_all plain_byte s"
  shows "\<not> containsCTLByte s" "CHR ''?'' \<notin> set s" "CHR ''#'' \<notin> set s"
  using assms unfolding containsCTLByte_def list_all_iff plain_byte_def
  by (meson linorder_not_le, blast, blast)

lemma url_Parse_plain:
  assumes s: "plain_scheme s" and b: "list_all plain_byte (auth @ path)"
    and a: "CHR ''/'' \<notin> set auth" and p: "path = '''' \<or> (\<exists>t. path = CHR ''/'' # t)"
  shows "url_Parse ip6 (s @ ''://'' @ auth @ path) =
    (case parseAuthority ip6 auth of
       None \<Rightarrow> None
     | Some (user, host) \<Rightarrow> setPath path (empty_URL\<lparr>Scheme := s, User := user, Host := host\<rparr>))"
proof -
  have "list_all plain_byte s"
    using s letter_plain by (auto simp: plain_scheme_def list_all_iff)
  then have w: "list_all plain_byte (s @ ''://'' @ auth @ path)" using b by (simp add: plain_byte_def)
  have "getScheme (s @ ''://'' @ auth @ path) = Some (s, ''//'' @ auth @ path)"
    using s scan_scheme_letters [of s "''''" _ "''//'' @ auth @ path"] by (simp add: getScheme_def plain_scheme_def)
  moreover have "s @ ''://'' @ auth @ path \<noteq> ''*''" using s by (cases s) (auto simp: plain_scheme_def)
  moreover have "CHR ''?'' \<notin> set (''//'' @ auth @ path)" using plain_bytes_url [OF w] by auto
  moreover have "strings_Cut (auth @ path) CHR ''/'' = (auth, drop 1 path, path \<noteq> '''')" using a p by auto
  ultimately show ?thesis
    using s p plain_bytes_url [OF w]
    by (auto simp: url_Parse_def parse_url_def parse_rest_def plain_scheme_def strings_HasPrefix_def Let_def
        empty_URL_def split: option.split)
qed

lemma plain_host_excludes:
  assumes "plain_host h"
  shows "CHR ''/'' \<notin> set h" "CHR ''@'' \<notin> set h" "list_all plain_byte h"
proof -
  have b: "c \<in> set h \<Longrightarrow> plain_byte c \<and> c \<notin> set ''/@[%''" for c
    using plain_host_bytes [OF assms, of c] host_byte_plain [of c] by blast
  show "CHR ''/'' \<notin> set h" using b [of "CHR ''/''"] by auto
  show "CHR ''@'' \<notin> set h" using b [of "CHR ''@''"] by auto
  show "list_all plain_byte h" using b unfolding list_all_iff by blast
qed

lemma parseAuthority_host: "plain_host h \<Longrightarrow> parseAuthority ip6 h = Some (None, h)"
  by (simp add: parseAuthority_def plain_host_excludes parseHost_plain)

lemma Userinfo_String_bytes:
  assumes "c \<in> set (Userinfo_String (UserPassword u p))"
  shows "user_byte c \<or> c = CHR '':''"
  using assms user_byte_escape [of c u] user_byte_escape [of c p] by (auto simp: Userinfo_String_def UserPassword_def)

lemma user_byte_valid: "user_byte c \<or> c = CHR '':'' \<Longrightarrow> validUserinfo [c]"
  by (auto simp: user_byte_def validUserinfo_def)

lemma validUserinfo_each: "(\<And>c. c \<in> set s \<Longrightarrow> validUserinfo [c]) \<Longrightarrow> validUserinfo s"
  by (induction s) (simp_all add: validUserinfo_def)

lemma parse_userinfo_printed: "parse_userinfo (Userinfo_String (UserPassword u p)) = Some (UserPassword u p)"
proof -
  have "validUserinfo (Userinfo_String (UserPassword u p))"
    by (rule validUserinfo_each) (rule Userinfo_String_bytes [THEN user_byte_valid])
  moreover have "\<not> user_byte CHR '':''" by (simp add: user_byte_def colon_plain)
  then have "CHR '':'' \<notin> set (escape u encodeUserPassword)" using user_byte_escape by metis
  ultimately show ?thesis
    by (simp add: parse_userinfo_def Userinfo_String_def UserPassword_def unescape_escape free_mode_def)
qed

lemma parseAuthority_printed:
  "plain_host h \<Longrightarrow>
     parseAuthority ip6 (Userinfo_String (UserPassword u p) @ CHR ''@'' # h) = Some (Some (UserPassword u p), h)"
  by (simp add: parseAuthority_def plain_host_excludes parseHost_plain parse_userinfo_printed)

lemma setPath_escaped: "setPath (escape p encodePath) u = Some (u\<lparr>Path := p, RawPath := ''''\<rparr>)"
  by (simp add: setPath_def unescape_escape free_mode_def)

lemma escape_Nil [simp]: "escape [] mode = []"
  by (simp add: escape_def)

lemma slash_unescaped [simp]: "escape (CHR ''/'' # v) encodePath = CHR ''/'' # escape v encodePath"
  by (simp add: escape_def escape_char_def shouldEscape_def)

text \<open>The two URLs of \<open>buildDialURL\<close>: the configured one, and the one it dials.\<close>

lemma url_Parse_configured:
  assumes "plain_scheme s" "plain_host h" "path = '''' \<or> path = ''/''"
  shows "url_Parse ip6 (s @ ''://'' @ h @ path) = Some (empty_URL\<lparr>Scheme := s, Host := h, Path := path\<rparr>)"
proof -
  have "setPath path u = Some (u\<lparr>Path := path, RawPath := ''''\<rparr>)" for u :: URL
    using assms(3) setPath_escaped [of path u] by auto
  moreover have "list_all plain_byte (h @ path)" "path = '''' \<or> (\<exists>t. path = CHR ''/'' # t)"
    using plain_host_excludes [OF assms(2)] assms(3) by (auto simp: plain_byte_def)
  ultimately show ?thesis
    using url_Parse_plain [OF assms(1), of h path] plain_host_excludes [OF assms(2)] parseAuthority_host [OF assms(2)]
    by (simp add: empty_URL_def)
qed

lemma url_Parse_printed:
  assumes "plain_scheme s" "plain_host h"
  shows "url_Parse ip6 (s @ ''://'' @ Userinfo_String (UserPassword u p) @ CHR ''@'' # h @ CHR ''/'' # escape v encodePath) =
    Some (empty_URL\<lparr>Scheme := s, User := Some (UserPassword u p), Host := h, Path := CHR ''/'' # v\<rparr>)"
proof -
  let ?ui = "Userinfo_String (UserPassword u p)"
  let ?path = "CHR ''/'' # escape v encodePath"
  have ui: "plain_byte c \<and> c \<noteq> CHR ''/''" if "c \<in> set ?ui" for c
    using Userinfo_String_bytes [OF that] user_byte_plain [of c] by (auto simp: plain_byte_def)
  have "list_all plain_byte ?ui" "CHR ''/'' \<notin> set ?ui" using ui unfolding list_all_iff by blast+
  moreover have "list_all plain_byte ?path"
    using path_byte_escape by (simp add: plain_byte_def list_all_iff)
  ultimately have "list_all plain_byte ((?ui @ CHR ''@'' # h) @ ?path)" "CHR ''/'' \<notin> set (?ui @ CHR ''@'' # h)"
    using plain_host_excludes [OF assms(2)] by (simp_all add: plain_byte_def)
  from url_Parse_plain [OF assms(1) this] show ?thesis
    using parseAuthority_printed [OF assms(2)] setPath_escaped [of "CHR ''/'' # v"] by (simp add: empty_URL_def)
qed

lemma url_String_configured:
  assumes "plain_scheme s" "plain_host h"
  shows "url_String (empty_URL\<lparr>Scheme := s, User := Some (UserPassword u p), Host := h, Path := CHR ''/'' # v\<rparr>) =
    s @ ''://'' @ Userinfo_String (UserPassword u p) @ CHR ''@'' # h @ CHR ''/'' # escape v encodePath"
proof -
  have "s \<noteq> ''''" "h \<noteq> ''''" using assms by (auto simp: plain_scheme_def plain_host_def)
  then show ?thesis
    using parseHost_plain [OF assms(2)]
    by (simp add: url_String_def url_authority_def EscapedPath_def empty_URL_def Let_def)
qed

end
