(* ===== verification/World.thy ===== *)
theory World
  imports Config Retry Metrics Pool Health ConnManager NetURL
begin

text \<open>
  The state of a \<open>RabbitMQClient\<close> (\<open>client.go\<close>) and its surroundings.

  Everything outside the package that the client calls is an \<open>event\<close>: a method of the AMQP
  library \<open>amqp091-go\<close>, of the plugin runtime, or the user's message handler.  The state
  keeps the history of these calls with their replies, latest first.  What the outside
  does is the record \<open>env\<close>, an argument of every method: the replies are arbitrary functions
  of the history, so every behaviour of a broker and of a runtime is some \<open>env\<close>.

  A connection or channel is named by the position of the call that opened it in the
  history, so a new one is never confused with an old one.

  Calls of the log package have no effect on the state and are left out.  A method of the
  client is one step of a caller that runs alone; the mutexes are therefore left out too.
  The goroutines of the subscriptions are the list \<open>dispatchers\<close>, whose length is the counter
  of \<open>subscriptionWG\<close>; those of the managers are in their records.
\<close>

section \<open>The outside\<close>

datatype "context" = Background | Ctx nat

type_synonym conn = nat
type_synonym channel = nat
type_synonym handler = nat

text \<open>
  \<open>amqp.Publishing\<close> and \<open>amqp.Delivery\<close>: the fields the client sets or uses; the others are
  one opaque value, which it only passes on.
\<close>

record Publishing =
  ContentType :: gostring
  DeliveryMode :: nat
  Timestamp :: gotime
  Body :: gostring
  pub_other :: nat

record Delivery =
  DeliveryTag :: "64 word"
  d_other :: nat

text \<open>\<open>amqp.Config\<close>, as \<open>dial\<close> fills it; \<open>dc_tls\<close> says whether \<open>TLSClientConfig\<close> is set.\<close>

record dial_config =
  dc_Vhost :: gostring
  dc_Heartbeat :: duration
  dc_Locale :: gostring
  dc_DialTimeout :: duration
  dc_tls :: bool

text \<open>Values handed to the plugin runtime; pointers are named by what they point to.\<close>

datatype resource =
    ResBool bool | ResClient | ResConfig RabbitMQ | ResConnection conn
  | ResProducers "channel option gomap" | ResConsumers "channel option gomap"
  | ResConnectionManager | ResHealthChecker | ResRetryHandler | ResMetrics

datatype event =
    Dial gostring dial_config
  | NotifyClose conn
  | CloseConnection conn
  | OpenChannel conn
  | CloseChannel channel
  | ExchangeDeclare channel gostring gostring bool bool bool bool
  | Confirm channel bool
  | Qos channel int int bool
  | QueueDeclare channel gostring bool bool bool bool "(gostring \<times> gostring) list option"
  | Consume channel "context" gostring gostring bool bool bool bool
  | PublishWithContext channel "context" gostring gostring bool bool Publishing
  | Ack Delivery bool
  | Nack Delivery bool bool
  | CallHandler handler "context" Delivery
  | RegisterSharedResource gostring resource
  | RegisterPrivateResource gostring resource
  | BaseInitializeResources
  | BaseInitialize
  | ScanConfig gostring

type_synonym history = "(event \<times> goerror option) list"

text \<open>How a call of the user's handler ends.\<close>

datatype handler_end = HandlerReturns "goerror option" | HandlerPanics gostring

text \<open>
  \<open>reply\<close> is the text of the error a call returns, an error made outside the package; \<open>is_closed\<close> is \<open>conn.IsClosed()\<close>; \<open>ctx_err\<close> is \<open>ctx.Err()\<close>
  of a context other than \<open>Background\<close>; \<open>now\<close> is \<open>time.Now()\<close>, numbered since the last
  outside call, and \<open>since\<close> is \<open>time.Since(start)\<close>; \<open>map_rank\<close> gives the order in which a \<open>range\<close> over a map visits its
  keys; \<open>stack\<close> is \<open>debug.Stack()\<close>; \<open>inflight\<close> are the deliveries a dispatch goroutine takes
  before it sees that it must stop; \<open>has_config\<close> is \<open>rt.GetConfig() != nil\<close>, \<open>scanned\<close> the
  configuration after a \<open>Scan\<close> into the given one and \<open>not_found\<close> the test
  \<open>errors.Is(err, kratosconfig.ErrNotFound)\<close>.
\<close>

record env =
  dpb :: durationpb
  ip6 :: "gostring \<Rightarrow> bool"
  reply :: "history \<Rightarrow> event \<Rightarrow> gostring option"
  is_closed :: "history \<Rightarrow> conn \<Rightarrow> bool"
  ctx_err :: "history \<Rightarrow> nat \<Rightarrow> goerror option"
  now :: "history \<Rightarrow> nat \<Rightarrow> gotime"
  since :: "history \<Rightarrow> gotime \<Rightarrow> duration"
  map_rank :: "history \<Rightarrow> gostring \<Rightarrow> nat"
  handler_end :: "history \<Rightarrow> handler \<Rightarrow> Delivery \<Rightarrow> handler_end"
  stack :: "history \<Rightarrow> gostring"
  inflight :: "history \<Rightarrow> channel \<Rightarrow> Delivery list"
  has_config :: "history \<Rightarrow> bool"
  scanned :: "history \<Rightarrow> RabbitMQ \<Rightarrow> RabbitMQ"
  not_found :: "goerror \<Rightarrow> bool"

section \<open>The client\<close>

record subscription =
  s_consumerName :: gostring
  s_queue :: gostring
  s_handler :: handler

text \<open>A dispatch goroutine: its context, channel, handler and the value of \<open>autoAck\<close>.\<close>

record dispatcher =
  d_ctx :: "context"
  d_channel :: channel
  d_handler :: handler
  d_autoAck :: bool

record RabbitMQClient =
  config :: RabbitMQ
  rt :: "nat option"
  connection :: "conn option"
  producers :: "channel option gomap"
  consumers :: "channel option gomap"
  closeChanClosed :: bool
  closeOnceDone :: bool
  closed_flag :: bool
  metrics :: "Metrics option"
  healthChecker :: "HealthChecker option"
  connectionManager :: "ConnectionManager option"
  retryHandler :: "RetryHandler option"
  goroutinePool :: "GoroutinePool option"
  dispatchers :: "dispatcher list"
  subscriptions :: "subscription list"
  history :: history

type_synonym 'a client = "(RabbitMQClient, 'a) state"

text \<open>The fields \<open>NewRabbitMQClient\<close> sets; the base plugin is outside the package.\<close>

definition NewRabbitMQClient :: "env \<Rightarrow> RabbitMQClient" where
  "NewRabbitMQClient E = \<lparr>config = defaultRabbitMQConfig (dpb E), rt = None, connection = None,
     producers = [], consumers = [], closeChanClosed = False, closeOnceDone = False,
     closed_flag = False, metrics = Some zero_Metrics, healthChecker = None,
     connectionManager = None, retryHandler = None, goroutinePool = None,
     dispatchers = [], subscriptions = [], history = []\<rparr>"

section \<open>Program constructs\<close>

text \<open>A call to the outside: its reply is recorded with it.\<close>

definition call :: "env \<Rightarrow> event \<Rightarrow> goerror option client" where
  "call E e = do {
     h \<leftarrow> gets history;
     State_Monad.update (\<lambda>s. s\<lparr>history := (e, map_option External (reply E h e)) # h\<rparr>);
     State_Monad.return (map_option External (reply E h e))
   }"

text \<open>A call whose error the code ignores or only logs.\<close>

definition call_ignoring :: "env \<Rightarrow> event \<Rightarrow> unit client" where
  "call_ignoring E e = do { _ \<leftarrow> call E e; State_Monad.return () }"

text \<open>
  \<open>err.Error()\<close> of an error that a call to the outside returned; such an error is an
  \<open>External\<close>, whose \<open>Error\<close> method does not panic.
\<close>

definition err_Error :: "goerror \<Rightarrow> gostring" where
  "err_Error e = (case ErrorText e of Some t \<Rightarrow> t | None \<Rightarrow> '''')"

text \<open>The name a connection or channel opened by the next call will have.\<close>

definition fresh :: "nat client" where
  "fresh = gets (\<lambda>s. length (history s))"

definition ctxErr :: "env \<Rightarrow> context \<Rightarrow> goerror option client" where
  "ctxErr E ctx = (case ctx of Background \<Rightarrow> State_Monad.return None | Ctx n \<Rightarrow> gets (\<lambda>s. ctx_err E (history s) n))"

text \<open>\<open>if err := m; err != nil { h err } else { k }\<close>.\<close>

definition on_err :: "goerror option client \<Rightarrow> (goerror \<Rightarrow> 'a client) \<Rightarrow> 'a client \<Rightarrow> 'a client" where
  "on_err m h k = do { r \<leftarrow> m; (case r of Some e \<Rightarrow> h e | None \<Rightarrow> k) }"

text \<open>The same for a call that may panic; a panic ends the caller too.\<close>

definition on_err_panic ::
  "goerror option outcome client \<Rightarrow> (goerror \<Rightarrow> 'a outcome client) \<Rightarrow> 'a outcome client \<Rightarrow> 'a outcome client" where
  "on_err_panic m h k = do {
     r \<leftarrow> m;
     (case r of Panics \<Rightarrow> State_Monad.return Panics | Returns e \<Rightarrow> (case e of Some e \<Rightarrow> h e | None \<Rightarrow> k))
   }"

definition returns :: "'a \<Rightarrow> 'a outcome client" where
  "returns a = State_Monad.return (Returns a)"

definition fails :: "goerror \<Rightarrow> goerror option outcome client" where
  "fails e = returns (Some e)"

text \<open>The entries of a map in the order a \<open>range\<close> visits them.\<close>

definition map_range :: "env \<Rightarrow> history \<Rightarrow> 'v gomap \<Rightarrow> (gostring \<times> 'v) list" where
  "map_range E h m = sort_key (\<lambda>p. map_rank E h (fst p)) m"

section \<open>Reading a history\<close>

text \<open>Channels the client opened and has not closed yet.\<close>

fun unclosed :: "history \<Rightarrow> channel list" where
  "unclosed [] = []"
| "unclosed ((OpenChannel c, None) # h) = length h # unclosed h"
| "unclosed ((CloseChannel ch, r) # h) = filter (\<lambda>x. x \<noteq> ch) (unclosed h)"
| "unclosed (_ # h) = unclosed h"

text \<open>The connection on which a channel was opened.\<close>

fun conn_of :: "history \<Rightarrow> channel \<Rightarrow> conn option" where
  "conn_of [] ch = None"
| "conn_of ((OpenChannel c, r) # h) ch = (if r = None \<and> ch = length h then Some c else conn_of h ch)"
| "conn_of (_ # h) ch = conn_of h ch"

text \<open>The last value handed to the runtime under a shared name.\<close>

fun last_shared :: "gostring \<Rightarrow> history \<Rightarrow> resource option" where
  "last_shared n [] = None"
| "last_shared n ((RegisterSharedResource m v, r) # h) = (if n = m then Some v else last_shared n h)"
| "last_shared n (_ # h) = last_shared n h"

text \<open>How often a channel was closed.\<close>

definition closes :: "channel \<Rightarrow> history \<Rightarrow> nat" where
  "closes ch h = length (filter (\<lambda>(e, r). e = CloseChannel ch) h)"

fun to_broker :: "event \<Rightarrow> bool" where
  "to_broker (RegisterSharedResource _ _) = False"
| "to_broker (RegisterPrivateResource _ _) = False"
| "to_broker (CallHandler _ _ _) = False"
| "to_broker BaseInitializeResources = False"
| "to_broker BaseInitialize = False"
| "to_broker (ScanConfig _) = False"
| "to_broker _ = True"

text \<open>Connections the client opened and has not closed.\<close>

fun live :: "history \<Rightarrow> conn list" where
  "live [] = []"
| "live ((Dial u cfg, None) # h) = length h # live h"
| "live ((CloseConnection c, None) # h) = filter (\<lambda>x. x \<noteq> c) (live h)"
| "live (_ # h) = live h"

text \<open>The channel and the connection a call is made on.\<close>

fun channel_used :: "event \<Rightarrow> channel option" where
  "channel_used (CloseChannel ch) = Some ch"
| "channel_used (ExchangeDeclare ch _ _ _ _ _ _) = Some ch"
| "channel_used (Confirm ch _) = Some ch"
| "channel_used (Qos ch _ _ _) = Some ch"
| "channel_used (QueueDeclare ch _ _ _ _ _ _) = Some ch"
| "channel_used (Consume ch _ _ _ _ _ _ _) = Some ch"
| "channel_used (PublishWithContext ch _ _ _ _ _ _) = Some ch"
| "channel_used _ = None"

fun connection_used :: "event \<Rightarrow> conn option" where
  "connection_used (NotifyClose c) = Some c"
| "connection_used (CloseConnection c) = Some c"
| "connection_used (OpenChannel c) = Some c"
| "connection_used _ = None"

text \<open>No call is made on a channel or connection that is not open: none is used after, or closed twice.\<close>

definition allowed :: "history \<Rightarrow> event \<Rightarrow> bool" where
  "allowed h e \<longleftrightarrow> (case channel_used e of Some ch \<Rightarrow> ch \<in> set (unclosed h) | None \<Rightarrow> True) \<and>
     (case connection_used e of Some c \<Rightarrow> c \<in> set (live h) | None \<Rightarrow> True)"

fun orderly :: "history \<Rightarrow> bool" where
  "orderly [] \<longleftrightarrow> True"
| "orderly ((e, r) # h) \<longleftrightarrow> allowed h e \<and> orderly h"

section \<open>Lemmas\<close>

lemma wp_call [wp_simps]:
  "wp (call E e) Q s =
     Q (map_option External (reply E (history s) e))
       (s\<lparr>history := (e, map_option External (reply E (history s) e)) # history s\<rparr>)"
  by (simp add: call_def wp_simps)

lemma wp_call_ignoring [wp_simps]:
  "wp (call_ignoring E e) Q s = Q () (s\<lparr>history := (e, map_option External (reply E (history s) e)) # history s\<rparr>)"
  by (simp add: call_ignoring_def wp_simps)

lemma wp_fresh [wp_simps]: "wp fresh Q s = Q (length (history s)) s"
  by (simp add: fresh_def wp_simps)

lemma wp_on_err [wp_simps]:
  "wp (on_err m h k) Q s = wp m (\<lambda>r t. case r of Some e \<Rightarrow> wp (h e) Q t | None \<Rightarrow> wp k Q t) s"
  by (simp add: on_err_def wp_def split: option.splits prod.splits)

lemma wp_on_err_panic [wp_simps]:
  "wp (on_err_panic m h k) Q s =
     wp m (\<lambda>r t. case r of Panics \<Rightarrow> Q Panics t
       | Returns e \<Rightarrow> (case e of Some e \<Rightarrow> wp (h e) Q t | None \<Rightarrow> wp k Q t)) s"
  by (simp add: on_err_panic_def wp_def split: option.splits outcome.splits prod.splits)

lemma wp_returns [wp_simps]: "wp (returns a) Q s = Q (Returns a) s"
  by (simp add: returns_def wp_simps)

lemma wp_fails [wp_simps]: "wp (fails e) Q s = Q (Returns (Some e)) s"
  by (simp add: fails_def wp_simps)

lemma wp_case_context [wp_simps]:
  "wp (ctxErr E ctx) Q s =
     Q (case ctx of Background \<Rightarrow> None | Ctx n \<Rightarrow> ctx_err E (history s) n) s"
  by (cases ctx) (simp_all add: ctxErr_def wp_simps)

lemma unclosed_bound: "ch \<in> set (unclosed h) \<Longrightarrow> ch < length h"
  by (induction h rule: unclosed.induct) auto

lemma unclosed_distinct: "distinct (unclosed h)"
  by (induction h rule: unclosed.induct) (auto dest: unclosed_bound)

lemma unclosed_fresh [simp]: "length h \<notin> set (unclosed h)"
  using unclosed_bound by blast

lemma live_bound: "c \<in> set (live h) \<Longrightarrow> c < length h"
  by (induction h rule: live.induct) auto

lemma filter_fresh [simp]: "filter (\<lambda>x. x \<noteq> length h) (unclosed h) = unclosed h"
  by (rule filter_True) (auto dest: unclosed_bound)

lemma set_map_range [simp]: "set (map_range E h m) = set m"
  by (simp add: map_range_def)

lemma length_map_range [simp]: "length (map_range E h m) = length m"
  by (simp add: map_range_def)

subsection \<open>Growing histories\<close>

lemma conn_of_old: "ch < length h \<Longrightarrow> conn_of (evs @ h) ch = conn_of h ch"
proof (induction evs)
  case (Cons x evs)
  obtain e r where x: "x = (e, r)" by (cases x)
  with Cons show ?case by (cases e; simp)
qed simp

lemma last_shared_broker:
  "\<forall>x \<in> set evs. to_broker (fst x) \<Longrightarrow> last_shared n (evs @ h) = last_shared n h"
proof (induction evs)
  case (Cons x evs)
  obtain e r where x: "x = (e, r)" by (cases x)
  with Cons show ?case by (cases e; simp)
qed simp

text \<open>
  The history grew by calls to the broker, none on a closed channel or connection, and no
  connection was opened or closed.
\<close>

definition broker_calls :: "history \<Rightarrow> history \<Rightarrow> bool" where
  "broker_calls h h' \<longleftrightarrow> (\<exists>evs. h' = evs @ h \<and> (\<forall>x \<in> set evs. to_broker (fst x))) \<and>
     (orderly h \<longrightarrow> orderly h') \<and> live h' = live h"

lemma broker_calls_refl [simp]: "broker_calls h h"
  by (simp add: broker_calls_def)

lemma broker_calls_Cons [simp]:
  assumes "broker_calls h h'" "to_broker e" "allowed h' e" "live ((e, r) # h') = live h'"
  shows "broker_calls h ((e, r) # h')"
proof -
  obtain evs where "h' = evs @ h" "\<forall>x \<in> set evs. to_broker (fst x)"
    using assms(1) by (auto simp: broker_calls_def)
  then have "(e, r) # h' = ((e, r) # evs) @ h \<and> (\<forall>x \<in> set ((e, r) # evs). to_broker (fst x))"
    using assms(2) by simp
  then show ?thesis
    using assms(1,3,4) unfolding broker_calls_def by auto
qed

lemma broker_calls_trans:
  assumes "broker_calls h h'" "broker_calls h' h''"
  shows "broker_calls h h''"
proof -
  obtain a b where "h' = a @ h" "\<forall>x \<in> set a. to_broker (fst x)" "h'' = b @ h'" "\<forall>x \<in> set b. to_broker (fst x)"
    using assms by (auto simp: broker_calls_def)
  then have "h'' = (b @ a) @ h \<and> (\<forall>x \<in> set (b @ a). to_broker (fst x))" by auto
  then show ?thesis using assms unfolding broker_calls_def by metis
qed

lemma broker_calls_live: "broker_calls h h' \<Longrightarrow> live h' = live h"
  by (simp add: broker_calls_def)

lemma broker_calls_shared: "broker_calls h h' \<Longrightarrow> last_shared n h' = last_shared n h"
  by (auto simp: broker_calls_def last_shared_broker)

lemma broker_calls_conn: "broker_calls h h' \<Longrightarrow> ch < length h \<Longrightarrow> conn_of h' ch = conn_of h ch"
  by (auto simp: broker_calls_def conn_of_old)

lemma broker_calls_length: "broker_calls h h' \<Longrightarrow> length h \<le> length h'"
  by (auto simp: broker_calls_def)

text \<open>The channels registered in a map.\<close>

definition chans :: "channel option gomap \<Rightarrow> channel list" where
  "chans m = List.map_filter snd m"

lemma chans_Nil [simp]: "chans [] = []"
  by (simp add: chans_def map_filter_simps)

lemma chans_update: "n \<notin> fst ` set m \<Longrightarrow> chans (AList.update n (Some ch) m) = chans m @ [ch]"
  by (induction m) (auto simp: chans_def map_filter_simps split: option.splits)

lemma chans_update_subset: "mset (chans (AList.update n (Some ch) m)) \<subseteq># add_mset ch (mset (chans m))"
  by (induction m) (auto simp: chans_def map_filter_simps add_mset_commute split: option.splits)

lemma update_some_nil: "None \<in> snd ` set (AList.update n (Some ch) m) \<Longrightarrow> None \<in> snd ` set m"
  by (induction m) (auto split: if_splits)

section \<open>An instance of the outside\<close>

text \<open>
  A broker and runtime on which every call succeeds, and a handler that panics on some
  deliveries.  Only the witnesses use it.
\<close>

definition sample_env :: env where
  "sample_env = \<lparr>dpb = sample_durationpb, ip6 = (\<lambda>_. False), reply = (\<lambda>_ _. None),
     is_closed = (\<lambda>_ _. False), ctx_err = (\<lambda>_ _. None), now = (\<lambda>h n. int (length h)), since = (\<lambda>_ _. 0),
     map_rank = (\<lambda>_ _. 0),
     handler_end = (\<lambda>_ _ d. if d_other d = 0 then HandlerReturns None else HandlerPanics ''nil map''),
     stack = (\<lambda>_. ''main.handle''), inflight = (\<lambda>_ _. []), has_config = (\<lambda>_. True),
     scanned = (\<lambda>_ _. sample_config), not_found = (\<lambda>_. False)\<rparr>"

end
