(* ===== verification/Client.thy ===== *)
theory Client
  imports World
begin

text \<open>
  The connection and its channels (\<open>client.go\<close>, \<open>health.go\<close>): dialling, the producers and
  consumers, the health probe and \<open>CheckHealth\<close>.

  A method that can panic returns an \<open>outcome\<close>: a nil connection has no \<open>Channel\<close> method to
  call, and a nil entry of the configuration has no fields.
\<close>

section \<open>Dialling\<close>

definition buildDialURL :: "env \<Rightarrow> RabbitMQ \<Rightarrow> gostring \<Rightarrow> gostring" where
  "buildDialURL E cfg raw =
     (case url_Parse (ip6 E) raw of
        None \<Rightarrow> raw
      | Some u \<Rightarrow>
          let u = (if (case User u of None \<Rightarrow> True | Some ui \<Rightarrow> username ui = '''') \<and> Username cfg \<noteq> ''''
                   then u\<lparr>User := Some (UserPassword (Username cfg) (Password cfg))\<rparr> else u);
              u = (if (Path u = '''' \<or> Path u = ''/'') \<and> VirtualHost cfg \<noteq> '''' \<and> VirtualHost cfg \<noteq> ''/''
                   then u\<lparr>Path := ''/'' @ strings_TrimPrefix (VirtualHost cfg) ''/''\<rparr> else u)
          in url_String u)"

definition dial :: "env \<Rightarrow> (goerror + conn) client" where
  "dial E = do {
     cfg \<leftarrow> gets config;
     (case Urls cfg of
        [] \<Rightarrow> State_Monad.return (Inl (Errorf ''no RabbitMQ URLs configured'' []))
      | url # _ \<Rightarrow>
          (case validateVirtualHost (VirtualHost cfg) of
             Some e \<Rightarrow> State_Monad.return (Inl (Errorf_w ''invalid virtual host'' e))
           | None \<Rightarrow> do {
               c \<leftarrow> fresh;
               err \<leftarrow> call E (Dial (buildDialURL E cfg url)
                 \<lparr>dc_Vhost = VirtualHost cfg, dc_Heartbeat = AsDuration (dpb E) (Heartbeat cfg),
                  dc_Locale = ''en_US'', dc_DialTimeout = AsDuration (dpb E) (DialTimeout cfg),
                  dc_tls = strings_HasPrefix (strings_ToLower (buildDialURL E cfg url)) ''amqps://''\<rparr>);
               State_Monad.return (case err of
                   Some e \<Rightarrow> Inl (Errorf_w (''failed to connect to RabbitMQ at '' @ url) e)
                 | None \<Rightarrow> Inr c)
             }))
   }"

text \<open>
  \<open>connect\<close>.  The callback it registers, number 0, is \<open>reconnect_callback\<close> of theory
  \<open>Lifecycle\<close>; the notify channel is named by its connection.
\<close>

definition connect :: "env \<Rightarrow> goerror option client" where
  "connect E = do {
     r \<leftarrow> dial E;
     (case r of
        Inl e \<Rightarrow> State_Monad.return (Some e)
      | Inr c \<Rightarrow> do {
          State_Monad.update (\<lambda>s. s\<lparr>connection := Some c\<rparr>);
          m \<leftarrow> gets connectionManager;
          (case m of
             None \<Rightarrow> State_Monad.return None
           | Some _ \<Rightarrow> do {
               State_Monad.update (\<lambda>s. s\<lparr>connectionManager := map_option (SetReconnectFunc (Some 0)) (connectionManager s)\<rparr>);
               call_ignoring E (NotifyClose c);
               State_Monad.update (\<lambda>s. s\<lparr>connectionManager := map_option (SetConnectionNotify (Some c)) (connectionManager s)\<rparr>);
               State_Monad.return None
             })
        })
   }"

section \<open>Channels\<close>

text \<open>The loops of \<open>GetEnabledProducers\<close> and \<open>GetEnabledConsumers\<close>.\<close>

fun enabled_entries :: "('a \<Rightarrow> bool) \<Rightarrow> 'a option list \<Rightarrow> 'a list outcome" where
  "enabled_entries enabled [] = Returns []"
| "enabled_entries enabled (None # xs) = Panics"
| "enabled_entries enabled (Some x # xs) =
     (case enabled_entries enabled xs of
        Panics \<Rightarrow> Panics
      | Returns ys \<Rightarrow> Returns (if enabled x then x # ys else ys))"

definition GetEnabledProducers :: "RabbitMQClient \<Rightarrow> Producer list outcome" where
  "GetEnabledProducers s = enabled_entries p_Enabled (Producers (config s))"

definition GetEnabledConsumers :: "RabbitMQClient \<Rightarrow> Consumer list outcome" where
  "GetEnabledConsumers s = enabled_entries c_Enabled (Consumers (config s))"

definition GetRabbitMQConfig :: "RabbitMQClient \<Rightarrow> RabbitMQ" where
  "GetRabbitMQConfig s = config s"

definition GetConnection :: "RabbitMQClient \<Rightarrow> conn option" where
  "GetConnection s = connection s"

definition IsConnected :: "env \<Rightarrow> RabbitMQClient \<Rightarrow> bool" where
  "IsConnected E s =
     (if closed_flag s then False
      else (case connection s of None \<Rightarrow> False | Some c \<Rightarrow> \<not> is_closed E (history s) c))"

definition GetMetrics :: "RabbitMQClient \<Rightarrow> Metrics option" where
  "GetMetrics s = metrics s"

text \<open>The checks \<open>createProducer\<close> and \<open>createConsumer\<close> make before any network call.\<close>

definition producer_names :: "Producer \<Rightarrow> goerror option" where
  "producer_names cfg =
     (if p_Exchange cfg \<noteq> '''' then
        (case validateExchange (p_Exchange cfg) of
           Some e \<Rightarrow> Some (Errorf_w (''producer '' @ p_Name cfg) e)
         | None \<Rightarrow>
             (case validateExchangeType (p_ExchangeType cfg) of
                Some e \<Rightarrow> Some (Errorf_w (''producer '' @ p_Name cfg) e)
              | None \<Rightarrow> None))
      else None)"

definition consumer_names :: "Consumer \<Rightarrow> goerror option" where
  "consumer_names cfg =
     (case (if c_Queue cfg \<noteq> '''' then validateQueue (c_Queue cfg) else None) of
        Some e \<Rightarrow> Some (Errorf_w (''consumer '' @ c_Name cfg) e)
      | None \<Rightarrow>
          (case (if c_Exchange cfg \<noteq> '''' then validateExchange (c_Exchange cfg) else None) of
             Some e \<Rightarrow> Some (Errorf_w (''consumer '' @ c_Name cfg) e)
           | None \<Rightarrow> None))"

text \<open>\<open>r.connection.Channel()\<close>; the body gets the new channel.\<close>

definition open_channel :: "env \<Rightarrow> (channel \<Rightarrow> goerror option outcome client) \<Rightarrow> goerror option outcome client" where
  "open_channel E body = do {
     conn \<leftarrow> gets connection;
     (case conn of
        None \<Rightarrow> State_Monad.return Panics
      | Some c \<Rightarrow> do {
          ch \<leftarrow> fresh;
          on_err (call E (OpenChannel c)) (\<lambda>e. fails (Errorf_w ''failed to create channel'' e)) (body ch)
        })
   }"

text \<open>A call on a new channel; on an error the channel is closed and the error returned.\<close>

definition on_channel :: "env \<Rightarrow> channel \<Rightarrow> event \<Rightarrow> (goerror \<Rightarrow> goerror) \<Rightarrow>
    goerror option outcome client \<Rightarrow> goerror option outcome client" where
  "on_channel E ch e wrap k =
     on_err (call E e) (\<lambda>err. do { call_ignoring E (CloseChannel ch); fails (wrap err) }) k"

definition createProducer :: "env \<Rightarrow> Producer \<Rightarrow> goerror option outcome client" where
  "createProducer E cfg =
     (case producer_names cfg of
        Some e \<Rightarrow> fails e
      | None \<Rightarrow> open_channel E (\<lambda>ch.
          let register = do {
                State_Monad.update (\<lambda>s. s\<lparr>producers := AList.update (p_Name cfg) (Some ch) (producers s)\<rparr>);
                returns None
              }
          in if p_Exchange cfg \<noteq> '''' then
               on_channel E ch
                 (ExchangeDeclare ch (p_Exchange cfg) (p_ExchangeType cfg) (p_ExchangeDurable cfg)
                    (p_ExchangeAutoDelete cfg) False False)
                 (Errorf_w (''failed to declare exchange '' @ p_Exchange cfg))
                 (on_channel E ch (Confirm ch False)
                    (Errorf_w (''failed to enable publisher confirms for producer '' @ p_Name cfg))
                    register)
             else register))"

definition buildQueueArgs :: "Consumer \<Rightarrow> (gostring \<times> gostring) list option" where
  "buildQueueArgs cfg =
     (let args = (if c_Exchange cfg \<noteq> '''' then
                    (''x-dead-letter-exchange'', c_Exchange cfg) #
                    (if c_RoutingKey cfg \<noteq> '''' then [(''x-dead-letter-routing-key'', c_RoutingKey cfg)] else [])
                  else [])
      in if args = [] then None else Some args)"

definition createConsumer :: "env \<Rightarrow> Consumer \<Rightarrow> goerror option outcome client" where
  "createConsumer E cfg =
     (case consumer_names cfg of
        Some e \<Rightarrow> fails e
      | None \<Rightarrow> open_channel E (\<lambda>ch.
          let register = do {
                State_Monad.update (\<lambda>s. s\<lparr>consumers := AList.update (c_Name cfg) (Some ch) (consumers s)\<rparr>);
                returns None
              };
              declare = (if c_Queue cfg \<noteq> '''' then
                  on_channel E ch
                    (QueueDeclare ch (c_Queue cfg) (c_QueueDurable cfg) (c_QueueAutoDelete cfg)
                       (c_QueueExclusive cfg) False (buildQueueArgs cfg))
                    (Errorf_w (''failed to declare queue '' @ c_Queue cfg))
                    register
                else register)
          in if sint (c_PrefetchCount cfg) > 0 then
               on_channel E ch (Qos ch (sint (c_PrefetchCount cfg)) 0 False)
                 (Errorf_w ''failed to set QoS'') declare
             else declare))"

text \<open>Both initialisation loops.\<close>

fun create_each :: "('a \<Rightarrow> goerror option outcome client) \<Rightarrow> ('a \<Rightarrow> gostring) \<Rightarrow> 'a list \<Rightarrow>
    goerror option outcome client" where
  "create_each create what [] = returns None"
| "create_each create what (x # xs) =
     on_err_panic (create x) (\<lambda>e. fails (Errorf_w (what x) e)) (create_each create what xs)"

definition initializeProducers :: "env \<Rightarrow> goerror option outcome client" where
  "initializeProducers E = do {
     ps \<leftarrow> gets GetEnabledProducers;
     (case ps of
        Panics \<Rightarrow> State_Monad.return Panics
      | Returns ps \<Rightarrow> create_each (createProducer E) (\<lambda>p. ''failed to create producer '' @ p_Name p) ps)
   }"

definition initializeConsumers :: "env \<Rightarrow> goerror option outcome client" where
  "initializeConsumers E = do {
     cs \<leftarrow> gets GetEnabledConsumers;
     (case cs of
        Panics \<Rightarrow> State_Monad.return Panics
      | Returns cs \<Rightarrow> create_each (createConsumer E) (\<lambda>c. ''failed to create consumer '' @ c_Name c) cs)
   }"

section \<open>Health\<close>

definition connectionProbe :: "env \<Rightarrow> goerror option client" where
  "connectionProbe E = do {
     s \<leftarrow> gets (\<lambda>s. s);
     if closed_flag s then State_Monad.return (Some (Errorf ''rabbitmq client is closed'' []))
     else (case connection s of
        None \<Rightarrow> State_Monad.return (Some (Errorf ''rabbitmq connection not initialized'' []))
      | Some c \<Rightarrow>
          if is_closed E (history s) c then State_Monad.return (Some (Errorf ''rabbitmq connection is closed'' []))
          else do {
            ch \<leftarrow> fresh;
            on_err (call E (OpenChannel c))
              (\<lambda>e. State_Monad.return (Some (Errorf_w ''rabbitmq health probe failed to open channel'' e)))
              (do { call_ignoring E (CloseChannel ch); State_Monad.return None })
          })
   }"

text \<open>The first entry, in the order of the \<open>range\<close>, that has no channel.\<close>

fun nil_entry :: "(gostring \<times> 'v option) list \<Rightarrow> gostring option" where
  "nil_entry [] = None"
| "nil_entry ((n, v) # m) = (if v = None then Some n else nil_entry m)"

definition CheckHealth :: "env \<Rightarrow> RabbitMQClient \<Rightarrow> goerror option" where
  "CheckHealth E s =
     (case connection s of
        None \<Rightarrow> Some (Errorf ''rabbitmq connection not initialized'' [])
      | Some c \<Rightarrow>
          if is_closed E (history s) c then Some (Errorf ''rabbitmq connection is closed'' [])
          else (case connectionManager s of
             None \<Rightarrow> Some (Errorf ''rabbitmq connection manager not initialized'' [])
           | Some m \<Rightarrow>
               if \<not> ConnectionManager_IsConnected m then
                 Some (Errorf ''rabbitmq connection manager is not connected'' [])
               else if (case healthChecker s of Some h \<Rightarrow> \<not> IsHealthy h | None \<Rightarrow> False) then
                 Some (Errorf ''rabbitmq health checker is unhealthy'' [])
               else (case nil_entry (map_range E (history s) (producers s)) of
                  Some n \<Rightarrow> Some (Errorf ''rabbitmq producer %s is not ready'' [FStr n])
                | None \<Rightarrow>
                    (case nil_entry (map_range E (history s) (consumers s)) of
                       Some n \<Rightarrow> Some (Errorf ''rabbitmq consumer %s is not ready'' [FStr n])
                     | None \<Rightarrow> None))))"

section \<open>Channels are released on every error\<close>

text \<open>A channel that was opened on the connection \<open>c\<close> since the history \<open>h\<close> and is still open.\<close>

definition opened :: "history \<Rightarrow> conn \<Rightarrow> history \<Rightarrow> bool" where
  "opened h c h' \<longleftrightarrow> broker_calls h h' \<and> unclosed h' = length h # unclosed h \<and>
     conn_of h' (length h) = Some c \<and> length h < length h'"

text \<open>Calls on a channel that do not close it.\<close>

definition neutral :: "channel \<Rightarrow> event \<Rightarrow> bool" where
  "neutral ch e \<longleftrightarrow> channel_used e = Some ch \<and> e \<noteq> CloseChannel ch"

lemma neutral_simps [simp]:
  "neutral ch (ExchangeDeclare ch n t d a i w)" "neutral ch (Confirm ch w)" "neutral ch (Qos ch p z g)"
  "neutral ch (QueueDeclare ch q d a x w args)" "neutral ch (Consume ch ctx q n a x l w)"
  by (simp_all add: neutral_def)

lemma neutral_call:
  assumes "neutral ch e"
  shows "to_broker e" "unclosed ((e, r) # h) = unclosed h" "conn_of ((e, r) # h) ch' = conn_of h ch'"
    "live ((e, r) # h) = live h" "ch \<in> set (unclosed h) \<Longrightarrow> allowed h e"
  using assms by (cases e; simp add: neutral_def allowed_def)+

lemma opened_neutral: "opened h c h' \<Longrightarrow> neutral (length h) e \<Longrightarrow> opened h c ((e, r) # h')"
  by (auto simp: opened_def neutral_call)

lemma opened_closed:
  "opened h c h' \<Longrightarrow> broker_calls h ((CloseChannel (length h), r) # h') \<and>
     unclosed ((CloseChannel (length h), r) # h') = unclosed h"
  by (auto simp: opened_def allowed_def)

lemma on_channel_wp:
  assumes "opened h c (history s)" "neutral (length h) e"
    and "\<And>h'. opened h c h' \<Longrightarrow> wp k Q (s\<lparr>history := h'\<rparr>)"
    and "\<And>h' t. broker_calls h h' \<Longrightarrow> unclosed h' = unclosed h \<Longrightarrow> Q (Returns (Some (wrap (External t)))) (s\<lparr>history := h'\<rparr>)"
  shows "wp (on_channel E (length h) e wrap k) Q s"
proof (cases "reply E (history s) e")
  case None
  then show ?thesis using assms(3) opened_neutral [OF assms(1,2)] by (simp add: on_channel_def wp_simps)
next
  case (Some t)
  then show ?thesis
    using assms(4) opened_closed [OF opened_neutral [OF assms(1,2)]] by (simp add: on_channel_def wp_simps)
qed

lemma opened_now: "c \<in> set (live h) \<Longrightarrow> opened h c ((OpenChannel c, None) # h)"
  by (simp add: opened_def allowed_def)

lemma not_opened:
  "c \<in> set (live h) \<Longrightarrow> broker_calls h ((OpenChannel c, Some e) # h)"
  "unclosed ((OpenChannel c, Some e) # h) = unclosed h"
  by (simp_all add: allowed_def)

lemma open_channel_wp:
  assumes "connection s = Some c" "c \<in> set (live (history s))"
    and "\<And>h'. opened (history s) c h' \<Longrightarrow> wp (body (length (history s))) Q (s\<lparr>history := h'\<rparr>)"
    and "\<And>h' err. broker_calls (history s) h' \<Longrightarrow> unclosed h' = unclosed (history s) \<Longrightarrow>
       Q (Returns (Some err)) (s\<lparr>history := h'\<rparr>)"
  shows "wp (open_channel E body) Q s"
  using assms(1) assms(3) [OF opened_now [OF assms(2)]] assms(4) [OF not_opened(1) [OF assms(2)] not_opened(2)]
  by (cases "reply E (history s) (OpenChannel c)") (simp_all add: open_channel_def wp_simps)

locale channel_creator =
  fixes create :: "'a \<Rightarrow> goerror option outcome client"
    and name :: "'a \<Rightarrow> gostring"
    and valid :: "'a \<Rightarrow> bool"
    and get :: "RabbitMQClient \<Rightarrow> channel option gomap"
    and put :: "channel option gomap \<Rightarrow> RabbitMQClient \<Rightarrow> RabbitMQClient"
  assumes get_put [simp]: "get (put m s) = m"
    and get_history [simp]: "get (s\<lparr>history := h\<rparr>) = get s"
    and put_get [simp]: "put (get s) s = s"
    and put_put [simp]: "put m (put m' s) = put m s"
    and put_history: "(put m s)\<lparr>history := h\<rparr> = put m (s\<lparr>history := h\<rparr>)"
    and history_put [simp]: "history (put m s) = history s"
    and connection_put [simp]: "connection (put m s) = connection s"
    and create_law: "connection s = Some c \<Longrightarrow> c \<in> set (live (history s)) \<Longrightarrow>
      (\<And>h'. opened (history s) c h' \<Longrightarrow> valid x \<Longrightarrow>
         Q (Returns None) (put (AList.update (name x) (Some (length (history s))) (get s)) (s\<lparr>history := h'\<rparr>))) \<Longrightarrow>
      (\<And>h' e. broker_calls (history s) h' \<Longrightarrow> unclosed h' = unclosed (history s) \<Longrightarrow>
         Q (Returns (Some e)) (s\<lparr>history := h'\<rparr>)) \<Longrightarrow>
      wp (create x) Q s"
begin

text \<open>
  What a loop of creations leaves.  Channels opened before stay open and entries of other
  names stay; on success every name is registered with an open channel of the connection;
  and the channels opened are exactly those registered, provided no name is used twice.
\<close>

definition extended :: "RabbitMQClient \<Rightarrow> 'a list \<Rightarrow> RabbitMQClient \<Rightarrow> bool" where
  "extended s xs s' \<longleftrightarrow>
     broker_calls (history s) (history s') \<and> s' = put (get s') (s\<lparr>history := history s'\<rparr>) \<and>
     set (unclosed (history s)) \<subseteq> set (unclosed (history s')) \<and>
     (\<forall>n. n \<notin> name ` set xs \<longrightarrow> map_of (get s') n = map_of (get s) n) \<and>
     mset (unclosed (history s)) + mset (chans (get s')) \<subseteq># mset (unclosed (history s')) + mset (chans (get s)) \<and>
     (None \<in> snd ` set (get s') \<longrightarrow> None \<in> snd ` set (get s)) \<and>
     (distinct (map name xs) \<and> name ` set xs \<inter> fst ` set (get s) = {} \<longrightarrow>
       mset (unclosed (history s')) + mset (chans (get s)) = mset (unclosed (history s)) + mset (chans (get s')))"

definition populated :: "conn \<Rightarrow> 'a list \<Rightarrow> RabbitMQClient \<Rightarrow> bool" where
  "populated c xs s' \<longleftrightarrow> (\<forall>x \<in> set xs. valid x \<and> (\<exists>ch. map_of (get s') (name x) = Some (Some ch) \<and>
     ch \<in> set (unclosed (history s')) \<and> conn_of (history s') ch = Some c))"

lemma extended_refl: "extended s [] s"
  by (simp add: extended_def)

lemma extended_failed:
  "broker_calls (history s) h \<Longrightarrow> unclosed h = unclosed (history s) \<Longrightarrow> extended s xs (s\<lparr>history := h\<rparr>)"
  using put_get [of "s\<lparr>history := h\<rparr>"] by (simp add: extended_def)

lemma extended_step:
  assumes h: "opened (history s) c h"
    and "s1 = put (AList.update (name x) (Some (length (history s))) (get s)) (s\<lparr>history := h\<rparr>)"
    and e: "extended s1 xs s2"
  shows "extended s (x # xs) s2"
    and "populated c xs s2 \<Longrightarrow> valid x \<Longrightarrow> populated c (x # xs) s2"
proof -
  let ?ch = "length (history s)"
  have s1 [simp]: "history s1 = h" "get s1 = AList.update (name x) (Some ?ch) (get s)" using assms(2) by simp_all
  have b: "broker_calls (history s) (history s2)"
    using h e broker_calls_trans by (auto simp: opened_def extended_def)
  have "s2 = put (get s2) (s1\<lparr>history := history s2\<rparr>)" using e by (simp add: extended_def)
  then have "s2 = put (get s2) (s\<lparr>history := history s2\<rparr>)" unfolding assms(2) put_history by simp
  moreover have "mset (unclosed (history s2)) + mset (chans (get s)) = mset (unclosed (history s)) + mset (chans (get s2))"
    if "distinct (map name (x # xs))" "name ` set (x # xs) \<inter> fst ` set (get s) = {}"
  proof -
    have "mset (unclosed (history s2)) + mset (chans (get s1)) = mset (unclosed h) + mset (chans (get s2))"
      using e that by (simp add: extended_def dom_update)
    moreover have "chans (get s1) = chans (get s) @ [?ch]" using that by (simp add: chans_update)
    ultimately show ?thesis using h by (simp add: opened_def)
  qed
  moreover have "mset (unclosed (history s)) + mset (chans (get s2)) \<subseteq># mset (unclosed (history s2)) + mset (chans (get s))"
  proof (rule subset_mset_transfer)
    show "mset (unclosed h) + mset (chans (get s2)) \<subseteq># mset (unclosed (history s2)) + mset (chans (get s1))"
      using e by (simp add: extended_def)
    show "mset (unclosed (history s)) + mset (chans (get s1)) \<subseteq># mset (unclosed h) + mset (chans (get s))"
      using h chans_update_subset [of "name x" ?ch "get s"] by (simp add: opened_def)
  qed
  moreover have "None \<in> snd ` set (get s2) \<longrightarrow> None \<in> snd ` set (get s)"
    using e update_some_nil [of "name x" ?ch "get s"] by (auto simp: extended_def)
  ultimately show "extended s (x # xs) s2"
    using e h b by (auto simp: extended_def opened_def)
  have "?ch \<in> set (unclosed (history s2))" using e h by (auto simp: extended_def opened_def)
  moreover have "conn_of (history s2) ?ch = Some c"
    using broker_calls_conn [of h "history s2" ?ch] e h by (auto simp: extended_def opened_def)
  ultimately show "populated c (x # xs) s2" if "populated c xs s2" "valid x"
    using that e by (cases "name x \<in> name ` set xs") (auto simp: populated_def extended_def)
qed

lemma create_each_wp:
  assumes "connection s = Some c" "c \<in> set (live (history s))"
  shows "wp (create_each create what xs) (\<lambda>r s'. extended s xs s' \<and>
    (r = Returns None \<and> populated c xs s' \<or> (\<exists>e. r = Returns (Some e)))) s"
  using assms
proof (induction xs arbitrary: s)
  case Nil
  show ?case by (simp add: wp_simps extended_refl populated_def)
next
  case (Cons x xs)
  show ?case
    unfolding create_each.simps wp_on_err_panic
  proof (rule create_law [OF Cons.prems], goal_cases)
    case (1 h)
    let ?s1 = "put (AList.update (name x) (Some (length (history s))) (get s)) (s\<lparr>history := h\<rparr>)"
    have "wp (create_each create what xs) (\<lambda>r s'. extended ?s1 xs s' \<and>
        (r = Returns None \<and> populated c xs s' \<or> (\<exists>e. r = Returns (Some e)))) ?s1"
      using Cons.prems 1(1) broker_calls_live [of "history s" h] by (intro Cons.IH) (simp_all add: opened_def)
    then show ?case
      using extended_step [OF 1(1) refl] 1(2) by (auto elim!: wp_mono)
  next
    case (2 h e)
    then show ?case by (simp add: wp_simps extended_failed)
  qed
qed

end


interpretation producer_channels: channel_creator "createProducer E" p_Name "\<lambda>p. producer_names p = None"
    producers "\<lambda>m. producers_update (\<lambda>_. m)" for E
proof
  fix s c x and Q :: "goerror option outcome \<Rightarrow> RabbitMQClient \<Rightarrow> bool"
  assume "connection s = Some c" "c \<in> set (live (history s))"
    and ok: "\<And>h'. opened (history s) c h' \<Longrightarrow> producer_names x = None \<Longrightarrow>
      Q (Returns None) (s\<lparr>history := h', producers := AList.update (p_Name x) (Some (length (history s))) (producers s)\<rparr>)"
    and err: "\<And>h' e. broker_calls (history s) h' \<Longrightarrow> unclosed h' = unclosed (history s) \<Longrightarrow>
      Q (Returns (Some e)) (s\<lparr>history := h'\<rparr>)"
  then show "wp (createProducer E x) Q s"
  proof (cases "producer_names x")
    case None
    with \<open>connection s = Some c\<close> \<open>c \<in> set (live (history s))\<close> show ?thesis
      unfolding createProducer_def
      by (auto simp: Let_def wp_simps intro!: open_channel_wp on_channel_wp ok err)
  qed (use err [of "history s"] in \<open>simp add: createProducer_def wp_simps\<close>)
qed simp_all

interpretation consumer_channels: channel_creator "createConsumer E" c_Name "\<lambda>c. consumer_names c = None"
    consumers "\<lambda>m. consumers_update (\<lambda>_. m)" for E
proof
  fix s c x and Q :: "goerror option outcome \<Rightarrow> RabbitMQClient \<Rightarrow> bool"
  assume "connection s = Some c" "c \<in> set (live (history s))"
    and ok: "\<And>h'. opened (history s) c h' \<Longrightarrow> consumer_names x = None \<Longrightarrow>
      Q (Returns None) (s\<lparr>history := h', consumers := AList.update (c_Name x) (Some (length (history s))) (consumers s)\<rparr>)"
    and err: "\<And>h' e. broker_calls (history s) h' \<Longrightarrow> unclosed h' = unclosed (history s) \<Longrightarrow>
      Q (Returns (Some e)) (s\<lparr>history := h'\<rparr>)"
  then show "wp (createConsumer E x) Q s"
  proof (cases "consumer_names x")
    case None
    with \<open>connection s = Some c\<close> \<open>c \<in> set (live (history s))\<close> show ?thesis
      unfolding createConsumer_def
      by (auto simp: Let_def wp_simps intro!: open_channel_wp on_channel_wp ok err)
  qed (use err [of "history s"] in \<open>simp add: createConsumer_def wp_simps\<close>)
qed simp_all

lemma nil_entry_None: "nil_entry m = None \<longleftrightarrow> None \<notin> snd ` set m"
  by (induction m rule: nil_entry.induct) (auto simp: image_iff)

section \<open>What a creation asks of the broker\<close>

text \<open>The calls made between two histories, oldest first.\<close>

definition new_calls :: "history \<Rightarrow> history \<Rightarrow> event list" where
  "new_calls h h' = rev (map fst (take (length h' - length h) h'))"

lemma new_calls_refl [simp]: "new_calls h h = []"
  by (simp add: new_calls_def)

lemma new_calls_Cons: "length h \<le> length h' \<Longrightarrow> new_calls h ((e, r) # h') = new_calls h h' @ [e]"
  by (simp add: new_calls_def Suc_diff_le)

text \<open>What creating a producer or a consumer asks of the broker.\<close>

definition producer_calls :: "conn \<Rightarrow> channel \<Rightarrow> Producer \<Rightarrow> event list" where
  "producer_calls c ch p = OpenChannel c #
     (if p_Exchange p = '''' then []
      else [ExchangeDeclare ch (p_Exchange p) (p_ExchangeType p) (p_ExchangeDurable p) (p_ExchangeAutoDelete p) False False,
            Confirm ch False])"

definition dead_letter_args :: "Consumer \<Rightarrow> (gostring \<times> gostring) list option" where
  "dead_letter_args p = (if c_Exchange p = [] then None
     else if c_RoutingKey p = [] then Some [(''x-dead-letter-exchange'', c_Exchange p)]
     else Some [(''x-dead-letter-exchange'', c_Exchange p), (''x-dead-letter-routing-key'', c_RoutingKey p)])"

lemma buildQueueArgs_eq: "buildQueueArgs p = dead_letter_args p"
  by (simp add: buildQueueArgs_def dead_letter_args_def)

definition consumer_calls :: "conn \<Rightarrow> channel \<Rightarrow> Consumer \<Rightarrow> event list" where
  "consumer_calls c ch p = OpenChannel c #
     (if sint (c_PrefetchCount p) > 0 then [Qos ch (sint (c_PrefetchCount p)) 0 False] else []) @
     (if c_Queue p = '''' then []
      else [QueueDeclare ch (c_Queue p) (c_QueueDurable p) (c_QueueAutoDelete p) (c_QueueExclusive p) False (dead_letter_args p)])"

text \<open>
  The result of a creation: all calls of the set-up and the new channel registered, or an
  error, a part of the set-up and, unless opening the channel was all, its closing.
\<close>

definition creation :: "event list \<Rightarrow> gostring \<Rightarrow> RabbitMQClient \<Rightarrow> channel option gomap \<Rightarrow> goerror option outcome \<Rightarrow>
    RabbitMQClient \<Rightarrow> channel option gomap \<Rightarrow> bool" where
  "creation wanted name s m x t m' \<longleftrightarrow> (let ch = length (history s) in
     if x = Returns None
     then new_calls (history s) (history t) = wanted \<and> m' = AList.update name (Some ch) m \<and>
       unclosed (history t) = ch # unclosed (history s)
     else x \<noteq> Panics \<and> m' = m \<and> unclosed (history t) = unclosed (history s) \<and>
       (\<exists>k. 0 < k \<and> k \<le> length wanted \<and>
          new_calls (history s) (history t) = take k wanted @ (if k = 1 then [] else [CloseChannel ch])))"
lemma creation_ok:
  "new_calls (history s) (history t) = wanted \<Longrightarrow> m' = AList.update name (Some (length (history s))) m \<Longrightarrow>
   unclosed (history t) = length (history s) # unclosed (history s) \<Longrightarrow> creation wanted name s m (Returns None) t m'"
  by (simp add: creation_def Let_def)

lemma creation_failed:
  assumes "0 < k" "k \<le> length wanted"
    "new_calls (history s) (history t) = take k wanted @ (if k = 1 then [] else [CloseChannel (length (history s))])"
    "m' = m" "unclosed (history t) = unclosed (history s)"
  shows "creation wanted name s m (Returns (Some e)) t m'"
  using assms unfolding creation_def Let_def by auto
text \<open>The first calls of a set-up have been made.\<close>

definition made :: "history \<Rightarrow> event list \<Rightarrow> history \<Rightarrow> bool" where
  "made h es h' \<longleftrightarrow> new_calls h h' = es \<and> unclosed h' = length h # unclosed h \<and> length h \<le> length h'"

lemma on_channel_made:
  assumes "made h es (history s)" "neutral (length h) e"
    and "\<And>h'. made h (es @ [e]) h' \<Longrightarrow> wp k Q (s\<lparr>history := h'\<rparr>)"
    and "\<And>h' t. new_calls h h' = es @ [e, CloseChannel (length h)] \<Longrightarrow> unclosed h' = unclosed h \<Longrightarrow>
      Q (Returns (Some (wrap (External t)))) (s\<lparr>history := h'\<rparr>)"
  shows "wp (on_channel E (length h) e wrap k) Q s"
proof (cases "reply E (history s) e")
  case None
  have "made h (es @ [e]) ((e, None) # history s)"
    using assms(1) neutral_call(2) [OF assms(2)] by (simp add: made_def new_calls_Cons)
  from assms(3) [OF this] None show ?thesis by (simp add: on_channel_def wp_simps)
next
  case (Some t)
  let ?h = "(CloseChannel (length h), map_option External (reply E ((e, Some (External t)) # history s) (CloseChannel (length h)))) #
      (e, Some (External t)) # history s"
  have "new_calls h ?h = es @ [e, CloseChannel (length h)]" "unclosed ?h = unclosed h"
    using assms(1) neutral_call(2) [OF assms(2)] by (simp_all add: made_def new_calls_Cons)
  from assms(4) [OF this] Some show ?thesis by (simp add: on_channel_def wp_simps)
qed

lemma open_channel_made:
  assumes "connection s = Some c" "0 < length wanted" "hd wanted = OpenChannel c"
    and "\<And>h'. made (history s) [OpenChannel c] h' \<Longrightarrow>
      wp (body (length (history s))) (\<lambda>x t. creation wanted name s m x t (get t)) (s\<lparr>history := h'\<rparr>)"
    and get: "\<And>h'. get (s\<lparr>history := h'\<rparr>) = m"
  shows "wp (open_channel E body) (\<lambda>x t. creation wanted name s m x t (get t)) s"
proof (cases "reply E (history s) (OpenChannel c)")
  case None
  have "made (history s) [OpenChannel c] ((OpenChannel c, None) # history s)" by (simp add: made_def new_calls_Cons)
  from assms(4) [OF this] None assms(1) show ?thesis by (simp add: open_channel_def wp_simps)
next
  case (Some e)
  have "take 1 wanted = [OpenChannel c]" using assms(2,3) by (cases wanted) simp_all
  then have "creation wanted name s m (Returns (Some x)) (s\<lparr>history := (OpenChannel c, Some y) # history s\<rparr>) (get (s\<lparr>history := (OpenChannel c, Some y) # history s\<rparr>))" for x y
    using assms(2) get by (intro creation_failed [where k = 1]) (simp_all add: new_calls_Cons Suc_leI)
  then show ?thesis using Some assms(1) by (simp add: open_channel_def wp_simps)
qed

lemma createProducer_wp:
  assumes "connection s = Some c" "producer_names p = None"
  shows "wp (createProducer E p) (\<lambda>x t. creation (producer_calls c (length (history s)) p) (p_Name p) s (producers s) x t (producers t)) s"
proof -
  let ?Q = "\<lambda>x t. creation (producer_calls c (length (history s)) p) (p_Name p) s (producers s) x t (producers t)"
  have ok: "?Q (Returns None) (s\<lparr>history := h, producers := AList.update (p_Name p) (Some (length (history s))) (producers s)\<rparr>)"
    if "made (history s) (producer_calls c (length (history s)) p) h" for h
    using that by (intro creation_ok) (simp_all add: made_def)
  show ?thesis
    unfolding createProducer_def assms(2) option.case
  proof (rule open_channel_made [OF assms(1)], goal_cases)
    case (3 h)
    then show ?case
      using ok
      by (cases "p_Exchange p = ''''")
       (auto simp: wp_simps Let_def producer_calls_def intro!: on_channel_made intro: creation_failed [where k = 2] creation_failed [where k = 3])
  qed (simp_all add: producer_calls_def)
qed

lemma createConsumer_wp:
  assumes "connection s = Some c" "consumer_names p = None"
  shows "wp (createConsumer E p) (\<lambda>x t. creation (consumer_calls c (length (history s)) p) (c_Name p) s (consumers s) x t (consumers t)) s"
proof -
  let ?Q = "\<lambda>x t. creation (consumer_calls c (length (history s)) p) (c_Name p) s (consumers s) x t (consumers t)"
  have ok: "?Q (Returns None) (s\<lparr>history := h, consumers := AList.update (c_Name p) (Some (length (history s))) (consumers s)\<rparr>)"
    if "made (history s) (consumer_calls c (length (history s)) p) h" for h
    using that by (intro creation_ok) (simp_all add: made_def)
  show ?thesis
    unfolding createConsumer_def assms(2) option.case
  proof (rule open_channel_made [OF assms(1)], goal_cases)
    case (3 h)
    then show ?case
      using ok
      by (cases "c_Queue p = ''''"; cases "sint (c_PrefetchCount p) > 0")
       (auto simp: wp_simps Let_def consumer_calls_def buildQueueArgs_eq intro!: on_channel_made intro: creation_failed [where k = 2] creation_failed [where k = 3])
  qed (simp_all add: consumer_calls_def)
qed

section \<open>Properties\<close>

text \<open>
  C15.  \<open>CheckHealth\<close> returns nil just when there is a connection that is not closed, a
  connection manager that is connected, no unhealthy health checker and no producer or
  consumer without a channel.
\<close>

theorem CheckHealth_exact:
  "CheckHealth E s = None \<longleftrightarrow>
     (\<exists>c m. connection s = Some c \<and> is_closed E (history s) c = False \<and>
        connectionManager s = Some m \<and> ConnectionManager_IsConnected m) \<and>
     (case healthChecker s of None \<Rightarrow> True | Some h \<Rightarrow> IsHealthy h) \<and>
     None \<notin> snd ` set (producers s) \<and> None \<notin> snd ` set (consumers s)"
  using nil_entry_None [of "map_range E (history s) (producers s)"] nil_entry_None [of "map_range E (history s) (consumers s)"]
  by (auto simp: CheckHealth_def split: option.splits if_splits)

text \<open>
  C14.  The URL that is dialled carries the configured credentials and virtual host: for a
  URL of scheme, host and at most a slash, \<open>url.Parse\<close> reads back from the output of
  \<open>buildDialURL\<close> the same scheme and host, the configured user name and password, and the
  configured virtual host, whatever bytes these contain.
\<close>

theorem dial_url_roundtrip:
  assumes "plain_scheme scheme" "plain_host host" "Username cfg \<noteq> ''''"
    and "path = ''/'' \<or> path = '''' \<and> VirtualHost cfg \<noteq> '''' \<and> VirtualHost cfg \<noteq> ''/''"
  shows "url_Parse (ip6 E) (buildDialURL E cfg (scheme @ ''://'' @ host @ path)) =
    Some (empty_URL\<lparr>Scheme := scheme, User := Some (UserPassword (Username cfg) (Password cfg)), Host := host,
      Path := ''/'' @ strings_TrimPrefix (VirtualHost cfg) ''/''\<rparr>)"
proof -
  let ?u = "empty_URL\<lparr>Scheme := scheme, User := Some (UserPassword (Username cfg) (Password cfg)), Host := host,
      Path := CHR ''/'' # strings_TrimPrefix (VirtualHost cfg) ''/''\<rparr>"
  have "strings_TrimPrefix '''' ''/'' = ''''" "strings_TrimPrefix ''/'' ''/'' = ''''"
    by (simp_all add: strings_TrimPrefix_def strings_HasPrefix_def)
  then have "buildDialURL E cfg (scheme @ ''://'' @ host @ path) = url_String ?u"
    using assms(3,4) url_Parse_configured [OF assms(1,2), of path "ip6 E"]
    by (auto simp: buildDialURL_def empty_URL_def Let_def)
  then show ?thesis
    using url_Parse_printed [OF assms(1,2)] by (simp add: url_String_configured [OF assms(1,2)])
qed

theorem dial_url_roundtrip_witness:
  "url_Parse (ip6 sample_env) (buildDialURL sample_env (sample_config\<lparr>Username := ''a:b'', Password := ''p@/%'', VirtualHost := ''/v h''\<rparr>)
      ''amqps://mq.local:5671/'') =
    Some (empty_URL\<lparr>Scheme := ''amqps'', User := Some (UserPassword ''a:b'' ''p@/%''), Host := ''mq.local:5671'', Path := ''/v h''\<rparr>)"
  using dial_url_roundtrip [of "''amqps''" "''mq.local:5671''" "sample_config\<lparr>Username := ''a:b'', Password := ''p@/%'', VirtualHost := ''/v h''\<rparr>" "''/''" sample_env]
  by (simp add: plain_scheme_def plain_host_def strings_ToLower_def strings_TrimPrefix_def strings_HasPrefix_def
      is_letter_def is_digit_def host_byte_def between_def lower_char_def)




end
