(* ===== verification/Messaging.thy ===== *)
theory Messaging
  imports Client
begin

text \<open>
  Publishing, subscribing and the dispatch of deliveries (\<open>client.go\<close>).

  The body of the dispatch goroutine is \<open>dispatch_loop\<close>: it runs over the outcomes of its
  \<open>select\<close>, whatever they are, and ends at the first one that makes the goroutine return.
\<close>

section \<open>Publishing\<close>

text \<open>\<open>if r.metrics != nil { ... }\<close>.\<close>

definition with_metrics :: "(Metrics \<Rightarrow> Metrics) \<Rightarrow> unit client" where
  "with_metrics f = State_Monad.update (\<lambda>s. s\<lparr>metrics := map_option f (metrics s)\<rparr>)"

text \<open>The message: \<open>amqp.Persistent\<close> is 2; the fields not named are the zero value.\<close>

definition make_publishing :: "(nat \<Rightarrow> gotime) \<Rightarrow> gostring \<Rightarrow> Publishing list \<Rightarrow> Publishing" where
  "make_publishing t body opts =
     (case opts of
        [] \<Rightarrow> \<lparr>ContentType = ''application/octet-stream'', DeliveryMode = 2, Timestamp = t 0,
               Body = body, pub_other = 0\<rparr>
      | pub # _ \<Rightarrow>
          let pub = pub\<lparr>Body := body\<rparr>
          in if time_IsZero (Timestamp pub) then pub\<lparr>Timestamp := t 1\<rparr> else pub)"

definition publishToChannel :: "env \<Rightarrow> context \<Rightarrow> channel \<Rightarrow> gostring \<Rightarrow> gostring \<Rightarrow> gostring \<Rightarrow>
    Publishing list \<Rightarrow> goerror option client" where
  "publishToChannel E ctx ch exchange routingKey body opts =
     (case (if exchange \<noteq> '''' then validateExchange exchange else None) of
        Some e \<Rightarrow> State_Monad.return (Some e)
      | None \<Rightarrow>
          if body = '''' then State_Monad.return (Some (Sentinel ErrEmptyMessage))
          else do {
            clock \<leftarrow> gets (\<lambda>s. now E (history s));
            let start = clock 2;
            err \<leftarrow> call E (PublishWithContext ch ctx exchange routingKey False False
                     (make_publishing clock body opts));
            d \<leftarrow> gets (\<lambda>s. since E (history s) start);
            with_metrics (RecordProducerLatency d);
            with_metrics (if err \<noteq> None then IncrementProducerMessagesFailed else IncrementProducerMessagesSent);
            State_Monad.return (case err of
                Some e \<Rightarrow> Some (WrapError (Some (Sentinel ErrPublishMessageFailed)) (err_Error e))
              | None \<Rightarrow> None)
          })"

text \<open>The body of \<open>for _, c := range m { ch = c; break }\<close>.\<close>

definition first_entry :: "env \<Rightarrow> history \<Rightarrow> channel option gomap \<Rightarrow> (gostring \<times> channel) option" where
  "first_entry E h m =
     (case map_range E h m of
        (n, Some ch) # _ \<Rightarrow> Some (n, ch)
      | _ \<Rightarrow> None)"

definition PublishMessage :: "env \<Rightarrow> context \<Rightarrow> gostring \<Rightarrow> gostring \<Rightarrow> gostring \<Rightarrow>
    Publishing list \<Rightarrow> goerror option client" where
  "PublishMessage E ctx exchange routingKey body opts = do {
     first \<leftarrow> gets (\<lambda>s. first_entry E (history s) (producers s));
     (case first of
        None \<Rightarrow> State_Monad.return (Some (Sentinel ErrProducerNotReady))
      | Some (_, ch) \<Rightarrow> publishToChannel E ctx ch exchange routingKey body opts)
   }"

definition PublishMessageWith :: "env \<Rightarrow> context \<Rightarrow> gostring \<Rightarrow> gostring \<Rightarrow> gostring \<Rightarrow> gostring \<Rightarrow>
    Publishing list \<Rightarrow> goerror option client" where
  "PublishMessageWith E ctx producerName exchange routingKey body opts = do {
     found \<leftarrow> gets (\<lambda>s. map_of (producers s) producerName);
     (case found of
        None \<Rightarrow> State_Monad.return (Some (WrapError (Some (Sentinel ErrProducerNotFound)) (''producer: '' @ producerName)))
      | Some None \<Rightarrow> State_Monad.return (Some (WrapError (Some (Sentinel ErrProducerNotReady)) (''producer: '' @ producerName)))
      | Some (Some ch) \<Rightarrow> publishToChannel E ctx ch exchange routingKey body opts)
   }"

definition GetProducer :: "RabbitMQClient \<Rightarrow> gostring \<Rightarrow> goerror + channel option" where
  "GetProducer s name =
     (case map_of (producers s) name of
        None \<Rightarrow> Inl (WrapError (Some (Sentinel ErrProducerNotFound)) (''producer: '' @ name))
      | Some ch \<Rightarrow> Inr ch)"

definition IsProducerReady :: "RabbitMQClient \<Rightarrow> gostring \<Rightarrow> bool" where
  "IsProducerReady s name =
     (case map_of (producers s) name of Some (Some _) \<Rightarrow> True | _ \<Rightarrow> False)"

section \<open>Subscribing\<close>

text \<open>The settings of the named consumer; the loop stops at the first match.\<close>

fun consumer_settings :: "gostring \<Rightarrow> Consumer option list \<Rightarrow> (bool \<times> int32) outcome" where
  "consumer_settings name [] = Returns (False, 0)"
| "consumer_settings name (None # cs) = Panics"
| "consumer_settings name (Some c # cs) =
     (if c_Name c = name then Returns (c_AutoAck c, c_PrefetchCount c) else consumer_settings name cs)"

text \<open>A call on the subscription's channel; on an error the channel is closed.\<close>

definition on_subscription :: "env \<Rightarrow> channel \<Rightarrow> event \<Rightarrow> goerror option outcome client \<Rightarrow>
    goerror option outcome client" where
  "on_subscription E ch e k =
     on_channel E ch e (\<lambda>err. WrapError (Some (Sentinel ErrSubscribeFailed)) (err_Error err)) k"

definition startDispatchLoop :: "env \<Rightarrow> context \<Rightarrow> gostring \<Rightarrow> gostring \<Rightarrow> handler \<Rightarrow>
    goerror option outcome client" where
  "startDispatchLoop E ctx consumerName q handler = do {
     s \<leftarrow> gets (\<lambda>s. s);
     (case consumer_settings consumerName (Consumers (config s)) of
        Panics \<Rightarrow> State_Monad.return Panics
      | Returns (autoAck, prefetchCount) \<Rightarrow>
          (case connection s of
             None \<Rightarrow> fails (Sentinel ErrConsumerNotReady)
           | Some c \<Rightarrow>
               if is_closed E (history s) c then fails (Sentinel ErrConsumerNotReady)
               else do {
                 ch \<leftarrow> fresh;
                 on_err (call E (OpenChannel c))
                   (\<lambda>e. fails (WrapError (Some (Sentinel ErrSubscribeFailed)) (err_Error e)))
                   (let consume = on_subscription E ch
                          (Consume ch ctx q consumerName autoAck False False False)
                          (do {
                             State_Monad.update (\<lambda>s. s\<lparr>dispatchers := dispatchers s @
                               [\<lparr>d_ctx = ctx, d_channel = ch, d_handler = handler, d_autoAck = autoAck\<rparr>]\<rparr>);
                             returns None
                           })
                    in if sint prefetchCount > 0
                       then on_subscription E ch (Qos ch (sint prefetchCount) 0 False) consume
                       else consume)
               }))
   }"

definition subscribeWithChannel :: "env \<Rightarrow> context \<Rightarrow> gostring \<Rightarrow> gostring \<Rightarrow> handler \<Rightarrow>
    goerror option outcome client" where
  "subscribeWithChannel E ctx consumerName q handler = do {
     State_Monad.update (\<lambda>s. s\<lparr>subscriptions := subscriptions s @
       [\<lparr>s_consumerName = consumerName, s_queue = q, s_handler = handler\<rparr>]\<rparr>);
     startDispatchLoop E ctx consumerName q handler
   }"

definition Subscribe :: "env \<Rightarrow> context \<Rightarrow> gostring \<Rightarrow> handler \<Rightarrow> goerror option outcome client" where
  "Subscribe E ctx q handler = do {
     first \<leftarrow> gets (\<lambda>s. first_entry E (history s) (consumers s));
     (case first of
        None \<Rightarrow> fails (Sentinel ErrConsumerNotReady)
      | Some (name, _) \<Rightarrow> subscribeWithChannel E ctx name q handler)
   }"

definition SubscribeWith :: "env \<Rightarrow> context \<Rightarrow> gostring \<Rightarrow> gostring \<Rightarrow> handler \<Rightarrow>
    goerror option outcome client" where
  "SubscribeWith E ctx consumerName q handler =
     (case validateQueue q of
        Some e \<Rightarrow> fails e
      | None \<Rightarrow> do {
          found \<leftarrow> gets (\<lambda>s. map_of (consumers s) consumerName);
          (case found of
             None \<Rightarrow> fails (WrapError (Some (Sentinel ErrConsumerNotFound)) (''consumer: '' @ consumerName))
           | Some None \<Rightarrow> fails (WrapError (Some (Sentinel ErrConsumerNotReady)) (''consumer: '' @ consumerName))
           | Some (Some _) \<Rightarrow> subscribeWithChannel E ctx consumerName q handler)
        })"

definition GetConsumer :: "RabbitMQClient \<Rightarrow> gostring \<Rightarrow> goerror + channel option" where
  "GetConsumer s name =
     (case map_of (consumers s) name of
        None \<Rightarrow> Inl (WrapError (Some (Sentinel ErrConsumerNotFound)) (''consumer: '' @ name))
      | Some ch \<Rightarrow> Inr ch)"

definition IsConsumerReady :: "RabbitMQClient \<Rightarrow> gostring \<Rightarrow> bool" where
  "IsConsumerReady s name =
     (case map_of (consumers s) name of Some (Some _) \<Rightarrow> True | _ \<Rightarrow> False)"

section \<open>Dispatching\<close>

text \<open>The handler in its function literal, with the recovery of a panic.\<close>

definition run_handler :: "env \<Rightarrow> context \<Rightarrow> Delivery \<Rightarrow> handler \<Rightarrow> goerror option client" where
  "run_handler E ctx d handler = do {
     h \<leftarrow> gets history;
     let err = (case handler_end E h handler d of
           HandlerReturns e \<Rightarrow> e
         | HandlerPanics v \<Rightarrow> Some (Errorf (''handler panic: %v'' @ [CHR 0x0A] @ ''%s'') [FStr v, FStr (stack E h)]));
     State_Monad.update (\<lambda>s. s\<lparr>history := (CallHandler handler ctx d, err) # history s\<rparr>);
     State_Monad.return err
   }"

definition dispatchDelivery :: "env \<Rightarrow> context \<Rightarrow> Delivery \<Rightarrow> handler \<Rightarrow> bool \<Rightarrow> unit client" where
  "dispatchDelivery E ctx d handler autoAck = do {
     start \<leftarrow> gets (\<lambda>s. now E (history s) 0);
     handlerErr \<leftarrow> run_handler E ctx d handler;
     t \<leftarrow> gets (\<lambda>s. since E (history s) start);
     with_metrics (RecordConsumerLatency t);
     with_metrics (if handlerErr \<noteq> None then IncrementConsumerMessagesFailed else IncrementConsumerMessagesReceived);
     if autoAck then State_Monad.return ()
     else if handlerErr \<noteq> None then call_ignoring E (Nack d False False)
     else call_ignoring E (Ack d False)
   }"

datatype select = CtxDone | CloseSignal | Delivered Delivery | DeliveriesClosed

text \<open>The loop; the result says whether the goroutine has returned.\<close>

fun dispatch_loop :: "env \<Rightarrow> dispatcher \<Rightarrow> select list \<Rightarrow> bool client" where
  "dispatch_loop E g [] = State_Monad.return False"
| "dispatch_loop E g (Delivered d # outcomes) = do {
     dispatchDelivery E (d_ctx g) d (d_handler g) (d_autoAck g);
     dispatch_loop E g outcomes
   }"
| "dispatch_loop E g (_ # outcomes) = State_Monad.return True"

text \<open>The goroutine: when the loop returns, its deferred calls close the channel and leave the group.\<close>

definition run_dispatcher :: "env \<Rightarrow> dispatcher \<Rightarrow> select list \<Rightarrow> unit client" where
  "run_dispatcher E g outcomes = do {
     ended \<leftarrow> dispatch_loop E g outcomes;
     if ended then do {
       call_ignoring E (CloseChannel (d_channel g));
       State_Monad.update (\<lambda>s. s\<lparr>dispatchers := remove1 g (dispatchers s)\<rparr>)
     } else State_Monad.return ()
   }"

section \<open>What dispatching does\<close>

lemma wp_with_metrics [wp_simps]:
  "wp (with_metrics f) Q s = Q () (s\<lparr>metrics := map_option f (metrics s)\<rparr>)"
  by (simp add: with_metrics_def wp_simps)

text \<open>The channels closed, the deliveries handed to handlers, and those settled, oldest first.\<close>

fun closed_chans :: "history \<Rightarrow> channel list" where
  "closed_chans [] = []"
| "closed_chans ((CloseChannel ch, r) # h) = closed_chans h @ [ch]"
| "closed_chans (_ # h) = closed_chans h"

fun handled :: "history \<Rightarrow> (Delivery \<times> goerror option) list" where
  "handled [] = []"
| "handled ((CallHandler f ctx d, r) # h) = handled h @ [(d, r)]"
| "handled (_ # h) = handled h"

fun settled :: "history \<Rightarrow> (Delivery \<times> bool) list" where
  "settled [] = []"
| "settled ((Ack d multiple, r) # h) = settled h @ [(d, True)]"
| "settled ((Nack d multiple requeue, r) # h) = settled h @ [(d, False)]"
| "settled (_ # h) = settled h"

text \<open>A dispatch changes nothing but the metrics and the history, and opens and closes no channel.\<close>

definition only_dispatches :: "RabbitMQClient \<Rightarrow> RabbitMQClient \<Rightarrow> bool" where
  "only_dispatches s s' \<longleftrightarrow> s' = s\<lparr>metrics := metrics s', history := history s'\<rparr> \<and>
     unclosed (history s') = unclosed (history s) \<and> closed_chans (history s') = closed_chans (history s) \<and>
     live (history s') = live (history s) \<and> orderly (history s') = orderly (history s) \<and>
     (\<forall>n. last_shared n (history s') = last_shared n (history s))"

lemma only_dispatches_refl: "only_dispatches s s"
  by (simp add: only_dispatches_def)

lemma only_dispatches_trans: "only_dispatches s t \<Longrightarrow> only_dispatches t u \<Longrightarrow> only_dispatches s u"
  unfolding only_dispatches_def by (cases s; cases t; cases u) simp

definition dispatch_result :: "env \<Rightarrow> history \<Rightarrow> Delivery \<Rightarrow> handler \<Rightarrow> goerror option" where
  "dispatch_result E h d handler = (case handler_end E h handler d of
       HandlerReturns e \<Rightarrow> e
     | HandlerPanics v \<Rightarrow> Some (Errorf (''handler panic: %v'' @ [CHR 0x0A] @ ''%s'') [FStr v, FStr (stack E h)]))"

lemma wp_run_handler [wp_simps]:
  "wp (run_handler E ctx d handler) Q s =
     Q (dispatch_result E (history s) d handler)
       (s\<lparr>history := (CallHandler handler ctx d, dispatch_result E (history s) d handler) # history s\<rparr>)"
  by (simp add: run_handler_def dispatch_result_def wp_simps Let_def)

lemma dispatchDelivery_wp:
  "wp (dispatchDelivery E ctx d handler autoAck) (\<lambda>_ s'.
     only_dispatches s s' \<and>
     (\<exists>err t. handled (history s') = handled (history s) @ [(d, err)] \<and>
        settled (history s') = settled (history s) @ (if autoAck then [] else [(d, err = None)]) \<and>
        metrics s' = map_option (\<lambda>m. (if err = None then IncrementConsumerMessagesReceived else IncrementConsumerMessagesFailed)
          (RecordConsumerLatency t m)) (metrics s))) s"
  by (cases "metrics s") (auto simp: dispatchDelivery_def wp_simps only_dispatches_def allowed_def)


text \<open>The deliveries before the outcome that ends the loop, and whether there is one.\<close>

fun taken :: "select list \<Rightarrow> Delivery list" where
  "taken (Delivered d # xs) = d # taken xs"
| "taken _ = []"

fun ends :: "select list \<Rightarrow> bool" where
  "ends [] = False"
| "ends (Delivered d # xs) = ends xs"
| "ends (_ # xs) = True"

text \<open>One call of a handler per delivery, in order, and one settlement each by its result.\<close>

definition dispatched :: "bool \<Rightarrow> Delivery list \<Rightarrow> RabbitMQClient \<Rightarrow> RabbitMQClient \<Rightarrow> bool" where
  "dispatched autoAck ds s s' \<longleftrightarrow> (\<exists>rs. map fst rs = ds \<and>
     handled (history s') = handled (history s) @ rs \<and>
     settled (history s') = settled (history s) @ (if autoAck then [] else map (\<lambda>(d, e). (d, e = None)) rs) \<and>
     (\<forall>m. metrics s = Some m \<longrightarrow> (\<exists>m'. metrics s' = Some m' \<and>
        consumerMessagesReceived m' = consumerMessagesReceived m + of_nat (length (filter (\<lambda>(d, e). e = None) rs)) \<and>
        consumerMessagesFailed m' = consumerMessagesFailed m + of_nat (length (filter (\<lambda>(d, e). e \<noteq> None) rs)))))"

lemma dispatched_Nil: "dispatched autoAck [] s s"
  by (simp add: dispatched_def)

lemma dispatched_append:
  assumes "dispatched autoAck ds s t" "dispatched autoAck ds' t u"
  shows "dispatched autoAck (ds @ ds') s u"
proof -
  obtain rs where rs: "map fst rs = ds" "handled (history t) = handled (history s) @ rs"
    "settled (history t) = settled (history s) @ (if autoAck then [] else map (\<lambda>(d, e). (d, e = None)) rs)"
    and m: "\<forall>m. metrics s = Some m \<longrightarrow> (\<exists>m'. metrics t = Some m' \<and>
        consumerMessagesReceived m' = consumerMessagesReceived m + of_nat (length (filter (\<lambda>(d, e). e = None) rs)) \<and>
        consumerMessagesFailed m' = consumerMessagesFailed m + of_nat (length (filter (\<lambda>(d, e). e \<noteq> None) rs)))"
    using assms(1) unfolding dispatched_def by blast
  obtain rs' where rs': "map fst rs' = ds'" "handled (history u) = handled (history t) @ rs'"
    "settled (history u) = settled (history t) @ (if autoAck then [] else map (\<lambda>(d, e). (d, e = None)) rs')"
    and m': "\<forall>m. metrics t = Some m \<longrightarrow> (\<exists>m'. metrics u = Some m' \<and>
        consumerMessagesReceived m' = consumerMessagesReceived m + of_nat (length (filter (\<lambda>(d, e). e = None) rs')) \<and>
        consumerMessagesFailed m' = consumerMessagesFailed m + of_nat (length (filter (\<lambda>(d, e). e \<noteq> None) rs')))"
    using assms(2) unfolding dispatched_def by blast
  show ?thesis
    unfolding dispatched_def
    by (rule exI [of _ "rs @ rs'"]) (use rs rs' m m' in \<open>fastforce simp: algebra_simps\<close>)
qed

lemma dispatchDelivery_dispatched:
  "wp (dispatchDelivery E ctx d handler autoAck)
     (\<lambda>_ s'. only_dispatches s s' \<and> dispatched autoAck [d] s s') s"
proof (rule wp_mono [OF dispatchDelivery_wp], elim conjE exE, intro conjI)
  fix s' :: RabbitMQClient and err t
  assume h: "handled (history s') = handled (history s) @ [(d, err)]"
    "settled (history s') = settled (history s) @ (if autoAck then [] else [(d, err = None)])"
    and m: "metrics s' = map_option (\<lambda>m. (if err = None then IncrementConsumerMessagesReceived else IncrementConsumerMessagesFailed)
       (RecordConsumerLatency t m)) (metrics s)"
  show "dispatched autoAck [d] s s'"
    unfolding dispatched_def
    by (rule exI [of _ "[(d, err)]"]) (use h m in \<open>auto simp: metric_defs\<close>)
qed

lemma dispatch_loop_wp:
  "wp (dispatch_loop E g outcomes) (\<lambda>ended s'. ended = ends outcomes \<and> only_dispatches s s' \<and>
     dispatched (d_autoAck g) (taken outcomes) s s') s"
proof (induction outcomes arbitrary: s)
  case Nil
  show ?case by (simp add: wp_simps only_dispatches_refl dispatched_Nil)
next
  case (Cons x outcomes)
  show ?case
  proof (cases x)
    case (Delivered d)
    show ?thesis
      unfolding Delivered dispatch_loop.simps wp_bind
    proof (rule wp_mono [OF dispatchDelivery_dispatched])
      fix a t assume "only_dispatches s t \<and> dispatched (d_autoAck g) [d] s t"
      then show "wp (dispatch_loop E g outcomes) (\<lambda>ended s'. ended = ends (Delivered d # outcomes) \<and>
          only_dispatches s s' \<and> dispatched (d_autoAck g) (taken (Delivered d # outcomes)) s s') t"
        by (intro wp_mono [OF Cons.IH [of t]])
          (auto intro: only_dispatches_trans dest: dispatched_append)
    qed
  qed (simp_all add: wp_simps only_dispatches_refl dispatched_Nil)
qed


text \<open>No entry is nil.\<close>

definition no_nil :: "'a option list \<Rightarrow> bool" where
  "no_nil xs \<longleftrightarrow> None \<notin> set xs"

lemma consumer_settings_no_nil:
  "no_nil cs \<Longrightarrow> \<exists>a p. consumer_settings n cs = Returns (a, p)"
  by (induction n cs rule: consumer_settings.induct) (auto simp: no_nil_def)

lemma startDispatchLoop_wp:
  assumes "no_nil (Consumers (config s))"
    and live: "\<And>c. connection s = Some c \<Longrightarrow> c \<in> set (live (history s))"
    and "\<And>c h a p. connection s = Some c \<Longrightarrow> \<not> is_closed E (history s) c \<Longrightarrow> opened (history s) c h \<Longrightarrow>
      consumer_settings n (Consumers (config s)) = Returns (a, p) \<Longrightarrow>
      Q (Returns None) (s\<lparr>history := h, dispatchers := dispatchers s @
        [\<lparr>d_ctx = ctx, d_channel = length (history s), d_handler = f, d_autoAck = a\<rparr>]\<rparr>)"
    and "\<And>h e. broker_calls (history s) h \<Longrightarrow> unclosed h = unclosed (history s) \<Longrightarrow>
      IsError (Some e) ErrConsumerNotReady \<or> IsError (Some e) ErrSubscribeFailed \<Longrightarrow> Q (Returns (Some e)) (s\<lparr>history := h\<rparr>)"
  shows "wp (startDispatchLoop E ctx n q f) Q s"
proof -
  obtain a p where set: "consumer_settings n (Consumers (config s)) = Returns (a, p)"
    using consumer_settings_no_nil [OF assms(1)] by blast
  show ?thesis
  proof (cases "\<exists>c. connection s = Some c \<and> \<not> is_closed E (history s) c")
    case False
    then show ?thesis
      using assms(4) [of "history s"] set by (auto simp: startDispatchLoop_def wp_simps split: option.split)
  next
    case True
    then obtain c where c: "connection s = Some c" "\<not> is_closed E (history s) c" by blast
    let ?e = "Sentinel ErrSubscribeFailed"
    show ?thesis
    proof (cases "reply E (history s) (OpenChannel c)")
      case (Some t)
      then show ?thesis
        using c set assms(4) [OF not_opened(1) [OF live [OF c(1)]] not_opened(2)] by (simp add: startDispatchLoop_def wp_simps)
    next
      case None
      let ?ch = "length (history s)"
      have err: "Q (Returns (Some (WrapError (Some (Sentinel ErrSubscribeFailed)) t))) (s\<lparr>history := h\<rparr>)"
        if "broker_calls (history s) h" "unclosed h = unclosed (history s)" for h t
        using assms(4) that by simp
      have consume: "wp (on_subscription E ?ch (Consume ?ch ctx q n a False False False)
          (do { State_Monad.update (\<lambda>s. s\<lparr>dispatchers := dispatchers s @
             [\<lparr>d_ctx = ctx, d_channel = ?ch, d_handler = f, d_autoAck = a\<rparr>]\<rparr>); returns None })) Q (s\<lparr>history := h\<rparr>)"
        if "opened (history s) c h" for h
        using that assms(3) [OF c _ set] err unfolding on_subscription_def
        by (intro on_channel_wp) (simp_all add: wp_simps)
      have "wp (on_subscription E ?ch (Qos ?ch (sint p) 0 False) k) Q (s\<lparr>history := h\<rparr>)"
        if "opened (history s) c h" "\<And>h. opened (history s) c h \<Longrightarrow> wp k Q (s\<lparr>history := h\<rparr>)" for h k
        using that err unfolding on_subscription_def by (intro on_channel_wp) simp_all
      then show ?thesis
        using c set None consume opened_now [OF live [OF c(1)]]
        by (simp add: startDispatchLoop_def wp_simps Let_def)
    qed
  qed
qed

section \<open>Properties\<close>

text \<open>The message handed to the library, and the account of a publication.\<close>

definition message_of :: "gostring \<Rightarrow> Publishing list \<Rightarrow> Publishing \<Rightarrow> bool" where
  "message_of body opts pub \<longleftrightarrow> Body pub = body \<and>
     (case opts of
        [] \<Rightarrow> ContentType pub = ''application/octet-stream'' \<and> DeliveryMode pub = 2
      | p # _ \<Rightarrow> pub = p\<lparr>Body := body, Timestamp := Timestamp pub\<rparr> \<and>
          (time_IsZero (Timestamp p) \<or> Timestamp pub = Timestamp p))"

definition counted :: "goerror option \<Rightarrow> RabbitMQClient \<Rightarrow> RabbitMQClient \<Rightarrow> bool" where
  "counted r s t \<longleftrightarrow> t = s\<lparr>metrics := metrics t, history := history t\<rparr> \<and>
     (case metrics s of
        None \<Rightarrow> metrics t = None
      | Some m \<Rightarrow> (\<exists>m'. metrics t = Some m' \<and>
          producerMessagesSent m' = producerMessagesSent m + (if r = None then 1 else 0) \<and>
          producerMessagesFailed m' = producerMessagesFailed m + (if r = None then 0 else 1)))"

text \<open>
  C10.  \<open>PublishMessageWith\<close> makes at most one call to the broker.  It makes none, and changes
  nothing, when the producer is unknown or not ready, the exchange name is invalid or the
  body is empty, and reports which.  Otherwise it publishes the body once on the channel of
  that producer, in a message made from the first option given, counts it once as sent or
  failed, and returns an error just when the call failed.
\<close>

theorem publish_once:
  "case run_state (PublishMessageWith E ctx name exchange key body opts) s of (err, t) \<Rightarrow>
     (case map_of (producers s) name of
        None \<Rightarrow> IsError err ErrProducerNotFound \<and> t = s
      | Some None \<Rightarrow> IsError err ErrProducerNotReady \<and> t = s
      | Some (Some ch) \<Rightarrow>
          if exchange \<noteq> '''' \<and> validateExchange exchange \<noteq> None then err = validateExchange exchange \<and> t = s
          else if body = '''' then err = Some (Sentinel ErrEmptyMessage) \<and> t = s
          else \<exists>pub r. history t = (PublishWithContext ch ctx exchange key False False pub, r) # history s \<and>
            message_of body opts pub \<and> counted r s t \<and>
            (if r = None then err = None else IsError err ErrPublishMessageFailed))"
proof -
  have pub: "message_of body opts (make_publishing f body opts)" for f
    by (simp add: message_of_def make_publishing_def Let_def split: list.split)
  have core: "wp (publishToChannel E ctx ch exchange key body opts) (\<lambda>err t.
          if exchange \<noteq> '''' \<and> validateExchange exchange \<noteq> None then err = validateExchange exchange \<and> t = s
          else if body = '''' then err = Some (Sentinel ErrEmptyMessage) \<and> t = s
          else \<exists>pub r. history t = (PublishWithContext ch ctx exchange key False False pub, r) # history s \<and>
            message_of body opts pub \<and> counted r s t \<and>
            (if r = None then err = None else IsError err ErrPublishMessageFailed)) s" for ch
    by (cases "metrics s"; cases "validateExchange exchange")
      (auto simp: publishToChannel_def wp_simps Let_def pub counted_def metric_defs split: option.split)
  show ?thesis
  proof (cases "map_of (producers s) name")
    case (Some entry)
    then show ?thesis
      by (cases entry) (rule wp_run, simp add: PublishMessageWith_def wp_simps,
        rule wp_run, simp only: PublishMessageWith_def wp_bind wp_gets option.case core)
  qed (rule wp_run, simp add: PublishMessageWith_def wp_simps)
qed


end
