(* ===== verification/Lifecycle.thy ===== *)
theory Lifecycle
  imports Messaging
begin

text \<open>
  The life of the plugin: configuration, start-up, shut-down and reconnection
  (\<open>client.go\<close>, \<open>runtime_contract.go\<close>, \<open>lifecycle_context.go\<close>).
\<close>

section \<open>Runtime contract\<close>

definition sharedPluginResourceName :: gostring where
  "sharedPluginResourceName = pluginName @ ''.plugin''"
definition sharedReadinessResourceName :: gostring where
  "sharedReadinessResourceName = pluginName @ ''.readiness''"
definition sharedHealthResourceName :: gostring where
  "sharedHealthResourceName = pluginName @ ''.health''"
definition privateReadinessResourceName :: gostring where
  "privateReadinessResourceName = ''readiness''"
definition privateHealthResourceName :: gostring where
  "privateHealthResourceName = ''health''"

definition registerRuntimePluginAlias :: "env \<Rightarrow> unit client" where
  "registerRuntimePluginAlias E = do {
     r \<leftarrow> gets rt;
     if r = None then State_Monad.return ()
     else call_ignoring E (RegisterSharedResource sharedPluginResourceName ResClient)
   }"

definition publishRuntimeContract :: "env \<Rightarrow> bool \<Rightarrow> bool \<Rightarrow> unit client" where
  "publishRuntimeContract E ready healthy = do {
     r \<leftarrow> gets rt;
     if r = None then State_Monad.return ()
     else do {
       call_ignoring E (RegisterSharedResource sharedReadinessResourceName (ResBool ready));
       call_ignoring E (RegisterSharedResource sharedHealthResourceName (ResBool healthy));
       call_ignoring E (RegisterPrivateResource privateReadinessResourceName (ResBool ready));
       call_ignoring E (RegisterPrivateResource privateHealthResourceName (ResBool healthy))
     }
   }"

section \<open>Initialisation\<close>

text \<open>The part after the configuration has been read.\<close>

definition adopt_config :: "env \<Rightarrow> RabbitMQ \<Rightarrow> goerror option outcome client" where
  "adopt_config E cfg =
     (case normalizeRabbitMQConfig (dpb E) (Some cfg) of
        (Some e, _) \<Rightarrow> fails e
      | (None, None) \<Rightarrow> returns None
      | (None, Some cfg) \<Rightarrow>
          (case NewGoroutinePool 10 of
             Panics \<Rightarrow> State_Monad.return Panics
           | Returns p \<Rightarrow> do {
               State_Monad.update (\<lambda>s. s\<lparr>config := cfg, healthChecker := Some NewHealthChecker,
                 connectionManager := Some (NewConnectionManager cfg),
                 retryHandler := Some (NewRetryHandler cfg), goroutinePool := Some p\<rparr>);
               returns None
             }))"

definition InitializeResources :: "env \<Rightarrow> nat option \<Rightarrow> goerror option outcome client" where
  "InitializeResources E r =
     on_err (call E BaseInitializeResources) fails (do {
       State_Monad.update (\<lambda>s. s\<lparr>rt := r\<rparr>);
       h \<leftarrow> gets history;
       if r \<noteq> None \<and> has_config E h then do {
         err \<leftarrow> call E (ScanConfig confPrefix);
         (case err of
            Some e \<Rightarrow>
              if \<not> not_found E e then fails (Errorf_w ''failed to scan RabbitMQ configuration'' e)
              else adopt_config E (scanned E h (defaultRabbitMQConfig (dpb E)))
          | None \<Rightarrow> adopt_config E (scanned E h (defaultRabbitMQConfig (dpb E))))
       } else adopt_config E (defaultRabbitMQConfig (dpb E))
     })"

section \<open>Start-up\<close>

definition unready :: "env \<Rightarrow> goerror \<Rightarrow> goerror option outcome client" where
  "unready E e = do { publishRuntimeContract E False False; fails e }"

text \<open>The managers; the probe, number 0, is \<open>connectionProbe\<close>.\<close>

definition start_managers :: "unit client" where
  "start_managers = do {
     State_Monad.update (\<lambda>s. s\<lparr>healthChecker :=
       map_option (\<lambda>h. HealthChecker_Start (SetProbe (Some 0) h)) (healthChecker s)\<rparr>);
     State_Monad.update (\<lambda>s. s\<lparr>connectionManager := map_option ConnectionManager_Start (connectionManager s)\<rparr>)
   }"

text \<open>\<open>if v is set { RegisterPrivateResource(name, v), error logged }\<close>.\<close>

definition register_private :: "env \<Rightarrow> gostring \<Rightarrow> (RabbitMQClient \<Rightarrow> resource option) \<Rightarrow> unit client" where
  "register_private E name v = do {
     s \<leftarrow> gets (\<lambda>s. s);
     (case v s of
        None \<Rightarrow> State_Monad.return ()
      | Some r \<Rightarrow> call_ignoring E (RegisterPrivateResource name r))
   }"

fun register_all :: "env \<Rightarrow> (gostring \<times> (RabbitMQClient \<Rightarrow> resource option)) list \<Rightarrow> unit client" where
  "register_all E [] = State_Monad.return ()"
| "register_all E ((name, v) # rs) = do { register_private E name v; register_all E rs }"

definition private_resources :: "(gostring \<times> (RabbitMQClient \<Rightarrow> resource option)) list" where
  "private_resources = [
     (''config'', \<lambda>s. Some (ResConfig (config s))),
     (''connection'', \<lambda>s. map_option ResConnection (connection s)),
     (''producers'', \<lambda>s. if producers s \<noteq> [] then Some (ResProducers (producers s)) else None),
     (''consumers'', \<lambda>s. if consumers s \<noteq> [] then Some (ResConsumers (consumers s)) else None),
     (''connection_manager'', \<lambda>s. map_option (\<lambda>_. ResConnectionManager) (connectionManager s)),
     (''health_checker'', \<lambda>s. map_option (\<lambda>_. ResHealthChecker) (healthChecker s)),
     (''retry_handler'', \<lambda>s. map_option (\<lambda>_. ResRetryHandler) (retryHandler s)),
     (''metrics'', \<lambda>s. map_option (\<lambda>_. ResMetrics) (metrics s))]"

definition register_resources :: "env \<Rightarrow> goerror option outcome client \<Rightarrow> goerror option outcome client" where
  "register_resources E k = do {
     r \<leftarrow> gets rt;
     if r = None then k
     else on_err (call E (RegisterSharedResource pluginName ResClient))
       (\<lambda>e. unready E (Errorf_w ''failed to register RabbitMQ shared resource'' e))
       (do {
          registerRuntimePluginAlias E;
          register_all E private_resources;
          k
        })
   }"

definition startupWithContext :: "env \<Rightarrow> context \<Rightarrow> goerror option outcome client" where
  "startupWithContext E ctx =
     on_err (ctxErr E ctx) (\<lambda>e. fails (Errorf_w ''rabbitmq startup canceled before execution'' e))
     (do {
       publishRuntimeContract E False False;
       on_err (connect E) (\<lambda>e. unready E (Errorf_w ''failed to connect to RabbitMQ'' e))
       (on_err (ctxErr E ctx) (\<lambda>e. unready E (Errorf_w ''rabbitmq startup canceled after connect'' e))
       (on_err_panic (initializeProducers E) (\<lambda>e. unready E (Errorf_w ''failed to initialize producers'' e))
       (on_err (ctxErr E ctx) (\<lambda>e. unready E (Errorf_w ''rabbitmq startup canceled after producer init'' e))
       (on_err_panic (initializeConsumers E) (\<lambda>e. unready E (Errorf_w ''failed to initialize consumers'' e))
       (do {
         start_managers;
         register_resources E
           (on_err (gets (CheckHealth E)) (unready E)
             (do { publishRuntimeContract E True True; returns None }))
       })))))
     })"

definition StartupTasks :: "env \<Rightarrow> goerror option outcome client" where
  "StartupTasks E = startupWithContext E Background"

section \<open>Shut-down\<close>

text \<open>\<open>closeOnce.Do(func() { close(r.closeChan) })\<close>.\<close>

definition close_signal :: "goerror option outcome client" where
  "close_signal = do {
     s \<leftarrow> gets (\<lambda>s. s);
     if closeOnceDone s then returns None
     else if closeChanClosed s then State_Monad.return Panics
     else do {
       State_Monad.update (\<lambda>s. s\<lparr>closeChanClosed := True, closeOnceDone := True\<rparr>);
       returns None
     }
   }"

definition stop_checker :: "goerror option outcome client" where
  "stop_checker = do {
     hc \<leftarrow> gets healthChecker;
     (case hc of
        None \<Rightarrow> returns None
      | Some h \<Rightarrow>
          (case HealthChecker_Stop h of
             Panics \<Rightarrow> State_Monad.return Panics
           | Returns h' \<Rightarrow> do {
               State_Monad.update (\<lambda>s. s\<lparr>healthChecker := Some h'\<rparr>);
               returns None
             }))
   }"

text \<open>
  \<open>subscriptionWG.Wait()\<close>: every dispatch goroutine handles the deliveries it still takes
  and then returns, since the close channel is closed.
\<close>

fun drain_each :: "env \<Rightarrow> dispatcher list \<Rightarrow> unit client" where
  "drain_each E [] = State_Monad.return ()"
| "drain_each E (g # gs) = do {
     h \<leftarrow> gets history;
     run_dispatcher E g (map Delivered (inflight E h (d_channel g)) @ [CloseSignal]);
     drain_each E gs
   }"

definition drain :: "env \<Rightarrow> unit client" where
  "drain E = do { gs \<leftarrow> gets dispatchers; drain_each E gs }"

fun close_each :: "env \<Rightarrow> (gostring \<times> channel option) list \<Rightarrow> unit client" where
  "close_each E [] = State_Monad.return ()"
| "close_each E ((n, None) # m) = close_each E m"
| "close_each E ((n, Some ch) # m) = do { call_ignoring E (CloseChannel ch); close_each E m }"

definition close_consumers :: "env \<Rightarrow> unit client" where
  "close_consumers E = do {
     m \<leftarrow> gets (\<lambda>s. map_range E (history s) (consumers s));
     close_each E m;
     State_Monad.update (\<lambda>s. s\<lparr>consumers := []\<rparr>)
   }"

definition close_producers :: "env \<Rightarrow> unit client" where
  "close_producers E = do {
     m \<leftarrow> gets (\<lambda>s. map_range E (history s) (producers s));
     close_each E m;
     State_Monad.update (\<lambda>s. s\<lparr>producers := []\<rparr>)
   }"

definition close_connection :: "env \<Rightarrow> goerror option outcome client" where
  "close_connection E = do {
     conn \<leftarrow> gets connection;
     (case conn of
        None \<Rightarrow> returns None
      | Some c \<Rightarrow> on_err (call E (CloseConnection c)) fails
          (do { State_Monad.update (\<lambda>s. s\<lparr>connection := None\<rparr>); returns None }))
   }"

definition cleanupWithContext :: "env \<Rightarrow> context \<Rightarrow> goerror option outcome client" where
  "cleanupWithContext E ctx =
     on_err (ctxErr E ctx) (\<lambda>e. fails (Errorf_w ''rabbitmq cleanup canceled before execution'' e))
     (do {
       publishRuntimeContract E False False;
       State_Monad.update (\<lambda>s. s\<lparr>closed_flag := True\<rparr>);
       on_err_panic close_signal fails
       (on_err_panic stop_checker fails
       (do {
         State_Monad.update (\<lambda>s. s\<lparr>connectionManager := map_option ConnectionManager_Stop (connectionManager s)\<rparr>);
         drain E;
         State_Monad.update (\<lambda>s. s\<lparr>goroutinePool := map_option Pool_Wait (goroutinePool s)\<rparr>);
         close_consumers E;
         close_producers E;
         close_connection E
       }))
     })"

definition CleanupTasks :: "env \<Rightarrow> goerror option outcome client" where
  "CleanupTasks E = cleanupWithContext E Background"

section \<open>Reconnection\<close>

text \<open>The loop that restarts the subscriptions.\<close>

fun restart_each :: "env \<Rightarrow> subscription list \<Rightarrow> goerror option outcome client" where
  "restart_each E [] = returns None"
| "restart_each E (sub # subs) = do {
     ch \<leftarrow> gets (\<lambda>s. map_of (consumers s) (s_consumerName sub));
     (case ch of
        Some (Some _) \<Rightarrow>
          on_err_panic (startDispatchLoop E Background (s_consumerName sub) (s_queue sub) (s_handler sub))
            (\<lambda>e. fails (Errorf_w (''reconnect: failed to restart subscription '' @ s_consumerName sub) e))
            (restart_each E subs)
      | _ \<Rightarrow> restart_each E subs)
   }"

definition rebuildAfterReconnect :: "env \<Rightarrow> goerror option outcome client" where
  "rebuildAfterReconnect E = do {
     State_Monad.update (\<lambda>s. s\<lparr>producers := []\<rparr>);
     State_Monad.update (\<lambda>s. s\<lparr>consumers := []\<rparr>);
     on_err_panic (initializeProducers E) (\<lambda>e. fails (Errorf_w ''reconnect: failed to rebuild producers'' e))
     (on_err_panic (initializeConsumers E) (\<lambda>e. fails (Errorf_w ''reconnect: failed to rebuild consumers'' e))
     (do { subs \<leftarrow> gets subscriptions; restart_each E subs }))
   }"

text \<open>The closure \<open>connect\<close> registers with the connection manager.\<close>

definition reconnect_callback :: "env \<Rightarrow> (goerror + conn) outcome client" where
  "reconnect_callback E = do {
     r \<leftarrow> dial E;
     (case r of
        Inl e \<Rightarrow> returns (Inl e)
      | Inr c \<Rightarrow> do {
          State_Monad.update (\<lambda>s. s\<lparr>connection := Some c\<rparr>);
          err \<leftarrow> rebuildAfterReconnect E;
          (case err of
             Panics \<Rightarrow> State_Monad.return Panics
           | Returns (Some e) \<Rightarrow> returns (Inl e)
           | Returns None \<Rightarrow> returns (Inr c))
        })
   }"

text \<open>One round of the loop of \<open>watchConnection\<close> with this callback.\<close>

definition reconnect_round :: "env \<Rightarrow> (goerror + conn) outcome client" where
  "reconnect_round E = do {
     r \<leftarrow> reconnect_callback E;
     (case r of
        Returns (Inr c) \<Rightarrow> do {
          State_Monad.update (\<lambda>s. s\<lparr>connectionManager :=
            map_option (\<lambda>m. m\<lparr>cm_connected := True\<rparr>) (connectionManager s)\<rparr>);
          call_ignoring E (NotifyClose c);
          State_Monad.return r
        }
      | _ \<Rightarrow> State_Monad.return r)
   }"

section \<open>Context-aware entry points\<close>

definition InitializeContext :: "env \<Rightarrow> context \<Rightarrow> goerror option client" where
  "InitializeContext E ctx =
     on_err (ctxErr E ctx)
       (\<lambda>e. State_Monad.return (Some (Errorf_w ''rabbitmq initialize canceled before execution'' e)))
       (call E BaseInitialize)"

definition StartContext :: "env \<Rightarrow> context \<Rightarrow> goerror option outcome client" where
  "StartContext E ctx = startupWithContext E ctx"

definition StopContext :: "env \<Rightarrow> context \<Rightarrow> goerror option outcome client" where
  "StopContext E ctx =
     on_err (ctxErr E ctx) (\<lambda>e. fails (Errorf_w ''rabbitmq stop canceled before execution'' e))
       (cleanupWithContext E ctx)"

definition IsContextAware :: bool where
  "IsContextAware = True"

text \<open>The protocol of the base plugin: its flag \<open>ContextLifecycle\<close> and the rest.\<close>

record PluginProtocol =
  ContextLifecycle :: bool
  protocol_other :: nat

definition RabbitMQ_PluginProtocol :: "PluginProtocol \<Rightarrow> PluginProtocol" where
  "RabbitMQ_PluginProtocol base = base\<lparr>ContextLifecycle := True\<rparr>"

section \<open>Contracts of the stages\<close>



lemma history_first:
  fixes s :: RabbitMQClient
  shows "s\<lparr>connection := a, history := h\<rparr> = s\<lparr>history := h, connection := a\<rparr>"
    "s\<lparr>connectionManager := b, history := h\<rparr> = s\<lparr>history := h, connectionManager := b\<rparr>"
    "s\<lparr>healthChecker := d, history := h\<rparr> = s\<lparr>history := h, healthChecker := d\<rparr>"
    "s\<lparr>producers := e, history := h\<rparr> = s\<lparr>history := h, producers := e\<rparr>"
    "s\<lparr>consumers := e, history := h\<rparr> = s\<lparr>history := h, consumers := e\<rparr>"
    "s\<lparr>rt := f, history := h\<rparr> = s\<lparr>history := h, rt := f\<rparr>"
  by simp_all

lemma no_manager: "connectionManager s = None \<Longrightarrow> s\<lparr>connectionManager := None\<rparr> = (s :: RabbitMQClient)"
  by (cases s) simp

lemma no_checker: "healthChecker s = None \<Longrightarrow> s\<lparr>healthChecker := None\<rparr> = (s :: RabbitMQClient)"
  by (cases s) simp

definition same_channels :: "history \<Rightarrow> history \<Rightarrow> bool" where
  "same_channels h h' \<longleftrightarrow> unclosed h' = unclosed h \<and> (\<forall>ch. conn_of h' ch = conn_of h ch) \<and>
     closed_chans h' = closed_chans h \<and> (orderly h \<longrightarrow> orderly h') \<and> live h' = live h"

lemma same_channels_refl [simp]: "same_channels h h"
  by (simp add: same_channels_def)

lemma same_channels_trans: "same_channels h h' \<Longrightarrow> same_channels h' h'' \<Longrightarrow> same_channels h h''"
  by (auto simp: same_channels_def)

lemma same_channels_runtime [simp]:
  "same_channels h h' \<Longrightarrow> same_channels h ((RegisterSharedResource n v, r) # h')"
  "same_channels h h' \<Longrightarrow> same_channels h ((RegisterPrivateResource n v, r) # h')"
  by (simp_all add: same_channels_def allowed_def)

lemma same_channels_Dial [simp]: "same_channels h ((Dial u cfg, Some e) # h)"
  by (simp add: same_channels_def allowed_def)

text \<open>The same after a connection was opened and the client asked to be told of its end.\<close>

definition dialled :: "conn \<Rightarrow> history \<Rightarrow> history \<Rightarrow> bool" where
  "dialled c h h' \<longleftrightarrow> unclosed h' = unclosed h \<and> (\<forall>ch. conn_of h' ch = conn_of h ch) \<and>
     closed_chans h' = closed_chans h \<and> (orderly h \<longrightarrow> orderly h') \<and> live h' = c # live h \<and> c = length h"

lemma dialled_now [simp]: "dialled (length h) h ((Dial u cfg, None) # h)"
  by (simp add: dialled_def allowed_def)

lemma dialled_new: "dialled c h h' \<Longrightarrow> c \<notin> set (live h)"
  using live_bound [of c h] by (auto simp: dialled_def)

lemma dialled_notify: "dialled c h h' \<Longrightarrow> dialled c h ((NotifyClose c, r) # h')"
  by (auto simp: dialled_def allowed_def)

text \<open>The values the runtime was last told.\<close>

definition published :: "bool \<Rightarrow> history \<Rightarrow> bool" where
  "published b h \<longleftrightarrow> last_shared sharedReadinessResourceName h = Some (ResBool b) \<and>
     last_shared sharedHealthResourceName h = Some (ResBool b)"

lemma shared_names [simp]:
  "sharedReadinessResourceName \<noteq> sharedHealthResourceName" "sharedHealthResourceName \<noteq> sharedReadinessResourceName"
  "sharedReadinessResourceName \<noteq> pluginName" "sharedHealthResourceName \<noteq> pluginName"
  "sharedReadinessResourceName \<noteq> sharedPluginResourceName" "sharedHealthResourceName \<noteq> sharedPluginResourceName"
  by (simp_all add: sharedReadinessResourceName_def sharedHealthResourceName_def sharedPluginResourceName_def pluginName_def)

lemma published_shared [simp]:
  "published b ((RegisterSharedResource sharedHealthResourceName (ResBool b),r) # (RegisterSharedResource sharedReadinessResourceName (ResBool b), r') # h)"
  by (simp add: published_def)

lemma published_broker: "broker_calls h h' \<Longrightarrow> published b h' = published b h"
  by (simp add: published_def broker_calls_shared)

lemma publish_wp:
  assumes "\<And>h'. same_channels (history s) h' \<Longrightarrow> (rt s \<noteq> None \<Longrightarrow> published b h') \<Longrightarrow>
     (rt s = None \<Longrightarrow> h' = history s) \<Longrightarrow> Q () (s\<lparr>history := h'\<rparr>)"
  shows "wp (publishRuntimeContract E b b) Q s"
proof (cases "rt s")
  case None
  then show ?thesis using assms [of "history s"] by (simp add: publishRuntimeContract_def wp_simps)
next
  case (Some r)
  then show ?thesis
    by (auto simp: publishRuntimeContract_def wp_simps published_def intro!: assms)
qed

lemma unready_wp:
  assumes "\<And>h'. same_channels (history s) h' \<Longrightarrow> (rt s \<noteq> None \<Longrightarrow> published False h') \<Longrightarrow> Q (Returns (Some e)) (s\<lparr>history := h'\<rparr>)"
  shows "wp (unready E e) Q s"
  unfolding unready_def wp_bind
  by (rule publish_wp) (unfold wp_fails, rule assms)

lemma dial_wp:
  assumes "\<And>h' e. same_channels (history s) h' \<Longrightarrow> Q (Inl e) (s\<lparr>history := h'\<rparr>)"
    and "\<And>h' c. dialled c (history s) h' \<Longrightarrow> Urls (config s) \<noteq> [] \<Longrightarrow>
      validateVirtualHost (VirtualHost (config s)) = None \<Longrightarrow> Q (Inr c) (s\<lparr>history := h'\<rparr>)"
  shows "wp (dial E) Q s"
proof (cases "Urls (config s)")
  case Nil
  then show ?thesis using assms(1) [of "history s"] by (simp add: dial_def wp_simps)
next
  case (Cons u us)
  show ?thesis
  proof (cases "validateVirtualHost (VirtualHost (config s))")
    case (Some e)
    then show ?thesis using Cons assms(1) [of "history s"] by (simp add: dial_def wp_simps)
  next
    case None
    then show ?thesis using Cons assms by (auto simp: dial_def wp_simps split: option.split)
  qed
qed

definition connected_manager :: "conn \<Rightarrow> ConnectionManager \<Rightarrow> ConnectionManager" where
  "connected_manager c m = SetConnectionNotify (Some c) (SetReconnectFunc (Some 0) m)"

lemma connect_wp:
  assumes "\<And>h' e. same_channels (history s) h' \<Longrightarrow> Q (Some e) (s\<lparr>history := h'\<rparr>)"
    and "\<And>h' c. dialled c (history s) h' \<Longrightarrow>
      Q None (s\<lparr>history := h', connection := Some c,
        connectionManager := map_option (connected_manager c) (connectionManager s)\<rparr>)"
  shows "wp (connect E) Q s"
  unfolding connect_def wp_bind
proof (rule dial_wp, goal_cases)
  case (1 h e)
  then show ?case using assms(1) by (simp add: wp_simps)
next
  case (2 h c)
  then show ?case
    using assms(2) [OF 2(1)] assms(2) [OF dialled_notify [OF 2(1)]]
    by (cases "connectionManager s") (simp_all add: wp_simps connected_manager_def comp_def history_first no_manager)
qed

lemma enabled_entries_no_nil:
  "no_nil xs \<Longrightarrow> enabled_entries f xs = Returns (filter f (List.map_filter id xs))"
proof (induction xs)
  case (Cons a xs)
  then show ?case by (cases a) (auto simp: no_nil_def map_filter_simps)
qed (simp add: map_filter_simps)

text \<open>The settings of a configuration that start-up uses.\<close>

definition enabled_producers :: "RabbitMQ \<Rightarrow> Producer list" where
  "enabled_producers cfg = filter p_Enabled (List.map_filter id (Producers cfg))"

definition enabled_consumers :: "RabbitMQ \<Rightarrow> Consumer list" where
  "enabled_consumers cfg = filter c_Enabled (List.map_filter id (Consumers cfg))"

text \<open>Registration with the runtime leaves the channels and the contract alone.\<close>

definition runtime_calls :: "history \<Rightarrow> history \<Rightarrow> bool" where
  "runtime_calls h h' \<longleftrightarrow> same_channels h h' \<and> (\<forall>b. published b h' = published b h)"

lemma published_other:
  "published b ((RegisterPrivateResource n v, r) # h) = published b h"
  "published b ((RegisterSharedResource pluginName v, r) # h) = published b h"
  "published b ((RegisterSharedResource sharedPluginResourceName v, r) # h) = published b h"
  by (simp_all add: published_def)

lemma runtime_calls_steps [simp]:
  "runtime_calls h h"
  "runtime_calls h h' \<Longrightarrow> runtime_calls h ((RegisterPrivateResource n v, r) # h')"
  "runtime_calls h h' \<Longrightarrow> runtime_calls h ((RegisterSharedResource pluginName v, r) # h')"
  "runtime_calls h h' \<Longrightarrow> runtime_calls h ((RegisterSharedResource sharedPluginResourceName v, r) # h')"
  by (simp_all add: runtime_calls_def published_other)

lemma register_private_wp:
  assumes "runtime_calls h (history s)" "\<And>h'. runtime_calls h h' \<Longrightarrow> Q () (s\<lparr>history := h'\<rparr>)"
  shows "wp (register_private E n v) Q s"
proof (cases "v s")
  case None
  then show ?thesis using assms(2) [OF assms(1)] by (simp add: register_private_def wp_simps)
next
  case (Some r)
  then show ?thesis
    using assms(2) [OF runtime_calls_steps(2) [OF assms(1)]] by (simp add: register_private_def wp_simps)
qed

lemma register_all_wp:
  assumes "runtime_calls h (history s)" "\<And>h'. runtime_calls h h' \<Longrightarrow> Q () (s\<lparr>history := h'\<rparr>)"
  shows "wp (register_all E rs) Q s"
  using assms
proof (induction rs arbitrary: s)
  case Nil
  then show ?case using Nil(2) [OF Nil(1)] by (simp add: wp_simps)
next
  case (Cons x rs)
  obtain n v where x: "x = (n, v)" by (cases x)
  show ?case
    unfolding x register_all.simps wp_bind
    by (rule register_private_wp [OF Cons.prems(1)], rule Cons.IH) (simp_all add: Cons.prems(2))
qed

lemma register_resources_wp:
  assumes "\<And>h'. runtime_calls (history s) h' \<Longrightarrow> wp k Q (s\<lparr>history := h'\<rparr>)"
    and "\<And>h' e. same_channels (history s) h' \<Longrightarrow> (rt s \<noteq> None \<Longrightarrow> published False h') \<Longrightarrow> Q (Returns (Some e)) (s\<lparr>history := h'\<rparr>)"
  shows "wp (register_resources E k) Q s"
proof (cases "rt s")
  case None
  then show ?thesis using assms(1) [of "history s"] by (simp add: register_resources_def wp_simps)
next
  case (Some r)
  let ?e = "RegisterSharedResource pluginName ResClient"
  show ?thesis
  proof (cases "reply E (history s) ?e")
    case None
    then show ?thesis using Some
      by (simp add: register_resources_def wp_simps registerRuntimePluginAlias_def)
        (rule register_all_wp [of "history s"], simp_all add: assms(1))
  next
    case (Some t)
    then show ?thesis using \<open>rt s = _\<close>
      by (simp add: register_resources_def wp_simps)
       (rule unready_wp, simp add: assms(2) same_channels_def allowed_def)
  qed
qed


section \<open>Start-up\<close>

text \<open>
  The books of the client: the channels it opened and has not closed are those registered
  as producers and consumers and those of the dispatch goroutines, each once, and the only
  connection it has not closed is the one it holds.
\<close>

definition accounts :: "RabbitMQClient \<Rightarrow> bool" where
  "accounts s \<longleftrightarrow> mset (unclosed (history s)) =
       mset (chans (producers s)) + mset (chans (consumers s)) + mset (map d_channel (dispatchers s)) \<and>
     set (live (history s)) = set_option (connection s)"

definition distinct_names :: "RabbitMQ \<Rightarrow> bool" where
  "distinct_names cfg \<longleftrightarrow> distinct (map p_Name (enabled_producers cfg)) \<and> distinct (map c_Name (enabled_consumers cfg))"

text \<open>The name has an open channel of the connection.\<close>

definition channel_ready :: "conn \<Rightarrow> history \<Rightarrow> channel option gomap \<Rightarrow> gostring \<Rightarrow> bool" where
  "channel_ready c h m n \<longleftrightarrow> (\<exists>ch. map_of m n = Some (Some ch) \<and> ch \<in> set (unclosed h) \<and> conn_of h ch = Some c)"

definition producers_ready :: "conn \<Rightarrow> RabbitMQClient \<Rightarrow> bool" where
  "producers_ready c s \<longleftrightarrow> (\<forall>p \<in> set (enabled_producers (config s)).
     producer_names p = None \<and> channel_ready c (history s) (producers s) (p_Name p))"

definition consumers_ready :: "conn \<Rightarrow> RabbitMQClient \<Rightarrow> bool" where
  "consumers_ready c s \<longleftrightarrow> (\<forall>p \<in> set (enabled_consumers (config s)).
     consumer_names p = None \<and> channel_ready c (history s) (consumers s) (c_Name p))"

lemma channel_ready_mono:
  assumes "channel_ready c h m n" "set (unclosed h) \<subseteq> set (unclosed h')"
    and "\<And>ch. ch < length h \<Longrightarrow> conn_of h' ch = conn_of h ch"
  shows "channel_ready c h' m n"
  using assms unclosed_bound unfolding channel_ready_def by (metis subsetD)

lemma producer_populated:
  "producer_channels.populated c (enabled_producers (config s)) s \<longleftrightarrow> producers_ready c s"
  by (simp add: producer_channels.populated_def producers_ready_def channel_ready_def)

lemma consumer_populated:
  "consumer_channels.populated c (enabled_consumers (config s)) s \<longleftrightarrow> consumers_ready c s"
  by (simp add: consumer_channels.populated_def consumers_ready_def channel_ready_def)

text \<open>How one of the two maps and the history grow in an initialisation loop.\<close>

definition grown :: "gostring list \<Rightarrow> history \<Rightarrow> channel option gomap \<Rightarrow> history \<Rightarrow> channel option gomap \<Rightarrow> bool" where
  "grown names h m h' m' \<longleftrightarrow> broker_calls h h' \<and> set (unclosed h) \<subseteq> set (unclosed h') \<and>
     (\<forall>n. n \<notin> set names \<longrightarrow> map_of m' n = map_of m n) \<and>
     mset (unclosed h) + mset (chans m') \<subseteq># mset (unclosed h') + mset (chans m) \<and>
     (None \<in> snd ` set m' \<longrightarrow> None \<in> snd ` set m) \<and>
     (distinct names \<and> set names \<inter> fst ` set m = {} \<longrightarrow>
        mset (unclosed h') + mset (chans m) = mset (unclosed h) + mset (chans m'))"

lemma initializeProducers_wp:
  assumes "connection s = Some c" "c \<in> set (live (history s))" "no_nil (Producers (config s))"
    and "\<And>h m. grown (map p_Name (enabled_producers (config s))) (history s) (producers s) h m \<Longrightarrow>
      producers_ready c (s\<lparr>history := h, producers := m\<rparr>) \<Longrightarrow> wp k Q (s\<lparr>history := h, producers := m\<rparr>)"
    and "\<And>h m e. grown (map p_Name (enabled_producers (config s))) (history s) (producers s) h m \<Longrightarrow>
      wp (f e) Q (s\<lparr>history := h, producers := m\<rparr>)"
  shows "wp (on_err_panic (initializeProducers E) f k) Q s"
proof -
  let ?xs = "enabled_producers (config s)"
  have "wp (initializeProducers E) (\<lambda>r s'. producer_channels.extended s ?xs s' \<and>
      (r = Returns None \<and> producer_channels.populated c ?xs s' \<or> (\<exists>e. r = Returns (Some e)))) s"
    using producer_channels.create_each_wp [OF assms(1,2)]
    by (simp add: initializeProducers_def wp_simps GetEnabledProducers_def enabled_entries_no_nil [OF assms(3)] enabled_producers_def)
  then show ?thesis
    unfolding wp_on_err_panic
  proof (rule wp_mono)
    fix r :: "goerror option outcome" and s'
    assume a: "producer_channels.extended s ?xs s' \<and>
      (r = Returns None \<and> producer_channels.populated c ?xs s' \<or> (\<exists>e. r = Returns (Some e)))"
    then have s': "s' = s\<lparr>history := history s', producers := producers s'\<rparr>"
      and g: "grown (map p_Name ?xs) (history s) (producers s) (history s') (producers s')"
      by (simp_all add: producer_channels.extended_def grown_def)
    have "config s' = config s" by (subst s') simp
    with a have "r = Returns None \<and> producers_ready c (s\<lparr>history := history s', producers := producers s'\<rparr>) \<or>
        (\<exists>e. r = Returns (Some e))"
      unfolding s' [symmetric] producer_populated [symmetric] by simp
    with assms(4,5) [OF g] show "case r of Panics \<Rightarrow> Q Panics s' | Returns e \<Rightarrow>
        (case e of None \<Rightarrow> wp k Q s' | Some e \<Rightarrow> wp (f e) Q s')"
      unfolding s' [symmetric] by auto
  qed
qed

lemma initializeConsumers_wp:
  assumes "connection s = Some c" "c \<in> set (live (history s))" "no_nil (Consumers (config s))"
    and "\<And>h m. grown (map c_Name (enabled_consumers (config s))) (history s) (consumers s) h m \<Longrightarrow>
      consumers_ready c (s\<lparr>history := h, consumers := m\<rparr>) \<Longrightarrow> wp k Q (s\<lparr>history := h, consumers := m\<rparr>)"
    and "\<And>h m e. grown (map c_Name (enabled_consumers (config s))) (history s) (consumers s) h m \<Longrightarrow>
      wp (f e) Q (s\<lparr>history := h, consumers := m\<rparr>)"
  shows "wp (on_err_panic (initializeConsumers E) f k) Q s"
proof -
  let ?xs = "enabled_consumers (config s)"
  have "wp (initializeConsumers E) (\<lambda>r s'. consumer_channels.extended s ?xs s' \<and>
      (r = Returns None \<and> consumer_channels.populated c ?xs s' \<or> (\<exists>e. r = Returns (Some e)))) s"
    using consumer_channels.create_each_wp [OF assms(1,2)]
    by (simp add: initializeConsumers_def wp_simps GetEnabledConsumers_def enabled_entries_no_nil [OF assms(3)] enabled_consumers_def)
  then show ?thesis
    unfolding wp_on_err_panic
  proof (rule wp_mono)
    fix r :: "goerror option outcome" and s'
    assume a: "consumer_channels.extended s ?xs s' \<and>
      (r = Returns None \<and> consumer_channels.populated c ?xs s' \<or> (\<exists>e. r = Returns (Some e)))"
    then have s': "s' = s\<lparr>history := history s', consumers := consumers s'\<rparr>"
      and g: "grown (map c_Name ?xs) (history s) (consumers s) (history s') (consumers s')"
      by (simp_all add: consumer_channels.extended_def grown_def)
    have "config s' = config s" by (subst s') simp
    with a have "r = Returns None \<and> consumers_ready c (s\<lparr>history := history s', consumers := consumers s'\<rparr>) \<or>
        (\<exists>e. r = Returns (Some e))"
      unfolding s' [symmetric] consumer_populated [symmetric] by simp
    with assms(4,5) [OF g] show "case r of Panics \<Rightarrow> Q Panics s' | Returns e \<Rightarrow>
        (case e of None \<Rightarrow> wp k Q s' | Some e \<Rightarrow> wp (f e) Q s')"
      unfolding s' [symmetric] by auto
  qed
qed

section \<open>The invariant of the client\<close>

text \<open>The channels a client owns: those in its maps and those of its dispatch goroutines.\<close>

definition owned :: "RabbitMQClient \<Rightarrow> channel multiset" where
  "owned s = mset (chans (producers s)) + mset (chans (consumers s)) + mset (map d_channel (dispatchers s))"

lemma accounts_owned:
  "accounts s \<longleftrightarrow> mset (unclosed (history s)) = owned s \<and> set (live (history s)) = set_option (connection s)"
  by (simp add: accounts_def owned_def)

text \<open>
  Every owned channel is open and owned once, no map has a nil channel, the connection is
  one that was not closed, the flags of the shut-down agree, the health checker can be
  stopped, the configuration has no nil entry, and no call was made on anything closed.
\<close>

definition client_inv :: "RabbitMQClient \<Rightarrow> bool" where
  "client_inv s \<longleftrightarrow> owned s \<subseteq># mset (unclosed (history s)) \<and>
     None \<notin> snd ` set (producers s) \<and> None \<notin> snd ` set (consumers s) \<and>
     (\<forall>c. connection s = Some c \<longrightarrow> c \<in> set (live (history s))) \<and>
     closeOnceDone s = closeChanClosed s \<and> closed_flag s = closeChanClosed s \<and>
     (\<forall>h. healthChecker s = Some h \<longrightarrow> HealthChecker_Stop h \<noteq> Panics) \<and>
     no_nil (Producers (config s)) \<and> no_nil (Consumers (config s)) \<and> orderly (history s)"

lemma inv_history:
  "client_inv s \<Longrightarrow> same_channels (history s) h \<Longrightarrow> client_inv (s\<lparr>history := h\<rparr>)"
  by (auto simp: client_inv_def same_channels_def owned_def)

lemma inv_calls:
  "client_inv s \<Longrightarrow> broker_calls (history s) h \<Longrightarrow> unclosed h = unclosed (history s) \<Longrightarrow> client_inv (s\<lparr>history := h\<rparr>)"
  by (auto simp: client_inv_def broker_calls_def owned_def)

lemma owned_grows:
  fixes u :: "channel multiset"
  assumes "u + p' \<subseteq># u' + p" "p + d \<subseteq># u"
  shows "p' + d \<subseteq># u'"
  using subset_mset_transfer [of u p' u' p d "{#}"] assms by (simp add: ac_simps)

lemma inv_producers:
  assumes "client_inv s" "grown names (history s) (producers s) h m"
  shows "client_inv (s\<lparr>history := h, producers := m\<rparr>)"
proof -
  have "mset (chans m) + (mset (chans (consumers s)) + mset (map d_channel (dispatchers s))) \<subseteq># mset (unclosed h)"
    by (rule owned_grows [of "mset (unclosed (history s))" _ _ "mset (chans (producers s))"])
      (use assms in \<open>simp_all add: grown_def client_inv_def owned_def ac_simps\<close>)
  then have "owned (s\<lparr>history := h, producers := m\<rparr>) \<subseteq># mset (unclosed h)" by (simp add: owned_def ac_simps)
  then show ?thesis using assms by (auto simp: client_inv_def grown_def broker_calls_def)
qed

lemma inv_consumers:
  assumes "client_inv s" "grown names (history s) (consumers s) h m"
  shows "client_inv (s\<lparr>history := h, consumers := m\<rparr>)"
proof -
  have "mset (chans m) + (mset (chans (producers s)) + mset (map d_channel (dispatchers s))) \<subseteq># mset (unclosed h)"
    by (rule owned_grows [of "mset (unclosed (history s))" _ _ "mset (chans (consumers s))"])
      (use assms in \<open>simp_all add: grown_def client_inv_def owned_def ac_simps\<close>)
  then have "owned (s\<lparr>history := h, consumers := m\<rparr>) \<subseteq># mset (unclosed h)" by (simp add: owned_def ac_simps)
  then show ?thesis using assms by (auto simp: client_inv_def grown_def broker_calls_def)
qed

lemma inv_dialled:
  "client_inv s \<Longrightarrow> dialled c (history s) h \<Longrightarrow> client_inv (s\<lparr>history := h, connection := Some c\<rparr>)"
  by (auto simp: client_inv_def dialled_def owned_def)

lemma inv_connection:
  "client_inv s \<Longrightarrow> c \<in> set (live (history s)) \<Longrightarrow> client_inv (s\<lparr>connection := Some c\<rparr>)"
  by (auto simp: client_inv_def owned_def)

lemma inv_manager: "client_inv (s\<lparr>connectionManager := m\<rparr>) = client_inv s"
  by (simp add: client_inv_def owned_def)

lemma inv_checker:
  "client_inv s \<Longrightarrow> (\<And>h. c = Some h \<Longrightarrow> HealthChecker_Stop h \<noteq> Panics) \<Longrightarrow> client_inv (s\<lparr>healthChecker := c\<rparr>)"
  by (simp add: client_inv_def owned_def)

lemma inv_live: "client_inv s \<Longrightarrow> connection s = Some c \<Longrightarrow> c \<in> set (live (history s))"
  and inv_no_nil: "client_inv s \<Longrightarrow> no_nil (Producers (config s))" "client_inv s \<Longrightarrow> no_nil (Consumers (config s))"
  by (simp_all add: client_inv_def)

lemma Start_stoppable [simp]:
  "HealthChecker_Stop (HealthChecker_Start (SetProbe p h)) = Panics \<longleftrightarrow> HealthChecker_Stop h = Panics"
  by (simp add: HealthChecker_Stop_def HealthChecker_Start_def SetProbe_def)

section \<open>Start-up, stage by stage\<close>

text \<open>What a stage of start-up keeps of the state it began with.\<close>

definition starting :: "RabbitMQClient \<Rightarrow> RabbitMQClient \<Rightarrow> bool" where
  "starting s0 s \<longleftrightarrow> client_inv s \<and>
     config s = config s0 \<and> rt s = rt s0 \<and> dispatchers s = dispatchers s0 \<and>
     subscriptions s = subscriptions s0 \<and> closed_flag s = closed_flag s0 \<and>
     closeChanClosed s = closeChanClosed s0 \<and> closeOnceDone s = closeOnceDone s0 \<and>
     metrics s = metrics s0 \<and> goroutinePool s = goroutinePool s0 \<and>
     set (live (history s0)) \<subseteq> set (live (history s)) \<and>
     (connection s = None \<longrightarrow> connection s0 = None) \<and> (healthChecker s = None) = (healthChecker s0 = None) \<and>
     (accounts s0 \<and> connection s0 = None \<and> producers s0 = [] \<and> consumers s0 = [] \<and> distinct_names (config s0) \<longrightarrow>
        accounts s)"

definition startup_post :: "RabbitMQClient \<Rightarrow> goerror option outcome \<Rightarrow> RabbitMQClient \<Rightarrow> bool" where
  "startup_post s0 r s \<longleftrightarrow> starting s0 s \<and>
     (r = Returns None \<and> (rt s0 \<noteq> None \<longrightarrow> published True (history s)) \<and>
        (\<exists>c m. connection s = Some c \<and> c \<notin> set (live (history s0)) \<and> producers_ready c s \<and> consumers_ready c s \<and>
           connectionManager s = Some m \<and> ConnectionManager_IsConnected m \<and>
           (\<forall>h. healthChecker s = Some h \<longrightarrow> IsHealthy h)) \<or>
      (\<exists>e. r = Returns (Some e)) \<and> (s = s0 \<or> (rt s0 \<noteq> None \<longrightarrow> published False (history s))))"

lemma grown_live: "grown names h m h' m' \<Longrightarrow> live h' = live h"
  by (simp add: grown_def broker_calls_live)

lemma accounts_producers:
  "grown names (history s) (producers s) h m \<Longrightarrow> distinct names \<Longrightarrow> producers s = [] \<Longrightarrow> accounts s \<Longrightarrow>
     accounts (s\<lparr>history := h, producers := m\<rparr>)"
  using grown_live [of names "history s" "producers s" h m] by (simp add: accounts_def grown_def)

lemma accounts_consumers:
  "grown names (history s) (consumers s) h m \<Longrightarrow> distinct names \<Longrightarrow> consumers s = [] \<Longrightarrow> accounts s \<Longrightarrow>
     accounts (s\<lparr>history := h, consumers := m\<rparr>)"
  using grown_live [of names "history s" "consumers s" h m] by (simp add: accounts_def grown_def)

lemma accounts_managers [simp]:
  "accounts (s\<lparr>healthChecker := c\<rparr>) = accounts s" "accounts (s\<lparr>connectionManager := m\<rparr>) = accounts s"
  by (simp_all add: accounts_def)

lemma accounts_dialled:
  "dialled c (history s) h \<Longrightarrow> connection s = None \<Longrightarrow> accounts s \<Longrightarrow> accounts (s\<lparr>history := h, connection := Some c\<rparr>)"
  by (simp add: accounts_def dialled_def)

lemma starting_history: "starting s0 s \<Longrightarrow> same_channels (history s) h \<Longrightarrow> starting s0 (s\<lparr>history := h\<rparr>)"
  using inv_history by (auto simp: starting_def accounts_def same_channels_def)

lemma unready_post:
  assumes "starting s0 s"
  shows "wp (unready E e) (startup_post s0) s"
  by (rule unready_wp) (use assms starting_history [OF assms] in \<open>auto simp: startup_post_def starting_def\<close>)

lemma ready_history:
  assumes "same_channels (history s) h"
  shows "producers_ready c (s\<lparr>history := h\<rparr>) = producers_ready c s"
    "consumers_ready c (s\<lparr>history := h\<rparr>) = consumers_ready c s"
  using assms by (simp_all add: producers_ready_def consumers_ready_def channel_ready_def same_channels_def)

lemma CheckHealth_ok:
  "CheckHealth E s = None \<Longrightarrow> \<exists>m. connectionManager s = Some m \<and> ConnectionManager_IsConnected m \<and>
     (\<forall>h. healthChecker s = Some h \<longrightarrow> IsHealthy h)"
  by (auto simp: CheckHealth_def split: option.splits if_splits)

lemma wp_returns_fun: "wp (returns a) Q = Q (Returns a)"
  by (rule ext) (simp add: wp_simps)

lemma finish_wp:
  assumes "starting s0 s" "connection s = Some c" "producers_ready c s" "consumers_ready c s"
    and new: "c \<notin> set (live (history s0))"
  shows "wp (on_err (gets (CheckHealth E)) (unready E) (do { publishRuntimeContract E True True; returns None }))
     (startup_post s0) s"
proof (cases "CheckHealth E s")
  case (Some e)
  then show ?thesis using unready_post [OF assms(1)] by (simp add: wp_simps)
next
  case None
  have "wp (publishRuntimeContract E True True) (\<lambda>_. startup_post s0 (Returns None)) s"
  proof (rule publish_wp)
    fix h assume "same_channels (history s) h" "rt s \<noteq> None \<Longrightarrow> published True h"
    then show "startup_post s0 (Returns None) (s\<lparr>history := h\<rparr>)"
      using assms CheckHealth_ok [OF None] starting_history [OF assms(1), of h]
      by (simp add: startup_post_def ready_history) (simp add: starting_def)
  qed
  then show ?thesis using None by (simp add: wp_simps wp_returns_fun)
qed

lemma managers_wp:
  assumes "starting s0 s" "connection s = Some c" "producers_ready c s" "consumers_ready c s"
    and new: "c \<notin> set (live (history s0))"
  shows "wp (do {
      start_managers;
      register_resources E
        (on_err (gets (CheckHealth E)) (unready E) (do { publishRuntimeContract E True True; returns None }))
    }) (startup_post s0) s"
proof -
  let ?s = "s\<lparr>healthChecker := map_option (\<lambda>h. HealthChecker_Start (SetProbe (Some 0) h)) (healthChecker s),
      connectionManager := map_option ConnectionManager_Start (connectionManager s)\<rparr>"
  have "client_inv ?s"
    unfolding inv_manager by (rule inv_checker) (use assms(1) in \<open>auto simp: starting_def client_inv_def\<close>)
  then have s: "starting s0 ?s" "connection ?s = Some c" "producers_ready c ?s" "consumers_ready c ?s"
    using assms by (simp_all add: starting_def producers_ready_def consumers_ready_def)
  have "wp (register_resources E
        (on_err (gets (CheckHealth E)) (unready E) (do { publishRuntimeContract E True True; returns None })))
     (startup_post s0) ?s"
  proof (rule register_resources_wp)
    fix h assume "runtime_calls (history ?s) h"
    then have "same_channels (history ?s) h" by (simp add: runtime_calls_def)
    with s new show "wp (on_err (gets (CheckHealth E)) (unready E) (do { publishRuntimeContract E True True; returns None }))
        (startup_post s0) (?s\<lparr>history := h\<rparr>)"
      by (intro finish_wp [where c = c] starting_history) (simp_all only: ready_history, simp_all)
  next
    fix h e assume "same_channels (history ?s) h" "rt ?s \<noteq> None \<Longrightarrow> published False h"
    then show "startup_post s0 (Returns (Some e)) (?s\<lparr>history := h\<rparr>)"
      using starting_history [OF s(1), of h] s(1) by (auto simp: startup_post_def starting_def)
  qed
  then show ?thesis by (simp add: start_managers_def wp_simps)
qed


lemma consumers_stage:
  assumes "starting s0 s" "connection s = Some c" "producers_ready c s"
    and "consumers s = consumers s0" and new: "c \<notin> set (live (history s0))"
  shows "wp (on_err_panic (initializeConsumers E) (\<lambda>e. unready E (Errorf_w ''failed to initialize consumers'' e))
     (do { start_managers; register_resources E
         (on_err (gets (CheckHealth E)) (unready E) (do { publishRuntimeContract E True True; returns None })) }))
     (startup_post s0) s"
proof (rule initializeConsumers_wp [OF assms(2) inv_live inv_no_nil(2)])
  show inv: "client_inv s" "client_inv s" "connection s = Some c" using assms(1,2) by (simp_all add: starting_def)
  fix h m
  let ?s = "s\<lparr>history := h, consumers := m\<rparr>"
  assume g: "grown (map c_Name (enabled_consumers (config s))) (history s) (consumers s) h m"
  have st: "starting s0 ?s"
    using assms(1,4) inv_consumers [OF inv(1) g] grown_live [OF g] accounts_consumers [OF g]
    by (simp add: starting_def distinct_names_def)
  show "wp (unready E (Errorf_w ''failed to initialize consumers'' e)) (startup_post s0) ?s" for e
    using st by (rule unready_post)
  have "producers_ready c ?s"
    using assms(3) g channel_ready_mono [of c "history s" _ _ h] broker_calls_conn [of "history s" h]
    by (auto simp: producers_ready_def grown_def)
  then show "consumers_ready c ?s \<Longrightarrow> wp (do { start_managers; register_resources E
         (on_err (gets (CheckHealth E)) (unready E) (do { publishRuntimeContract E True True; returns None })) })
     (startup_post s0) ?s"
    using st assms(2) new by (intro managers_wp [where c = c]) simp_all
qed

lemma producers_stage:
  assumes "starting s0 s" "connection s = Some c"
    and "producers s = producers s0" "consumers s = consumers s0"
    and k: "\<And>s. starting s0 s \<Longrightarrow> connection s = Some c \<Longrightarrow> producers_ready c s \<Longrightarrow>
      consumers s = consumers s0 \<Longrightarrow> wp k (startup_post s0) s"
  shows "wp (on_err_panic (initializeProducers E) (\<lambda>e. unready E (Errorf_w ''failed to initialize producers'' e)) k)
     (startup_post s0) s"
proof (rule initializeProducers_wp [OF assms(2) inv_live inv_no_nil(1)])
  show inv: "client_inv s" "client_inv s" "connection s = Some c" using assms(1,2) by (simp_all add: starting_def)
  fix h m
  let ?s = "s\<lparr>history := h, producers := m\<rparr>"
  assume g: "grown (map p_Name (enabled_producers (config s))) (history s) (producers s) h m"
  have st: "starting s0 ?s"
    using assms(1,3) inv_producers [OF inv(1) g] grown_live [OF g] accounts_producers [OF g]
    by (simp add: starting_def distinct_names_def)
  show "wp (unready E (Errorf_w ''failed to initialize producers'' e)) (startup_post s0) ?s" for e
    using st by (rule unready_post)
  show "producers_ready c ?s \<Longrightarrow> wp k (startup_post s0) ?s" using st assms by (intro k) simp_all
qed

lemma connect_stage:
  assumes "starting s0 s" "producers s = producers s0" "consumers s = consumers s0"
    and "connection s = connection s0"
    and k: "\<And>s c. starting s0 s \<Longrightarrow> connection s = Some c \<Longrightarrow> producers s = producers s0 \<Longrightarrow>
      consumers s = consumers s0 \<Longrightarrow> c \<notin> set (live (history s0)) \<Longrightarrow> wp k (startup_post s0) s"
  shows "wp (on_err (connect E) (\<lambda>e. unready E (Errorf_w ''failed to connect to RabbitMQ'' e)) k) (startup_post s0) s"
  unfolding wp_on_err
proof (rule connect_wp)
  fix h e assume "same_channels (history s) h"
  from starting_history [OF assms(1) this]
  show "case Some e of None \<Rightarrow> wp k (startup_post s0) (s\<lparr>history := h\<rparr>)
      | Some e \<Rightarrow> wp (unready E (Errorf_w ''failed to connect to RabbitMQ'' e)) (startup_post s0) (s\<lparr>history := h\<rparr>)"
    by (simp add: unready_post)
next
  fix h c assume d: "dialled c (history s) h"
  let ?s = "s\<lparr>history := h, connection := Some c, connectionManager := map_option (connected_manager c) (connectionManager s)\<rparr>"
  have "starting s0 ?s"
    using assms(1,4) inv_dialled [OF _ d] accounts_dialled [OF d] d
    by (simp add: starting_def inv_manager) (auto simp: dialled_def)
  moreover have "c \<notin> set (live (history s0))"
    using dialled_new [OF d] assms(1) unfolding starting_def by blast
  ultimately have "wp k (startup_post s0) ?s" using assms(2,3) by (intro k) simp_all
  then show "case None of None \<Rightarrow> wp k (startup_post s0) ?s
      | Some e \<Rightarrow> wp (unready E (Errorf_w ''failed to connect to RabbitMQ'' e)) (startup_post s0) ?s" by simp
qed

lemma ctx_ended:
  assumes "\<And>n e. ctx = Ctx n \<Longrightarrow> ctx_err E (history s) n = Some e \<Longrightarrow> wp (f e) Q s" "wp k Q s"
  shows "wp (on_err (ctxErr E ctx) f k) Q s"
  using assms by (cases ctx) (auto simp: wp_on_err wp_case_context split: option.split)

lemma ctx_stage:
  assumes "\<And>e. wp (f e) Q s" "wp k Q s"
  shows "wp (on_err (ctxErr E ctx) f k) Q s"
  by (rule ctx_ended) (rule assms)+

lemma startup_wp:
  assumes "client_inv s"
  shows "wp (startupWithContext E ctx) (startup_post s) s"
proof -
  have refl: "starting s s" using assms by (simp add: starting_def)
  show ?thesis
    unfolding startupWithContext_def
  proof (rule ctx_stage, goal_cases)
    case (1 e)
    show ?case using refl by (simp add: wp_simps startup_post_def)
  next
    case 2
    show ?case
      unfolding wp_bind
    proof (rule publish_wp, rule connect_stage, goal_cases)
      case (1 h)
      then show ?case using starting_history [OF refl] by blast
    next
      case (5 h t c)
      show ?case
      proof (rule ctx_stage [OF unready_post [OF 5(4)]], rule producers_stage [OF 5(4-7)], goal_cases)
        case (1 u)
        then show ?case using 5(8) by (intro ctx_stage unready_post consumers_stage)
      qed
    qed simp_all
  qed
qed

section \<open>Shut-down, stage by stage\<close>

text \<open>The history grew by calls that close just these channels and do not touch the runtime.\<close>

definition torn :: "history \<Rightarrow> channel multiset \<Rightarrow> history \<Rightarrow> bool" where
  "torn h cs h' \<longleftrightarrow> mset (unclosed h') = mset (unclosed h) - cs \<and>
     mset (closed_chans h') = mset (closed_chans h) + cs \<and>
     live h' = live h \<and> (orderly h \<longrightarrow> orderly h') \<and> (\<forall>n. last_shared n h' = last_shared n h)"

lemma torn_refl [simp]: "torn h {#} h"
  by (simp add: torn_def)

lemma torn_trans: "torn h a h' \<Longrightarrow> torn h' b h'' \<Longrightarrow> torn h (a + b) h''"
  by (simp add: torn_def)

lemma torn_close:
  assumes "ch \<in> set (unclosed h)"
  shows "torn h {#ch#} ((CloseChannel ch, r) # h)"
proof -
  have "filter (\<lambda>x. x \<noteq> ch) (unclosed h) = remove1 ch (unclosed h)"
    using distinct_remove1_removeAll [OF unclosed_distinct, of ch h]
    by (simp add: removeAll_filter_not_eq) (rule filter_cong, auto)
  then show ?thesis using assms by (simp add: torn_def allowed_def)
qed

lemma torn_dispatch: "only_dispatches s s' \<Longrightarrow> torn (history s) {#} (history s')"
  by (simp add: only_dispatches_def torn_def)

lemma close_each_wp:
  assumes "mset (chans m) \<subseteq># mset (unclosed (history s))"
    and "\<And>h. torn (history s) (mset (chans m)) h \<Longrightarrow> Q () (s\<lparr>history := h\<rparr>)"
  shows "wp (close_each E m) Q s"
  using assms
proof (induction E m arbitrary: s rule: close_each.induct)
  case (1 E)
  from 1(2) [of "history s"] show ?case by (simp add: wp_simps chans_def map_filter_simps)
next
  case (2 E n m)
  then show ?case by (simp add: chans_def map_filter_simps)
next
  case (3 E n ch m)
  let ?h = "(CloseChannel ch, map_option External (reply E (history s) (CloseChannel ch))) # history s"
  have c: "chans ((n, Some ch) # m) = ch # chans m" by (simp add: chans_def map_filter_simps)
  have "ch \<in># mset (unclosed (history s))" using 3(2) unfolding c by (simp add: insert_subset_eq_iff)
  then have t: "torn (history s) {#ch#} ?h" by (simp add: torn_close)
  have "wp (close_each E m) Q (s\<lparr>history := ?h\<rparr>)"
  proof (rule 3(1), goal_cases)
    case 1
    have "mset (unclosed ?h) = mset (unclosed (history s)) - {#ch#}" using t by (simp only: torn_def)
    then show ?case using 3(2) unfolding c by (simp add: insert_subset_eq_iff)
  next
    case (2 h)
    then have "torn (history s) (mset (chans ((n, Some ch) # m))) h"
      using torn_trans [OF t] unfolding c by simp
    from 3(3) [OF this] show ?case by simp
  qed
  then show ?case by (simp add: wp_simps)
qed

lemma chans_range [simp]: "mset (chans (map_range E h m)) = mset (chans m)"
proof -
  have "mset (map_range E h m) = mset m" by (simp add: map_range_def)
  then have "image_mset the (filter_mset (\<lambda>x. x \<noteq> None) (image_mset snd (mset (map_range E h m)))) =
      image_mset the (filter_mset (\<lambda>x. x \<noteq> None) (image_mset snd (mset m)))" by simp
  moreover have "mset (chans xs) = image_mset the (filter_mset (\<lambda>x. x \<noteq> None) (image_mset snd (mset xs)))" for xs
    by (induction xs) (auto simp: chans_def map_filter_simps split: option.splits)
  ultimately show ?thesis by simp
qed

lemma run_dispatcher_wp:
  assumes "ends outcomes" "d_channel g \<in> set (unclosed (history s))"
    and "\<And>m h. torn (history s) {#d_channel g#} h \<Longrightarrow>
      Q () (s\<lparr>metrics := m, history := h, dispatchers := remove1 g (dispatchers s)\<rparr>)"
  shows "wp (run_dispatcher E g outcomes) Q s"
  unfolding run_dispatcher_def wp_bind
proof (rule wp_mono [OF dispatch_loop_wp], elim conjE)
  fix ended t
  assume "ended = ends outcomes" and o: "only_dispatches s t"
  let ?h = "(CloseChannel (d_channel g), map_option External (reply E (history t) (CloseChannel (d_channel g)))) # history t"
  have "torn (history t) {#d_channel g#} ?h" using o assms(2) by (intro torn_close) (simp add: only_dispatches_def)
  then have "torn (history s) {#d_channel g#} ?h" using torn_trans [OF torn_dispatch [OF o]] by fastforce
  moreover have t: "t = s\<lparr>metrics := metrics t, history := history t\<rparr>" using o by (simp add: only_dispatches_def)
  have "dispatchers t = dispatchers s" by (subst t) simp
  moreover have "t\<lparr>history := ?h, dispatchers := d\<rparr> = s\<lparr>metrics := metrics t, history := ?h, dispatchers := d\<rparr>" for d
    by (subst t) simp
  ultimately show "wp (if ended then do { call_ignoring E (CloseChannel (d_channel g));
      State_Monad.update (\<lambda>s. s\<lparr>dispatchers := remove1 g (dispatchers s)\<rparr>) } else State_Monad.return ()) Q t"
    using assms(1,3) \<open>ended = _\<close> by (simp add: wp_simps)
qed

lemma ends_close [simp]: "ends (map Delivered ds @ [CloseSignal])"
  by (induction ds) simp_all

lemma drain_each_wp:
  assumes "dispatchers s = gs" "mset (map d_channel gs) \<subseteq># mset (unclosed (history s))"
    and "\<And>m h. torn (history s) (mset (map d_channel gs)) h \<Longrightarrow>
      Q () (s\<lparr>metrics := m, history := h, dispatchers := []\<rparr>)"
  shows "wp (drain_each E gs) Q s"
  using assms
proof (induction gs arbitrary: s)
  case Nil
  have "s\<lparr>metrics := metrics s, history := history s, dispatchers := []\<rparr> = s" using Nil(1) by (cases s) simp
  with Nil(3) [of "history s" "metrics s"] show ?case by (simp add: wp_simps)
next
  case (Cons g gs)
  have in_s: "d_channel g \<in> set (unclosed (history s))" using Cons.prems(2) by (auto dest: mset_subset_eqD)
  have "wp (run_dispatcher E g (map Delivered (inflight E (history s) (d_channel g)) @ [CloseSignal])) (\<lambda>_. wp (drain_each E gs) Q) s"
  proof (rule run_dispatcher_wp [OF ends_close in_s], rule Cons.IH)
    fix m h assume t: "torn (history s) {#d_channel g#} h"
    let ?s = "s\<lparr>metrics := m, history := h, dispatchers := remove1 g (dispatchers s)\<rparr>"
    show "dispatchers ?s = gs" using Cons.prems(1) by simp
    show "mset (map d_channel gs) \<subseteq># mset (unclosed (history ?s))"
      using t Cons.prems(2) by (simp add: torn_def insert_subset_eq_iff)
    fix m' h' assume "torn (history ?s) (mset (map d_channel gs)) h'"
    then have "torn (history s) (mset (map d_channel (g # gs))) h'" using torn_trans [OF t] by simp
    from Cons.prems(3) [OF this, of m'] show "Q () (?s\<lparr>metrics := m', history := h', dispatchers := []\<rparr>)" by simp
  qed
  then show ?case by (simp add: wp_simps)
qed

lemma close_signal_wp:
  assumes "closeOnceDone s = closeChanClosed s" "Q (Returns None) (s\<lparr>closeChanClosed := True, closeOnceDone := True\<rparr>)"
  shows "wp close_signal Q s"
proof (cases "closeOnceDone s")
  case True
  then have "s\<lparr>closeChanClosed := True, closeOnceDone := True\<rparr> = s" using assms(1) by (cases s) simp
  then show ?thesis using True assms(2) by (simp add: close_signal_def wp_simps)
qed (use assms in \<open>simp add: close_signal_def wp_simps\<close>)

lemma Stop_twice: "HealthChecker_Stop h = Returns h' \<Longrightarrow> HealthChecker_Stop h' = Returns h'"
  by (auto simp: HealthChecker_Stop_def split: if_splits)

text \<open>A stopped health checker: another \<open>Stop\<close> does nothing.\<close>

definition checker_stopped :: "HealthChecker option \<Rightarrow> bool" where
  "checker_stopped c \<longleftrightarrow> (\<forall>h. c = Some h \<longrightarrow> HealthChecker_Stop h = Returns h)"

lemma stop_checker_wp:
  assumes "\<And>h. healthChecker s = Some h \<Longrightarrow> HealthChecker_Stop h \<noteq> Panics"
    and "\<And>c. checker_stopped c \<Longrightarrow> (c = None) = (healthChecker s = None) \<Longrightarrow> Q (Returns None) (s\<lparr>healthChecker := c\<rparr>)"
  shows "wp stop_checker Q s"
proof (cases "healthChecker s")
  case None
  with assms(2) [of None] show ?thesis by (simp add: stop_checker_def wp_simps no_checker checker_stopped_def)
next
  case (Some h)
  then obtain h' where h': "HealthChecker_Stop h = Returns h'" using assms(1) by (cases "HealthChecker_Stop h") auto
  then have "checker_stopped (Some h')" by (simp add: checker_stopped_def Stop_twice)
  then show ?thesis using assms(2) [of "Some h'"] Some h' by (simp add: stop_checker_def wp_simps)
qed

text \<open>
  What shut-down leaves: nothing owned, everything that was owned closed once, the runtime
  told, and the connection closed unless closing it failed.
\<close>

definition cleanup_post :: "RabbitMQClient \<Rightarrow> goerror option outcome \<Rightarrow> RabbitMQClient \<Rightarrow> bool" where
  "cleanup_post s0 r s \<longleftrightarrow> client_inv s \<and>
     producers s = [] \<and> consumers s = [] \<and> dispatchers s = [] \<and> closed_flag s \<and>
     config s = config s0 \<and> subscriptions s = subscriptions s0 \<and> checker_stopped (healthChecker s) \<and>
     connectionManager s = map_option ConnectionManager_Stop (connectionManager s0) \<and>
     goroutinePool s = map_option Pool_Wait (goroutinePool s0) \<and>
     mset (unclosed (history s)) = mset (unclosed (history s0)) - owned s0 \<and>
     mset (closed_chans (history s)) = mset (closed_chans (history s0)) + owned s0 \<and>
     (rt s0 \<noteq> None \<longrightarrow> published False (history s)) \<and>
     (r = Returns None \<and> connection s = None \<and> set (live (history s)) = set (live (history s0)) - set_option (connection s0) \<or>
      (\<exists>t. r = Returns (Some (External t)) \<and> connection s = connection s0 \<and> connection s0 \<noteq> None \<and>
        live (history s) = live (history s0)))"

lemma close_connection_wp:
  assumes "connection s = None \<Longrightarrow> Q (Returns None) s"
    and "\<And>c. connection s = Some c \<Longrightarrow> Q (Returns None) (s\<lparr>history := (CloseConnection c, None) # history s, connection := None\<rparr>)"
    and "\<And>c t. connection s = Some c \<Longrightarrow> Q (Returns (Some (External t))) (s\<lparr>history := (CloseConnection c, Some (External t)) # history s\<rparr>)"
  shows "wp (close_connection E) Q s"
proof (cases "connection s")
  case (Some c)
  then show ?thesis using assms(2,3)
    by (cases "reply E (history s) (CloseConnection c)") (simp_all add: close_connection_def wp_simps)
qed (use assms(1) in \<open>simp add: close_connection_def wp_simps\<close>)

text \<open>The state in which the connection is closed, as the stages before leave it.\<close>

definition torn_down :: "RabbitMQClient \<Rightarrow> RabbitMQClient \<Rightarrow> bool" where
  "torn_down s0 s \<longleftrightarrow> client_inv s \<and>
     producers s = [] \<and> consumers s = [] \<and> dispatchers s = [] \<and> closed_flag s \<and> connection s = connection s0 \<and>
     live (history s) = live (history s0) \<and>
     config s = config s0 \<and> subscriptions s = subscriptions s0 \<and> checker_stopped (healthChecker s) \<and>
     connectionManager s = map_option ConnectionManager_Stop (connectionManager s0) \<and>
     goroutinePool s = map_option Pool_Wait (goroutinePool s0) \<and>
     mset (unclosed (history s)) = mset (unclosed (history s0)) - owned s0 \<and>
     mset (closed_chans (history s)) = mset (closed_chans (history s0)) + owned s0 \<and>
     (rt s0 \<noteq> None \<longrightarrow> published False (history s))"

lemma finish_cleanup:
  assumes "torn_down s0 s"
  shows "wp (close_connection E) (cleanup_post s0) s"
proof (rule close_connection_wp)
  show "connection s = None \<Longrightarrow> cleanup_post s0 (Returns None) s"
    using assms by (simp add: torn_down_def cleanup_post_def)
  fix c t assume "connection s = Some c"
  moreover from this assms have "connection s0 = Some c" by (simp add: torn_down_def)
  ultimately show "cleanup_post s0 (Returns None) (s\<lparr>history := (CloseConnection c, None) # history s, connection := None\<rparr>)"
    and "cleanup_post s0 (Returns (Some (External t))) (s\<lparr>history := (CloseConnection c, Some (External t)) # history s\<rparr>)"
    using assms by (auto simp: torn_down_def cleanup_post_def client_inv_def owned_def allowed_def published_def)
qed

text \<open>The stages between: the goroutines have been told to stop.\<close>

lemma teardown_wp:
  assumes inv: "client_inv s" and "closed_flag s" "checker_stopped (healthChecker s)"
    and "rt s \<noteq> None \<Longrightarrow> published False (history s)"
    and s0: "rt s0 = rt s" "connection s0 = connection s" "config s0 = config s" "subscriptions s0 = subscriptions s"
      "owned s0 = owned s" "mset (unclosed (history s0)) = mset (unclosed (history s))" 
      "mset (closed_chans (history s0)) = mset (closed_chans (history s))" "connectionManager s0 = connectionManager s"
      "live (history s0) = live (history s)" "goroutinePool s0 = goroutinePool s"
  shows "wp (do {
     State_Monad.update (\<lambda>s. s\<lparr>connectionManager := map_option ConnectionManager_Stop (connectionManager s)\<rparr>);
     drain E;
     State_Monad.update (\<lambda>s. s\<lparr>goroutinePool := map_option Pool_Wait (goroutinePool s)\<rparr>);
     close_consumers E;
     close_producers E;
     close_connection E
   }) (cleanup_post s0) s"
proof -
  let ?D = "mset (map d_channel (dispatchers s))" and ?C = "mset (chans (consumers s))" and ?P = "mset (chans (producers s))"
  have sub: "?D + ?C + ?P \<subseteq># mset (unclosed (history s))" using inv by (simp add: client_inv_def owned_def ac_simps)
  note parts = subset_parts [OF sub]
  have all: "torn_down s0 (s\<lparr>connectionManager := map_option ConnectionManager_Stop (connectionManager s), metrics := m,
      dispatchers := [], goroutinePool := map_option Pool_Wait (goroutinePool s), consumers := [], history := h, producers := []\<rparr>)"
    if "torn (history s) (?D + ?C + ?P) h" for m h
  proof -
    have t: "torn (history s) (owned s) h" using that by (simp add: owned_def ac_simps)
    show ?thesis
      unfolding torn_down_def client_inv_def
      using t assms by (simp add: torn_def client_inv_def published_def) (simp add: owned_def)
  qed
  show ?thesis
    unfolding wp_bind wp_update drain_def wp_gets
  proof (rule drain_each_wp, goal_cases)
    case (3 m h)
    then have h: "torn (history s) ?D h" by simp
    show ?case
      unfolding wp_bind wp_update close_consumers_def wp_gets
    proof (rule close_each_wp, goal_cases)
      case 1
      then show ?case using h parts by (simp add: torn_def)
    next
      case (2 h')
      then have h': "torn (history s) (?D + ?C) h'" using torn_trans [OF h] by simp
      show ?case
        unfolding wp_bind wp_update close_producers_def wp_gets
      proof (rule close_each_wp, goal_cases)
        case 1
        then show ?case using h' parts by (simp add: torn_def)
      next
        case (2 h'')
        then have "torn (history s) (?D + ?C + ?P) h''" using torn_trans [OF h'] by simp
        from finish_cleanup [OF all [OF this]] show ?case unfolding wp_update by simp
      qed
    qed
  qed (use parts in simp_all)
qed

lemma signal_inv:
  "client_inv s \<Longrightarrow> checker_stopped c \<Longrightarrow>
     client_inv (s\<lparr>closed_flag := True, closeChanClosed := True, closeOnceDone := True, healthChecker := c\<rparr>)"
  by (auto simp: client_inv_def owned_def checker_stopped_def)

lemma cleanup_wp:
  assumes "client_inv s"
    and "\<And>n e. ctx = Ctx n \<Longrightarrow> ctx_err E (history s) n = Some e \<Longrightarrow>
      Q (Returns (Some (Errorf_w ''rabbitmq cleanup canceled before execution'' e))) s"
    and "\<And>r t. cleanup_post s r t \<Longrightarrow> Q r t"
  shows "wp (cleanupWithContext E ctx) Q s"
  unfolding cleanupWithContext_def
proof (rule ctx_ended, goal_cases)
  case (1 n e)
  then show ?case using assms(2) by (simp add: wp_simps)
next
  case 2
  show ?case
    unfolding wp_bind
  proof (rule publish_wp, unfold wp_update wp_on_err_panic, rule close_signal_wp, goal_cases)
    case (1 h)
    then show ?case using assms(1) by (simp add: client_inv_def)
  next
    case (2 h)
    let ?s = "s\<lparr>history := h, closed_flag := True, closeChanClosed := True, closeOnceDone := True\<rparr>"
    show ?case
      unfolding outcome.case option.case wp_on_err_panic
    proof (rule stop_checker_wp, goal_cases)
      case (1 hc)
      then show ?case using assms(1) by (simp add: client_inv_def)
    next
      case (2 c)
      have "client_inv (?s\<lparr>healthChecker := c\<rparr>)" by (rule signal_inv [OF inv_history [OF assms(1)]]) (use \<open>same_channels _ _\<close> 2 in simp_all)
      then show ?case
        unfolding outcome.case option.case
        using \<open>same_channels _ _\<close> \<open>_ \<Longrightarrow> published False h\<close> 2
        by (intro wp_mono [OF teardown_wp] assms(3)) (simp_all add: same_channels_def owned_def)
    qed
  qed
qed

lemma cleanup_background_wp: "client_inv s \<Longrightarrow> wp (CleanupTasks E) (cleanup_post s) s"
  unfolding CleanupTasks_def by (rule cleanup_wp) simp_all

end
