(* ===== verification/System.thy ===== *)
theory System
  imports Lifecycle
begin

text \<open>
  The client as a whole: any sequence of calls of its methods, of checks by its health
  checker, of reconnections by its connection manager and of rounds of its dispatch
  goroutines, with any behaviour of the broker, the runtime and the handlers.
\<close>

section \<open>Steps\<close>

text \<open>A health check, with \<open>connectionProbe\<close> as the probe.\<close>

definition health_tick :: "env \<Rightarrow> unit client" where
  "health_tick E = do {
     hc \<leftarrow> gets healthChecker;
     (case hc of
        None \<Rightarrow> State_Monad.return ()
      | Some h \<Rightarrow> do {
          err \<leftarrow> (if hc_probe h \<noteq> None then connectionProbe E else State_Monad.return None);
          State_Monad.update (\<lambda>s. s\<lparr>healthChecker :=
            map_option (performHealthCheck (\<lambda>_. err) (now E (history s) 0)) (healthChecker s)\<rparr>)
        })
   }"

datatype client_call =
    CallInitialize "nat option"
  | CallInitializeContext "context"
  | CallStart "context"
  | CallStop "context"
  | CallPublish "context" gostring gostring gostring "Publishing list"
  | CallPublishWith "context" gostring gostring gostring gostring "Publishing list"
  | CallSubscribe "context" gostring handler
  | CallSubscribeWith "context" gostring gostring handler
  | HealthTick
  | Reconnect
  | Dispatch dispatcher "select list"

text \<open>The call; the result says whether it panicked.\<close>

fun perform :: "env \<Rightarrow> client_call \<Rightarrow> bool client" where
  "perform E (CallInitialize r) = do { x \<leftarrow> InitializeResources E r; State_Monad.return (x = Panics) }"
| "perform E (CallInitializeContext ctx) = do { _ \<leftarrow> InitializeContext E ctx; State_Monad.return False }"
| "perform E (CallStart ctx) = do { x \<leftarrow> StartContext E ctx; State_Monad.return (x = Panics) }"
| "perform E (CallStop ctx) = do { x \<leftarrow> StopContext E ctx; State_Monad.return (x = Panics) }"
| "perform E (CallPublish ctx exchange key body opts) =
     do { _ \<leftarrow> PublishMessage E ctx exchange key body opts; State_Monad.return False }"
| "perform E (CallPublishWith ctx name exchange key body opts) =
     do { _ \<leftarrow> PublishMessageWith E ctx name exchange key body opts; State_Monad.return False }"
| "perform E (CallSubscribe ctx q f) = do { x \<leftarrow> Subscribe E ctx q f; State_Monad.return (x = Panics) }"
| "perform E (CallSubscribeWith ctx name q f) =
     do { x \<leftarrow> SubscribeWith E ctx name q f; State_Monad.return (x = Panics) }"
| "perform E HealthTick = do { _ \<leftarrow> health_tick E; State_Monad.return False }"
| "perform E Reconnect = do { x \<leftarrow> reconnect_round E; State_Monad.return (x = Panics) }"
| "perform E (Dispatch g outcomes) = do { _ \<leftarrow> run_dispatcher E g outcomes; State_Monad.return False }"

text \<open>
  The methods can be called at any time; the goroutines run once they have been launched,
  and a dispatch goroutine sees the close signal only when there is one.
\<close>

fun enabled :: "RabbitMQClient \<Rightarrow> client_call \<Rightarrow> bool" where
  "enabled s HealthTick \<longleftrightarrow> (case healthChecker s of None \<Rightarrow> False | Some h \<Rightarrow> hc_runners h \<noteq> {#})"
| "enabled s Reconnect \<longleftrightarrow> (case connectionManager s of None \<Rightarrow> False | Some m \<Rightarrow> cm_reconnect m \<noteq> None)"
| "enabled s (Dispatch g outcomes) \<longleftrightarrow> g \<in> set (dispatchers s) \<and> (CloseSignal \<in> set outcomes \<longrightarrow> closeChanClosed s)"
| "enabled s _ \<longleftrightarrow> True"

inductive client_step :: "env \<Rightarrow> RabbitMQClient \<Rightarrow> RabbitMQClient \<Rightarrow> bool" for E :: env where
  performed: "enabled s c \<Longrightarrow> run_state (perform E c) s = (p, t) \<Longrightarrow> client_step E s t"

section \<open>Every step keeps the invariant\<close>

lemma inv_new: "client_inv (NewRabbitMQClient E)"
  by (simp add: client_inv_def NewRabbitMQClient_def owned_def no_nil_def defaultRabbitMQConfig_def)

lemma no_nil_rel: "list_all2 (rel_option R) xs ys \<Longrightarrow> no_nil ys = no_nil xs"
  by (induction rule: list_all2_induct) (auto simp: no_nil_def option.rel_sel)

lemma normalize_no_nil:
  assumes "normalizeRabbitMQConfig D (Some cfg) = (None, Some cfg')"
  shows "no_nil (Producers cfg')" "no_nil (Consumers cfg')"
proof -
  have "ok_config cfg" using assms normalize_error_iff [of D cfg] by simp
  then have "no_nil (Producers cfg)" "no_nil (Consumers cfg)" by (auto simp: ok_config_def no_nil_def)
  then show "no_nil (Producers cfg')" "no_nil (Consumers cfg')"
    using normalize_keeps [OF assms] no_nil_rel by (auto simp: keeps_config_def)
qed

lemma initialize_inv:
  assumes "client_inv s"
  shows "wp (InitializeResources E r) (\<lambda>x t. x \<noteq> Panics \<and> client_inv t) s"
proof -
  have adopt: "wp (adopt_config E cfg) (\<lambda>x t. x \<noteq> Panics \<and> client_inv t) t" if "client_inv t" for cfg t
  proof (cases "normalizeRabbitMQConfig (dpb E) (Some cfg)")
    case (Pair e cfg')
    then show ?thesis
      using that normalize_no_nil [of "dpb E" cfg]
      by (auto simp: adopt_config_def wp_simps NewGoroutinePool_def client_inv_def owned_def
          NewHealthChecker_def HealthChecker_Stop_def split: option.split)
  qed
  show ?thesis
    unfolding InitializeResources_def
    by (simp add: wp_simps split: option.split, safe intro!: adopt)
      (use assms in \<open>auto simp: client_inv_def owned_def allowed_def\<close>)
qed

lemma publish_channel_inv:
  assumes "client_inv s" "ch \<in> set (unclosed (history s))"
  shows "wp (publishToChannel E ctx ch exchange key body opts) (\<lambda>_ t. client_inv t) s"
  using assms
  by (simp add: publishToChannel_def wp_simps Let_def client_inv_def owned_def allowed_def split: option.split)

lemma owned_open:
  assumes "client_inv s"
  shows "(n, Some ch) \<in> set (producers s) \<Longrightarrow> ch \<in> set (unclosed (history s))"
    "(n, Some ch) \<in> set (consumers s) \<Longrightarrow> ch \<in> set (unclosed (history s))"
    "g \<in> set (dispatchers s) \<Longrightarrow> d_channel g \<in> set (unclosed (history s))"
proof -
  have "set_mset (owned s) \<subseteq> set (unclosed (history s))"
    using assms set_mset_mono [of "owned s" "mset (unclosed (history s))"] by (simp add: client_inv_def)
  moreover have "ch \<in> set (chans m)" if "(n, Some ch) \<in> set m" for m
    using that by (force simp: chans_def List.map_filter_def)
  ultimately show "(n, Some ch) \<in> set (producers s) \<Longrightarrow> ch \<in> set (unclosed (history s))"
    "(n, Some ch) \<in> set (consumers s) \<Longrightarrow> ch \<in> set (unclosed (history s))"
    "g \<in> set (dispatchers s) \<Longrightarrow> d_channel g \<in> set (unclosed (history s))"
    by (auto simp: owned_def)
qed

lemma first_entry_in: "first_entry E h m = Some (n, ch) \<Longrightarrow> (n, Some ch) \<in> set m"
  unfolding first_entry_def
  by (auto split: list.splits option.splits) (metis list.set_intros(1) set_map_range)

lemma publish_inv:
  assumes "client_inv s"
  shows "wp (PublishMessage E ctx exchange key body opts) (\<lambda>_ t. client_inv t) s"
    "wp (PublishMessageWith E ctx name exchange key body opts) (\<lambda>_ t. client_inv t) s"
  using assms
  by (auto simp: PublishMessage_def PublishMessageWith_def wp_simps dest!: first_entry_in map_of_SomeD
      intro!: publish_channel_inv intro: owned_open(1) split: option.split)

lemma inv_dispatcher:
  assumes "client_inv s" "opened (history s) c h" "d_channel g = length (history s)"
  shows "client_inv (s\<lparr>history := h, dispatchers := dispatchers s @ [g]\<rparr>)"
proof -
  have "owned (s\<lparr>history := h, dispatchers := dispatchers s @ [g]\<rparr>) = add_mset (length (history s)) (owned s)"
    using assms(3) by (simp add: owned_def)
  moreover have "mset (unclosed h) = add_mset (length (history s)) (mset (unclosed (history s)))"
    using assms(2) by (simp add: opened_def)
  ultimately show ?thesis
    using assms(1,2) by (auto simp: client_inv_def opened_def broker_calls_def)
qed

lemma startDispatchLoop_inv:
  assumes "client_inv s"
  shows "wp (startDispatchLoop E ctx n q f) (\<lambda>x t. x \<noteq> Panics \<and> client_inv t) s"
  by (rule startDispatchLoop_wp [OF inv_no_nil(2) [OF assms] inv_live [OF assms]])
    (use assms in \<open>auto intro: inv_dispatcher inv_calls\<close>)

lemma inv_subscriptions [simp]: "client_inv (s\<lparr>subscriptions := x\<rparr>) = client_inv s"
  by (simp add: client_inv_def owned_def)

lemma subscribe_inv:
  assumes "client_inv s"
  shows "wp (Subscribe E ctx q f) (\<lambda>x t. x \<noteq> Panics \<and> client_inv t) s"
    "wp (SubscribeWith E ctx name q f) (\<lambda>x t. x \<noteq> Panics \<and> client_inv t) s"
  using assms
  by (auto simp: Subscribe_def SubscribeWith_def subscribeWithChannel_def wp_simps
      intro!: startDispatchLoop_inv split: option.split)

lemma probe_wp:
  assumes "client_inv s" "\<And>err h. client_inv (s\<lparr>history := h\<rparr>) \<Longrightarrow> Q err (s\<lparr>history := h\<rparr>)"
  shows "wp (connectionProbe E) Q s"
proof (cases "\<exists>c. \<not> closed_flag s \<and> connection s = Some c \<and> \<not> is_closed E (history s) c")
  case True
  then obtain c where c: "\<not> closed_flag s" "connection s = Some c" "\<not> is_closed E (history s) c" by blast
  then have "client_inv (s\<lparr>history := (OpenChannel c, Some e) # history s\<rparr>)"
    "client_inv (s\<lparr>history := (CloseChannel (length (history s)), r) # (OpenChannel c, None) # history s\<rparr>)" for e r
    using assms(1) by (auto simp: client_inv_def owned_def allowed_def)
  then show ?thesis
    using assms(2) c by (simp add: connectionProbe_def wp_simps split: option.split)
next
  case False
  then show ?thesis
    using assms(1) assms(2) [of "history s"] by (auto simp: connectionProbe_def wp_simps split: option.split)
qed

lemma check_stoppable [simp]:
  "HealthChecker_Stop (performHealthCheck f t h) = Panics \<longleftrightarrow> HealthChecker_Stop h = Panics"
  by (simp add: HealthChecker_Stop_def performHealthCheck_def)

lemma tick_inv:
  assumes "client_inv s"
  shows "wp (health_tick E) (\<lambda>_ t. client_inv t) s"
proof -
  have "client_inv (t\<lparr>healthChecker := Some (performHealthCheck f x h)\<rparr>)"
    if "client_inv t" "healthChecker t = Some h" for t f x h
    by (rule inv_checker [OF that(1)]) (use that in \<open>auto simp: client_inv_def\<close>)
  then show ?thesis
    using assms by (auto simp: health_tick_def wp_simps split: option.split intro!: probe_wp)
qed

lemma inv_dispatched:
  assumes "client_inv s" "only_dispatches s t"
  shows "client_inv t"
proof -
  have t: "t = s\<lparr>metrics := metrics t, history := history t\<rparr>" and h: "unclosed (history t) = unclosed (history s)"
    "live (history t) = live (history s)" "orderly (history t) = orderly (history s)"
    using assms(2) by (simp_all add: only_dispatches_def)
  have "client_inv (s\<lparr>metrics := m, history := history t\<rparr>)" for m
    using assms(1) h by (simp add: client_inv_def owned_def)
  then show ?thesis by (subst t)
qed

lemma dispatch_inv:
  assumes "client_inv s" "g \<in> set (dispatchers s)"
  shows "wp (run_dispatcher E g outcomes) (\<lambda>_ t. client_inv t) s"
proof (cases "ends outcomes")
  case True
  show ?thesis
  proof (rule run_dispatcher_wp [OF True owned_open(3) [OF assms]])
    fix m h assume "torn (history s) {#d_channel g#} h"
    moreover have "owned s = add_mset (d_channel g) (owned (s\<lparr>dispatchers := remove1 g (dispatchers s)\<rparr>))"
      using assms(2) by (simp add: owned_def flip: image_mset_add_mset)
    ultimately show "client_inv (s\<lparr>metrics := m, history := h, dispatchers := remove1 g (dispatchers s)\<rparr>)"
      using assms(1) by (auto simp: client_inv_def torn_def owned_def insert_subset_eq_iff)
  qed
next
  case False
  then show ?thesis
    unfolding run_dispatcher_def wp_bind
    by (intro wp_mono [OF dispatch_loop_wp]) (auto simp: wp_simps intro: inv_dispatched [OF assms(1)])
qed

section \<open>Reconnection\<close>

text \<open>A dispatch goroutine that serves the subscription on an open channel of the connection.\<close>

definition serves :: "conn \<Rightarrow> history \<Rightarrow> subscription \<Rightarrow> dispatcher \<Rightarrow> bool" where
  "serves c h sub g \<longleftrightarrow> d_ctx g = Background \<and> d_handler g = s_handler sub \<and>
     d_channel g \<in> set (unclosed h) \<and> conn_of h (d_channel g) = Some c"

lemma serves_mono:
  "serves c h sub g \<Longrightarrow> broker_calls h h' \<Longrightarrow> set (unclosed h) \<subseteq> set (unclosed h') \<Longrightarrow> serves c h' sub g"
  using unclosed_bound [of "d_channel g" h] broker_calls_conn [of h h' "d_channel g"] by (auto simp: serves_def)

text \<open>What restarting subscriptions leaves: new goroutines, one for each if all could be started.\<close>

definition restarted :: "conn \<Rightarrow> subscription list \<Rightarrow> RabbitMQClient \<Rightarrow> goerror option outcome \<Rightarrow> RabbitMQClient \<Rightarrow> bool" where
  "restarted c subs s x t \<longleftrightarrow> client_inv t \<and> x \<noteq> Panics \<and> broker_calls (history s) (history t) \<and>
     set (unclosed (history s)) \<subseteq> set (unclosed (history t)) \<and>
     (\<exists>new. t = s\<lparr>history := history t, dispatchers := dispatchers s @ new\<rparr> \<and>
        (x = Returns None \<longrightarrow> list_all2 (serves c (history t)) subs new))"

lemma restarted_step:
  assumes h: "opened (history s) c h" and g: "d_channel g = length (history s)" "d_ctx g = Background" "d_handler g = s_handler sub"
    and r: "restarted c subs (s\<lparr>history := h, dispatchers := dispatchers s @ [g]\<rparr>) x t"
  shows "restarted c (sub # subs) s x t"
proof -
  obtain new where t: "t = s\<lparr>history := history t, dispatchers := dispatchers s @ g # new\<rparr>"
    and new: "x = Returns None \<longrightarrow> list_all2 (serves c (history t)) subs new"
    using r by (auto simp: restarted_def)
  have ht: "broker_calls h (history t)" "set (unclosed h) \<subseteq> set (unclosed (history t))"
    using r by (simp_all add: restarted_def)
  have "serves c h sub g" using h g by (simp add: serves_def opened_def)
  then have "serves c (history t) sub g" using ht by (rule serves_mono)
  then have "x = Returns None \<longrightarrow> list_all2 (serves c (history t)) (sub # subs) (g # new)" using new by simp
  moreover have "broker_calls (history s) (history t)" "set (unclosed (history s)) \<subseteq> set (unclosed (history t))"
    using h ht broker_calls_trans by (auto simp: opened_def)
  ultimately show ?thesis
    using r t unfolding restarted_def by blast
qed

lemma restarted_failed:
  assumes "client_inv s" "broker_calls (history s) h" "unclosed h = unclosed (history s)"
  shows "restarted c subs s (Returns (Some e)) (s\<lparr>history := h\<rparr>)"
  using assms inv_calls [OF assms] unfolding restarted_def
  by (intro conjI exI [of _ "[]"]) simp_all

lemma restart_wp:
  assumes "client_inv s" "connection s = Some c"
  shows "wp (restart_each E subs) (restarted c (filter (\<lambda>sub. IsConsumerReady s (s_consumerName sub)) subs) s) s"
  using assms
proof (induction subs arbitrary: s)
  case Nil
  then show ?case by (auto simp: wp_simps restarted_def intro!: exI [of _ "[]"])
next
  case (Cons sub subs)
  let ?subs = "filter (\<lambda>sub. IsConsumerReady s (s_consumerName sub)) subs"
  show ?case
  proof (cases "IsConsumerReady s (s_consumerName sub)")
    case False
    then show ?thesis
      using Cons by (auto simp: wp_simps IsConsumerReady_def split: option.splits)
  next
    case True
    have "wp (on_err_panic (startDispatchLoop E Background (s_consumerName sub) (s_queue sub) (s_handler sub))
            (\<lambda>e. fails (Errorf_w (''reconnect: failed to restart subscription '' @ s_consumerName sub) e))
            (restart_each E subs)) (restarted c (sub # ?subs) s) s"
      unfolding wp_on_err_panic
    proof (rule startDispatchLoop_wp [OF inv_no_nil(2) [OF Cons.prems(1)] inv_live [OF Cons.prems(1)]], assumption, goal_cases)
      case (1 c' h a p)
      let ?g = "\<lparr>d_ctx = Background, d_channel = length (history s), d_handler = s_handler sub, d_autoAck = a\<rparr>"
      let ?s = "s\<lparr>history := h, dispatchers := dispatchers s @ [?g]\<rparr>"
      have h: "opened (history s) c h" using 1 Cons.prems(2) by simp
      have "wp (restart_each E subs) (restarted c ?subs ?s) ?s"
        using Cons.IH [of ?s] Cons.prems inv_dispatcher [OF Cons.prems(1) h, of ?g] by (simp add: IsConsumerReady_def)
      then have "wp (restart_each E subs) (restarted c (sub # ?subs) s) ?s"
        by (rule wp_mono) (rule restarted_step [OF h], auto)
      then show ?case by simp
    next
      case (2 h e)
      then show ?case using restarted_failed [OF Cons.prems(1)] by (simp add: wp_simps)
    qed
    then show ?thesis using True by (auto simp: wp_simps IsConsumerReady_def split: option.splits)
  qed
qed

text \<open>
  What rebuilding leaves: if it succeeds, the enabled producers and consumers and the
  subscriptions of ready consumers are all served by open channels of the connection.
\<close>

definition rebuilt :: "conn \<Rightarrow> RabbitMQClient \<Rightarrow> goerror option outcome \<Rightarrow> RabbitMQClient \<Rightarrow> bool" where
  "rebuilt c s x t \<longleftrightarrow> client_inv t \<and> x \<noteq> Panics \<and> connection t = Some c \<and> config t = config s \<and>
     subscriptions t = subscriptions s \<and> connectionManager t = connectionManager s \<and>
     closed_flag t = closed_flag s \<and> healthChecker t = healthChecker s \<and>
     (x = Returns None \<longrightarrow> producers_ready c t \<and> consumers_ready c t \<and>
        (\<exists>new. dispatchers t = dispatchers s @ new \<and>
           list_all2 (serves c (history t)) (filter (\<lambda>sub. IsConsumerReady t (s_consumerName sub)) (subscriptions s)) new))"

lemma ready_mono:
  assumes "broker_calls (history s) h" "set (unclosed (history s)) \<subseteq> set (unclosed h)"
  shows "producers_ready c s \<Longrightarrow> producers_ready c (s\<lparr>history := h\<rparr>)"
    "consumers_ready c s \<Longrightarrow> consumers_ready c (s\<lparr>history := h\<rparr>)"
  using assms channel_ready_mono [of c "history s" _ _ h] broker_calls_conn [of "history s" h]
  by (auto simp: producers_ready_def consumers_ready_def)

lemma ready_dispatchers [simp]:
  "producers_ready c (s\<lparr>dispatchers := d\<rparr>) = producers_ready c s"
  "consumers_ready c (s\<lparr>dispatchers := d\<rparr>) = consumers_ready c s"
  "producers_ready c (s\<lparr>consumers := m\<rparr>) = producers_ready c s"
  by (simp_all add: producers_ready_def consumers_ready_def)

lemma rebuild_consumers_wp:
  assumes s: "client_inv s" "connection s = Some c" "producers_ready c s"
    and s0: "config s = config s0" "subscriptions s = subscriptions s0" "dispatchers s = dispatchers s0"
      "connectionManager s = connectionManager s0" "closed_flag s = closed_flag s0" "healthChecker s = healthChecker s0"
  shows "wp (on_err_panic (initializeConsumers E) (\<lambda>e. fails (Errorf_w ''reconnect: failed to rebuild consumers'' e))
      (do { subs \<leftarrow> gets subscriptions; restart_each E subs })) (rebuilt c s0) s"
proof (rule initializeConsumers_wp [OF s(2) inv_live [OF s(1,2)] inv_no_nil(2) [OF s(1)]])
  fix h m e assume g: "grown (map c_Name (enabled_consumers (config s))) (history s) (consumers s) h m"
  let ?s = "s\<lparr>history := h, consumers := m\<rparr>"
  show "wp (fails (Errorf_w ''reconnect: failed to rebuild consumers'' e)) (rebuilt c s0) ?s"
    using inv_consumers [OF s(1) g] s s0 by (simp add: wp_simps rebuilt_def)
  have p: "producers_ready c ?s" using ready_mono(1) [of s h c] s(3) g by (simp add: grown_def)
  assume r: "consumers_ready c ?s"
  have "rebuilt c s0 x t" if R: "restarted c (filter (\<lambda>sub. IsConsumerReady ?s (s_consumerName sub)) (subscriptions ?s)) ?s x t" for x t
  proof -
    let ?subs = "filter (\<lambda>sub. IsConsumerReady ?s (s_consumerName sub)) (subscriptions ?s)"
    obtain new where t: "t = ?s\<lparr>history := history t, dispatchers := dispatchers ?s @ new\<rparr>"
      and new: "x = Returns None \<longrightarrow> list_all2 (serves c (history t)) ?subs new"
      using R unfolding restarted_def by blast
    have b: "broker_calls (history ?s) (history t)" "set (unclosed (history ?s)) \<subseteq> set (unclosed (history t))"
      using R by (simp_all add: restarted_def)
    have "producers_ready c (?s\<lparr>history := history t\<rparr>)" "consumers_ready c (?s\<lparr>history := history t\<rparr>)"
      by (rule ready_mono(1) [OF b p], rule ready_mono(2) [OF b r])
    then have "producers_ready c t" "consumers_ready c t" by (subst t, simp)+
    moreover have "connection t = Some c" "config t = config s0" "subscriptions t = subscriptions s0"
      "connectionManager t = connectionManager s0" "closed_flag t = closed_flag s0" "healthChecker t = healthChecker s0"
      "dispatchers t = dispatchers s0 @ new" "consumers t = m"
      using s s0 by (subst t, simp)+
    moreover have "client_inv t" "x \<noteq> Panics" using that by (simp_all add: restarted_def)
    ultimately show ?thesis using new s0 by (auto simp: rebuilt_def IsConsumerReady_def)
  qed
  with restart_wp [of ?s c E "subscriptions ?s"] inv_consumers [OF s(1) g] s(2)
  show "wp (do { subs \<leftarrow> gets subscriptions; restart_each E subs }) (rebuilt c s0) ?s"
    by (simp add: wp_simps) (erule wp_mono, simp)
qed

lemma rebuild_wp:
  assumes "client_inv s" "connection s = Some c"
  shows "wp (rebuildAfterReconnect E) (rebuilt c s) s"
proof -
  let ?s = "s\<lparr>producers := [], consumers := []\<rparr>"
  have "owned ?s \<subseteq># owned s" by (simp add: owned_def)
  then have s: "client_inv ?s" "connection ?s = Some c"
    using assms subset_mset.order_trans by (auto simp: client_inv_def)
  show ?thesis
    unfolding rebuildAfterReconnect_def wp_bind wp_update
  proof (rule initializeProducers_wp [OF _ inv_live inv_no_nil(1)])
    fix h m e assume g: "grown (map p_Name (enabled_producers (config ?s))) (history ?s) (producers ?s) h m"
    note inv = inv_producers [OF s(1) g]
    show "wp (fails (Errorf_w ''reconnect: failed to rebuild producers'' e)) (rebuilt c s)
        (?s\<lparr>history := h, producers := m\<rparr>)" using inv s by (simp add: wp_simps rebuilt_def)
    assume "producers_ready c (?s\<lparr>history := h, producers := m\<rparr>)"
    then show "wp (on_err_panic (initializeConsumers E) (\<lambda>e. fails (Errorf_w ''reconnect: failed to rebuild consumers'' e))
        (do { subs \<leftarrow> gets subscriptions; restart_each E subs })) (rebuilt c s)
        (?s\<lparr>history := h, producers := m\<rparr>)" using inv s by (intro rebuild_consumers_wp) simp_all
  qed (use s in simp_all)
qed

definition reconnected :: "RabbitMQClient \<Rightarrow> (goerror + conn) outcome \<Rightarrow> RabbitMQClient \<Rightarrow> bool" where
  "reconnected s x t \<longleftrightarrow> client_inv t \<and> x \<noteq> Panics \<and> config t = config s \<and> subscriptions t = subscriptions s \<and>
     closed_flag t = closed_flag s \<and> healthChecker t = healthChecker s \<and>
     (connection t = connection s \<or> connection t \<noteq> None) \<and>
     (\<forall>c. x = Returns (Inr c) \<longrightarrow> connection t = Some c \<and> c \<notin> set (live (history s)) \<and>
        producers_ready c t \<and> consumers_ready c t \<and>
        (\<exists>new. dispatchers t = dispatchers s @ new \<and>
           list_all2 (serves c (history t)) (filter (\<lambda>sub. IsConsumerReady t (s_consumerName sub)) (subscriptions s)) new))"

lemma reconnect_wp:
  assumes "client_inv s"
  shows "wp (reconnect_round E) (reconnected s) s"
proof -
  have "wp (reconnect_callback E) (reconnected s) s"
    unfolding reconnect_callback_def wp_bind
  proof (rule dial_wp, goal_cases)
    case (1 h e)
    then show ?case using inv_history [OF assms, of h] by (simp add: wp_simps reconnected_def)
  next
    case (2 h c)
    from dialled_new [OF 2(1)] rebuild_wp [OF inv_dialled [OF assms 2(1)], of c E]
    show ?case by (simp add: wp_simps) (erule wp_mono, auto simp: reconnected_def rebuilt_def wp_simps split: outcome.split option.split)
  qed
  then show ?thesis
    unfolding reconnect_round_def wp_bind
  proof (rule wp_mono)
    fix x t assume a: "reconnected s x t"
    show "wp (case x of Returns (Inr c) \<Rightarrow> do {
          State_Monad.update (\<lambda>s. s\<lparr>connectionManager := map_option (\<lambda>m. m\<lparr>cm_connected := True\<rparr>) (connectionManager s)\<rparr>);
          call_ignoring E (NotifyClose c);
          State_Monad.return x
        }
      | _ \<Rightarrow> State_Monad.return x) (reconnected s) t"
    proof (cases "\<exists>c. x = Returns (Inr c)")
      case False
      then show ?thesis using a by (auto simp: wp_simps split: outcome.split sum.split)
    next
      case True
      then obtain c where x: "x = Returns (Inr c)" by blast
      let ?h = "(NotifyClose c, map_option External (reply E (history t) (NotifyClose c))) # history t"
      have "c \<in> set (live (history t))" using a x by (simp add: reconnected_def client_inv_def)
      then have h: "same_channels (history t) ?h" by (simp add: same_channels_def allowed_def)
      have "serves c ?h = serves c (history t)" by (intro ext) (simp add: serves_def)
      moreover have "client_inv (t\<lparr>connectionManager := m, history := ?h\<rparr>)" for m
        using inv_history [OF _ h] a by (simp add: reconnected_def history_first inv_manager)
      ultimately show ?thesis
        using a ready_history [OF h, of c] x
        by (simp add: reconnected_def wp_simps) (simp add: producers_ready_def consumers_ready_def IsConsumerReady_def)
    qed
  qed
qed

lemma perform_inv:
  assumes "client_inv s" "enabled s c"
  shows "wp (perform E c) (\<lambda>panics t. \<not> panics \<and> client_inv t) s"
proof (cases c)
  case (CallStart ctx)
  show ?thesis
    unfolding CallStart perform.simps wp_bind StartContext_def
    by (rule wp_mono [OF startup_wp [OF assms(1)]]) (auto simp: wp_simps startup_post_def starting_def)
next
  case (CallStop ctx)
  show ?thesis
    unfolding CallStop perform.simps wp_bind StopContext_def
    by (rule ctx_stage, simp add: wp_simps assms, rule cleanup_wp [OF assms(1)])
     (use assms in \<open>auto simp: wp_simps cleanup_post_def\<close>)
next
  case (CallInitializeContext ctx)
  have "client_inv (s\<lparr>history := (BaseInitialize, r) # history s\<rparr>)" for r
    using assms(1) by (simp add: client_inv_def owned_def allowed_def)
  then show ?thesis
    unfolding CallInitializeContext perform.simps wp_bind InitializeContext_def
    by (intro ctx_stage) (simp_all add: wp_simps assms(1))
next
  case (Dispatch g outcomes)
  then show ?thesis using assms wp_mono [OF dispatch_inv] by (simp add: wp_simps)
next
  case Reconnect
  show ?thesis
    unfolding Reconnect perform.simps wp_bind
    by (rule wp_mono [OF reconnect_wp [OF assms(1)]]) (simp add: wp_simps reconnected_def)
qed (use assms in \<open>simp_all add: wp_bind\<close>, (intro wp_mono [OF initialize_inv] wp_mono [OF publish_inv(1)]
   wp_mono [OF publish_inv(2)] wp_mono [OF subscribe_inv(1)] wp_mono [OF subscribe_inv(2)] wp_mono [OF tick_inv];
   simp add: wp_simps)+)

interpretation client: inductive_invariant "\<lambda>s. s = NewRabbitMQClient E" "client_step E" client_inv for E
proof
  show "s = NewRabbitMQClient E \<Longrightarrow> client_inv s" for s by (simp add: inv_new)
  show "client_inv s \<Longrightarrow> client_step E s t \<Longrightarrow> client_inv t" for s t
    using perform_inv wpD by (fastforce elim!: client_step.cases)
qed

lemma subscribe_wp:
  assumes "client_inv s"
  shows "wp (subscribeWithChannel E ctx n q f) (\<lambda>x t. client_inv t \<and>
     subscriptions t = subscriptions s @ [\<lparr>s_consumerName = n, s_queue = q, s_handler = f\<rparr>] \<and>
     producers t = producers s \<and> consumers t = consumers s \<and>
     (case x of
        Returns None \<Rightarrow> \<exists>g. dispatchers t = dispatchers s @ [g] \<and> d_ctx g = ctx \<and> d_handler g = f \<and>
          unclosed (history t) = d_channel g # unclosed (history s) \<and> conn_of (history t) (d_channel g) = connection s
      | Returns (Some e) \<Rightarrow> (IsError (Some e) ErrConsumerNotReady \<or> IsError (Some e) ErrSubscribeFailed) \<and>
          dispatchers t = dispatchers s \<and> unclosed (history t) = unclosed (history s)
      | Panics \<Rightarrow> False)) s"
  unfolding subscribeWithChannel_def wp_bind wp_update
proof (rule startDispatchLoop_wp, goal_cases)
  case 1
  show ?case using inv_no_nil(2) [OF assms] by simp
next
  case (2 c)
  then show ?case using inv_live [OF assms] by simp
next
  case (3 c h a p)
  let ?sub = "\<lparr>s_consumerName = n, s_queue = q, s_handler = f\<rparr>"
  have "client_inv (s\<lparr>subscriptions := subscriptions s @ [?sub]\<rparr>)" using assms by simp
  from inv_dispatcher [OF this, of c h "\<lparr>d_ctx = ctx, d_channel = length (history s), d_handler = f, d_autoAck = a\<rparr>"] 3
  show ?case by (simp add: opened_def)
next
  case (4 h e)
  let ?sub = "\<lparr>s_consumerName = n, s_queue = q, s_handler = f\<rparr>"
  have "client_inv (s\<lparr>subscriptions := subscriptions s @ [?sub]\<rparr>)" using assms by simp
  from inv_calls [OF this, of h] 4 show ?case by simp
qed

lemma orderly_closed:
  "orderly h \<Longrightarrow> distinct (closed_chans h) \<and> set (closed_chans h) \<inter> set (unclosed h) = {} \<and>
     (\<forall>ch \<in> set (closed_chans h). ch < length h)"
proof (induction h)
  case (Cons x h)
  obtain e r where x: "x = (e, r)" by (cases x)
  have IH: "distinct (closed_chans h)" "set (closed_chans h) \<inter> set (unclosed h) = {}" "\<forall>ch \<in> set (closed_chans h). ch < length h"
    using Cons x by auto
  show ?case
  proof (cases e)
    case (CloseChannel ch)
    then have "ch \<in> set (unclosed h)" using Cons.prems x by (simp add: allowed_def)
    then show ?thesis using IH x CloseChannel unclosed_bound [of ch h] by auto
  next
    case (OpenChannel c)
    then show ?thesis using IH x by (cases r) auto
  qed (use IH x in auto)
qed simp

section \<open>What the steps leave alone\<close>

text \<open>Configuration, connection and phase of life are untouched.\<close>

definition frame :: "RabbitMQClient \<Rightarrow> RabbitMQClient \<Rightarrow> bool" where
  "frame s t \<longleftrightarrow> config t = config s \<and> closed_flag t = closed_flag s \<and> connection t = connection s \<and>
     (healthChecker t = None) = (healthChecker s = None)"

lemma publish_frame:
  "wp (PublishMessage E ctx exchange key body opts) (\<lambda>_ t. frame s t) s"
  "wp (PublishMessageWith E ctx name exchange key body opts) (\<lambda>_ t. frame s t) s"
  by (auto simp: frame_def PublishMessage_def PublishMessageWith_def publishToChannel_def wp_simps Let_def split: option.split)

lemma subscribe_frame:
  assumes "client_inv s"
  shows "wp (Subscribe E ctx q f) (\<lambda>_ t. frame s t) s"
    "wp (SubscribeWith E ctx name q f) (\<lambda>_ t. frame s t) s"
proof -
  have "wp (startDispatchLoop E ctx n q f) (\<lambda>_ t. frame s t) (s\<lparr>subscriptions := x\<rparr>)" for n x
    by (rule startDispatchLoop_wp) (use assms inv_no_nil(2) [OF assms] inv_live [OF assms] in \<open>simp_all add: frame_def\<close>)
  moreover have "frame s s" by (simp add: frame_def)
  ultimately show "wp (Subscribe E ctx q f) (\<lambda>_ t. frame s t) s"
    "wp (SubscribeWith E ctx name q f) (\<lambda>_ t. frame s t) s"
    by (auto simp: Subscribe_def SubscribeWith_def subscribeWithChannel_def wp_simps split: option.split)
qed

lemma dispatch_frame: "wp (run_dispatcher E g outcomes) (\<lambda>_ t. frame s t) s"
  unfolding run_dispatcher_def wp_bind
proof (rule wp_mono [OF dispatch_loop_wp], elim conjE)
  fix ended t assume "only_dispatches s t"
  then have t: "t = s\<lparr>metrics := metrics t, history := history t\<rparr>" by (simp add: only_dispatches_def)
  have "frame s t" by (subst t) (simp add: frame_def)
  then show "wp (if ended then do { call_ignoring E (CloseChannel (d_channel g));
      State_Monad.update (\<lambda>s. s\<lparr>dispatchers := remove1 g (dispatchers s)\<rparr>) } else State_Monad.return ())
     (\<lambda>_ t. frame s t) t" by (simp add: wp_simps frame_def)
qed

lemma tick_frame: "client_inv s \<Longrightarrow> wp (health_tick E) (\<lambda>_ t. frame s t) s"
  unfolding health_tick_def
  by (auto simp: wp_simps frame_def split: option.split intro!: probe_wp)

text \<open>The calls other than initialisation, start, stop and reconnection.\<close>

fun ordinary :: "client_call \<Rightarrow> bool" where
  "ordinary (CallInitialize _) = False" | "ordinary (CallStart _) = False"
| "ordinary (CallStop _) = False" | "ordinary Reconnect = False" | "ordinary _ = True"

lemma ordinary_frame:
  assumes "client_inv s" "ordinary c"
  shows "wp (perform E c) (\<lambda>_ t. frame s t) s"
proof (cases c)
  case (CallInitializeContext ctx)
  then show ?thesis by (auto simp: InitializeContext_def frame_def wp_simps split: option.split)
qed (use assms(2) in \<open>simp_all add: wp_bind\<close>, (intro wp_mono [OF publish_frame(1)] wp_mono [OF publish_frame(2)]
   wp_mono [OF subscribe_frame(1) [OF assms(1)]] wp_mono [OF subscribe_frame(2) [OF assms(1)]]
   wp_mono [OF tick_frame [OF assms(1)]] wp_mono [OF dispatch_frame]; simp add: wp_simps)+)

lemma initialize_wp:
  assumes "\<And>e h q. Q (Returns (Some e)) (s\<lparr>history := h, rt := q\<rparr>)"
    and "\<And>cfg cfg' h p. normalizeRabbitMQConfig (dpb E) (Some cfg) = (None, Some cfg') \<Longrightarrow>
      Q (Returns None) (s\<lparr>history := h, rt := r, config := cfg', healthChecker := Some NewHealthChecker,
        connectionManager := Some (NewConnectionManager cfg'), retryHandler := Some (NewRetryHandler cfg'), goroutinePool := Some p\<rparr>)"
  shows "wp (InitializeResources E r) Q s"
proof -
  have adopt: "wp (adopt_config E cfg) Q (s\<lparr>history := h, rt := r\<rparr>)" for cfg h
  proof (cases "normalizeRabbitMQConfig (dpb E) (Some cfg)")
    case (Pair e cfg')
    show ?thesis
    proof (cases e)
      case (Some e')
      then show ?thesis using Pair assms(1) by (simp add: adopt_config_def wp_simps)
    next
      case None
      then have "cfg' \<noteq> None" using Pair by (auto simp: normalizeRabbitMQConfig_def Let_def split: option.splits prod.splits)
      then show ?thesis using Pair None assms(2)
        by (auto simp: adopt_config_def wp_simps NewGoroutinePool_def split: option.splits)
    qed
  qed
  have "wp (adopt_config E cfg) Q (s\<lparr>rt := r, history := h\<rparr>)" for cfg h using adopt [of cfg h] by (simp add: history_first)
  moreover have "Q (Returns (Some e)) (s\<lparr>rt := r, history := h\<rparr>)" for e h using assms(1) [of e r h] by (simp add: history_first)
  moreover have "Q (Returns (Some e)) (s\<lparr>history := h\<rparr>)" for e h using assms(1) [of e "rt s" h] by simp
  ultimately show ?thesis
    using adopt unfolding InitializeResources_def
    by (simp add: wp_simps split: option.split)
qed

lemma perform_config:
  assumes "client_inv s" "durationpb_ok (dpb E)" "wf_config (dpb E) (config s)"
  shows "wp (perform E c) (\<lambda>_ t. wf_config (dpb E) (config t)) s"
proof (cases "ordinary c")
  case True
  then show ?thesis using assms(3) by (intro wp_mono [OF ordinary_frame [OF assms(1)]]) (simp_all add: frame_def)
next
  case False
  then consider r where "c = CallInitialize r" | ctx where "c = CallStart ctx" | ctx where "c = CallStop ctx" | "c = Reconnect"
    by (cases c) auto
  then show ?thesis
  proof cases
    case (1 r)
    have "wp (InitializeResources E r) (\<lambda>_ t. wf_config (dpb E) (config t)) s"
      by (rule initialize_wp) (use assms normalize_sound [OF assms(2)] in auto)
    then show ?thesis unfolding 1 perform.simps wp_bind by (rule wp_mono) (simp add: wp_simps)
  next
    case (2 ctx)
    then show ?thesis
      using wp_mono [OF startup_wp [OF assms(1)]] assms(3) by (simp add: wp_simps StartContext_def startup_post_def starting_def)
  next
    case (3 ctx)
    show ?thesis
      unfolding 3 perform.simps wp_bind StopContext_def
      by (rule ctx_stage, simp add: wp_simps assms, rule cleanup_wp [OF assms(1)])
        (use assms in \<open>auto simp: wp_simps cleanup_post_def\<close>)
  next
    case 4
    then show ?thesis using wp_mono [OF reconnect_wp [OF assms(1)]] assms(3) by (simp add: wp_simps reconnected_def)
  qed
qed

section \<open>The life of a client\<close>

text \<open>
  The abstract life: a client is created, configured, connected and closed; the calls that
  can move it on, and where to.  Nothing leads out of \<open>Closed\<close>.
\<close>

datatype phase = Created | Configured | Connected | Closed

fun life_step :: "client_call \<Rightarrow> phase \<Rightarrow> phase \<Rightarrow> bool" where
  "life_step (CallInitialize r) p q = (q = p \<or> p = Created \<and> q = Configured)"
| "life_step (CallStart ctx) p q = (q = p \<or> p \<noteq> Closed \<and> q = Connected)"
| "life_step Reconnect p q = (q = p \<or> p \<noteq> Closed \<and> q = Connected)"
| "life_step (CallStop ctx) p q = (q = Closed \<or> ctx \<noteq> Background \<and> q = p)"
| "life_step c p q = (q = p)"

definition phase_of :: "RabbitMQClient \<Rightarrow> phase" where
  "phase_of s = (if closed_flag s then Closed else if connection s \<noteq> None then Connected
     else if healthChecker s \<noteq> None then Configured else Created)"

lemma perform_life:
  assumes "client_inv s"
  shows "wp (perform E c) (\<lambda>_ t. life_step c (phase_of s) (phase_of t)) s"
proof (cases "ordinary c")
  case True
  then have "life_step c (phase_of s) (phase_of t)" if "frame s t" for t
    using that by (cases c) (auto simp: frame_def phase_of_def)
  then show ?thesis by (rule wp_mono [OF ordinary_frame [OF assms True]])
next
  case False
  then consider r where "c = CallInitialize r" | ctx where "c = CallStart ctx" | ctx where "c = CallStop ctx" | "c = Reconnect"
    by (cases c) auto
  then show ?thesis
  proof cases
    case (1 r)
    have "wp (InitializeResources E r) (\<lambda>_ t. life_step c (phase_of s) (phase_of t)) s"
      by (rule initialize_wp) (auto simp: 1 phase_of_def)
    then show ?thesis unfolding 1 perform.simps wp_bind by (rule wp_mono) (simp add: wp_simps)
  next
    case (2 ctx)
    show ?thesis
      unfolding 2 perform.simps wp_bind StartContext_def
      by (rule wp_mono [OF startup_wp [OF assms]]) (auto simp: wp_simps startup_post_def starting_def phase_of_def)
  next
    case (3 ctx)
    show ?thesis
      unfolding 3 perform.simps wp_bind StopContext_def
      by (rule ctx_ended, simp add: wp_simps, rule cleanup_wp [OF assms])
        (auto simp: wp_simps cleanup_post_def phase_of_def)
  next
    case 4
    show ?thesis
      unfolding 4 perform.simps wp_bind
      by (rule wp_mono [OF reconnect_wp [OF assms]]) (auto simp: wp_simps reconnected_def phase_of_def)
  qed
qed

text \<open>The calls to the broker in a history.\<close>

definition broker_only :: "history \<Rightarrow> history" where
  "broker_only h = filter (\<lambda>x. to_broker (fst x)) h"

lemma empty_cleanup_wp:
  assumes "connection s = None" "producers s = []" "consumers s = []" "dispatchers s = []"
    "closed_flag s" "closeOnceDone s" "checker_stopped (healthChecker s)"
  shows "wp (CleanupTasks E) (\<lambda>x t. x = Returns None \<and> broker_only (history t) = broker_only (history s) \<and>
    t = s\<lparr>history := history t, connectionManager := map_option ConnectionManager_Stop (connectionManager s),
      goroutinePool := map_option Pool_Wait (goroutinePool s)\<rparr>) s"
  using assms
  by (auto simp: CleanupTasks_def cleanupWithContext_def publishRuntimeContract_def close_signal_def stop_checker_def
      drain_def close_consumers_def close_producers_def close_connection_def map_range_def wp_simps broker_only_def
      checker_stopped_def split: option.split)

lemma stop_again:
  "ConnectionManager_Stop (ConnectionManager_Stop m) = ConnectionManager_Stop m" "Pool_Wait (Pool_Wait p) = Pool_Wait p"
  by (simp_all add: ConnectionManager_Stop_def stop_lock_def stop_close_def Pool_Wait_def Let_def)

lemma cleanup_twice:
  assumes "cleanup_post s (Returns None) t"
  shows "wp (CleanupTasks E) (\<lambda>x u. x = Returns None \<and> broker_only (history u) = broker_only (history t) \<and>
    u = t\<lparr>history := history u\<rparr>) t"
proof -
  have same: "map_option ConnectionManager_Stop (connectionManager t) = connectionManager t"
    "map_option Pool_Wait (goroutinePool t) = goroutinePool t"
    using assms by (auto simp: cleanup_post_def option.map_comp comp_def stop_again)
  have "wp (CleanupTasks E) (\<lambda>x u. x = Returns None \<and> broker_only (history u) = broker_only (history t) \<and>
    u = t\<lparr>history := history u, connectionManager := map_option ConnectionManager_Stop (connectionManager t),
      goroutinePool := map_option Pool_Wait (goroutinePool t)\<rparr>) t"
    using assms by (intro empty_cleanup_wp) (auto simp: cleanup_post_def client_inv_def)
  then show ?thesis unfolding same by simp
qed

section \<open>Runs\<close>

text \<open>A run of method calls; these can be made in any state.\<close>

primrec run_calls :: "env \<Rightarrow> client_call list \<Rightarrow> RabbitMQClient \<Rightarrow> RabbitMQClient" where
  "run_calls E [] s = s"
| "run_calls E (c # cs) s = run_calls E cs (snd (run_state (perform E c) s))"

fun by_caller :: "client_call \<Rightarrow> bool" where
  "by_caller HealthTick = False" | "by_caller Reconnect = False" | "by_caller (Dispatch _ _) = False"
| "by_caller _ = True"

lemma by_caller_enabled: "by_caller c \<Longrightarrow> enabled s c"
  by (cases c) simp_all

lemma run_calls_reachable:
  "reachable (\<lambda>s. s = NewRabbitMQClient E) (client_step E) s \<Longrightarrow> list_all by_caller cs \<Longrightarrow>
     reachable (\<lambda>s. s = NewRabbitMQClient E) (client_step E) (run_calls E cs s)"
proof (induction cs arbitrary: s)
  case (Cons c cs)
  have "client_step E s (snd (run_state (perform E c) s))"
    using Cons.prems by (intro client_step.performed [of s c _ "fst (run_state (perform E c) s)"]) (simp_all add: by_caller_enabled)
  then show ?case using Cons by (simp add: reachable.reach_step)
qed simp

definition run_from_new :: "env \<Rightarrow> client_call list \<Rightarrow> RabbitMQClient" where
  "run_from_new E cs = run_calls E cs (NewRabbitMQClient E)"

lemma run_from_new_reachable:
  "list_all by_caller cs \<Longrightarrow> reachable (\<lambda>s. s = NewRabbitMQClient E) (client_step E) (run_from_new E cs)"
  unfolding run_from_new_def by (intro run_calls_reachable reachable.reach_init) simp_all

lemma run_result: "fst (run_state m s) = x \<Longrightarrow> run_state m s = (x, snd (run_state m s))"
  by (simp add: prod_eq_iff)

text \<open>
  The runs of the witnesses: a client that was initialised, one that was started, and one
  that was stopped; and a broker that refuses \<open>basic.consume\<close> on the first connection.
\<close>

definition initialised :: RabbitMQClient where
  "initialised = run_from_new sample_env [CallInitialize (Some 1)]"

definition started :: "env \<Rightarrow> RabbitMQClient" where
  "started E = run_from_new E [CallInitialize (Some 1), CallStart Background]"

definition stopped :: RabbitMQClient where
  "stopped = run_from_new sample_env [CallInitialize (Some 1), CallStart Background, CallStop Background]"

definition flaky_env :: env where
  "flaky_env = sample_env\<lparr>reply := (\<lambda>h e. case e of
     Consume ch ctx q n a x l w \<Rightarrow>
       if length (filter (\<lambda>(e, r). case e of Dial u c \<Rightarrow> True | _ \<Rightarrow> False) h) < 2 then Some ''refused'' else None
   | _ \<Rightarrow> None)\<rparr>"

text \<open>A configuration with two enabled producers of one name.\<close>

definition twice_env :: env where
  "twice_env = sample_env\<lparr>scanned := (\<lambda>_ _. sample_config\<lparr>Producers := Producers sample_config @ Producers sample_config\<rparr>)\<rparr>"

lemma sample_runs_reachable:
  "reachable (\<lambda>s. s = NewRabbitMQClient sample_env) (client_step sample_env) initialised"
  "reachable (\<lambda>s. s = NewRabbitMQClient E) (client_step E) (started E)"
  "reachable (\<lambda>s. s = NewRabbitMQClient sample_env) (client_step sample_env) stopped"
  by (simp_all add: initialised_def started_def stopped_def run_from_new_reachable)

end
