(* ===== verification/Durations.thy ===== *)
theory Durations
  imports NetURL Metrics Names
begin

text \<open>
  \<open>parseDuration\<close> (\<open>utils.go\<close>) and what it uses of Go's \<open>time\<close> package, \<open>time.ParseDuration\<close>.

  An unsigned 64-bit integer is a natural number below \<open>2 ^ 64\<close>; the sum over the terms
  wraps around there, and the other operations cannot, by the tests before them.  The
  contribution of digits after a decimal point is computed in floating point; this one
  operation, \<open>uint64(float64(f) * (float64(unit) / scale))\<close>, is the argument \<open>frac\<close>.
\<close>

section \<open>\<open>time.ParseDuration\<close>\<close>

text \<open>\<open>uint64(c) - '0'\<close>.\<close>

definition digit :: "char \<Rightarrow> nat" where
  "digit c = of_char c - 48"

text \<open>\<open>leadingInt\<close>, with the value read so far; \<^const>\<open>None\<close> is its overflow error.\<close>

fun leadingInt :: "nat \<Rightarrow> gostring \<Rightarrow> (nat \<times> gostring) option" where
  "leadingInt x [] = Some (x, [])"
| "leadingInt x (c # s) =
     (if \<not> is_digit c then Some (x, c # s)
      else if x > 2 ^ 63 div 10 then None
      else let x = x * 10 + digit c in
        if x > 2 ^ 63 then None else leadingInt x s)"

text \<open>\<open>leadingFraction\<close>: digits that do not fit are skipped.\<close>

fun leadingFraction :: "bool \<Rightarrow> nat \<Rightarrow> nat \<Rightarrow> gostring \<Rightarrow> nat \<times> nat \<times> gostring" where
  "leadingFraction overflow x scale [] = (x, scale, [])"
| "leadingFraction overflow x scale (c # s) =
     (if \<not> is_digit c then (x, scale, c # s)
      else if overflow then leadingFraction overflow x scale s
      else if x > (2 ^ 63 - 1) div 10 then leadingFraction True x scale s
      else let y = x * 10 + digit c in
        if y > 2 ^ 63 then leadingFraction True x scale s else leadingFraction False y (scale * 10) s)"

text \<open>The micro sign and the letter mu are two bytes each in UTF-8.\<close>

definition unitMap :: "(gostring \<times> nat) list" where
  "unitMap = [(''ns'', 1), (''us'', 1000), ([CHR 0xC2, CHR 0xB5, CHR ''s''], 1000),
     ([CHR 0xCE, CHR 0xBC, CHR ''s''], 1000), (''ms'', 1000000), (''s'', 1000000000),
     (''m'', 60 * 1000000000), (''h'', 3600 * 1000000000)]"

definition unit_char :: "char \<Rightarrow> bool" where
  "unit_char c \<longleftrightarrow> \<not> (c = CHR ''.'' \<or> is_digit c)"

text \<open>The digits of a term: the two numbers, the scale, and what follows.\<close>

definition parse_number :: "gostring \<Rightarrow> (nat \<times> nat \<times> nat \<times> gostring) option" where
  "parse_number s =
     (case leadingInt 0 s of
        None \<Rightarrow> None
      | Some (v, r) \<Rightarrow>
          let pre = (length s \<noteq> length r);
              point = (r \<noteq> [] \<and> hd r = CHR ''.'');
              (f, scale, r') = (if point then leadingFraction False 0 1 (tl r) else (0, 1, r));
              post = (point \<and> length (tl r) \<noteq> length r')
          in if \<not> pre \<and> \<not> post then None else Some (v, f, scale, r'))"

text \<open>The value of a term in nanoseconds.\<close>

definition term_value :: "(nat \<Rightarrow> nat \<Rightarrow> nat \<Rightarrow> nat) \<Rightarrow> nat \<Rightarrow> nat \<Rightarrow> nat \<Rightarrow> nat \<Rightarrow> nat option" where
  "term_value frac v f scale unit =
     (if v > 2 ^ 63 div unit then None
      else let v = v * unit in
        if f > 0 then
          let v = (v + frac f unit scale) mod 2 ^ 64 in if v > 2 ^ 63 then None else Some v
        else Some v)"

lemma leadingInt_length: "leadingInt x s = Some (v, r) \<Longrightarrow> length r \<le> length s"
  by (induction x s rule: leadingInt.induct) (auto simp: Let_def split: if_splits)

lemma leadingFraction_length: "leadingFraction ov x sc s = (f, scale, r) \<Longrightarrow> length r \<le> length s"
  by (induction ov x sc s rule: leadingFraction.induct) (auto simp: Let_def split: if_splits)

lemma parse_number_length:
  assumes "parse_number s = Some (v, f, scale, r)"
  shows "length r \<le> length s"
proof -
  obtain v' r' where l: "leadingInt 0 s = Some (v', r')" "length r' \<le> length s"
    using assms leadingInt_length [of 0 s] by (auto simp: parse_number_def split: option.splits)
  show ?thesis
  proof (cases "r' \<noteq> [] \<and> hd r' = CHR ''.''")
    case True
    obtain f' sc' r'' where "leadingFraction False 0 1 (tl r') = (f', sc', r'')" by (metis prod_cases3)
    with True l leadingFraction_length [OF this] assms show ?thesis by (auto simp: parse_number_def split: if_splits)
  qed (use assms l in \<open>auto simp: parse_number_def split: if_splits\<close>)
qed

lemma dropWhile_shorter: "takeWhile P r \<noteq> [] \<Longrightarrow> length (dropWhile P r) < length r"
  by (metis append_self_conv2 length_append length_greater_0_conv less_add_same_cancel2 takeWhile_dropWhile_id)

text \<open>The loop over the terms, with the sum so far.\<close>

function parse_terms :: "(nat \<Rightarrow> nat \<Rightarrow> nat \<Rightarrow> nat) \<Rightarrow> nat \<Rightarrow> gostring \<Rightarrow> nat option" where
  "parse_terms frac d s =
     (if s = [] then Some d
      else if \<not> (hd s = CHR ''.'' \<or> is_digit (hd s)) then None
      else (case parse_number s of
        None \<Rightarrow> None
      | Some (v, f, scale, r) \<Rightarrow>
          if takeWhile unit_char r = [] then None
          else (case map_of unitMap (takeWhile unit_char r) of
             None \<Rightarrow> None
           | Some unit \<Rightarrow>
               (case term_value frac v f scale unit of
                  None \<Rightarrow> None
                | Some v \<Rightarrow>
                    let d = (d + v) mod 2 ^ 64 in
                    if d > 2 ^ 63 then None else parse_terms frac d (dropWhile unit_char r)))))"
  by pat_completeness auto

termination
  by (relation "measure (\<lambda>(frac, d, s). length s)")
    (auto dest!: parse_number_length dropWhile_shorter)

definition time_ParseDuration :: "(nat \<Rightarrow> nat \<Rightarrow> nat \<Rightarrow> nat) \<Rightarrow> gostring \<Rightarrow> duration option" where
  "time_ParseDuration frac s =
     (let signed = (s \<noteq> [] \<and> (hd s = CHR ''-'' \<or> hd s = CHR ''+''));
          neg = (signed \<and> hd s = CHR ''-'');
          s = (if signed then tl s else s)
      in if s = ''0'' then Some 0
         else if s = [] then None
         else (case parse_terms frac 0 s of
            None \<Rightarrow> None
          | Some d \<Rightarrow>
              if neg then Some (- of_nat d)
              else if d > 2 ^ 63 - 1 then None
              else Some (of_nat d)))"

section \<open>\<open>parseDuration\<close>\<close>

definition parseDuration :: "(nat \<Rightarrow> nat \<Rightarrow> nat \<Rightarrow> nat) \<Rightarrow> gostring \<Rightarrow> duration \<Rightarrow> duration" where
  "parseDuration frac durationStr defaultDuration =
     (if durationStr = '''' then defaultDuration
      else (case time_ParseDuration frac durationStr of
          None \<Rightarrow> defaultDuration
        | Some d \<Rightarrow> d))"

section \<open>Sums of terms\<close>

text \<open>A duration as it is written: terms of a decimal number and a unit, such as \<open>1h30m\<close>.\<close>

definition written :: "(nat \<times> gostring) list \<Rightarrow> gostring" where
  "written ts = concat (map (\<lambda>(n, u). decimal n @ u) ts)"

definition unit_of :: "gostring \<Rightarrow> nat" where
  "unit_of u = (case map_of unitMap u of Some k \<Rightarrow> k | None \<Rightarrow> 0)"

text \<open>Its value in nanoseconds.\<close>

definition total :: "(nat \<times> gostring) list \<Rightarrow> nat" where
  "total ts = sum_list (map (\<lambda>(n, u). n * unit_of u) ts)"

lemma decimal_digits: "list_all is_digit (decimal n)"
  using set_decimal [of _ n] by (auto simp: list_all_iff is_digit_def between_def)

lemma leadingInt_append:
  "list_all is_digit a \<Longrightarrow> leadingInt x (a @ b) =
     (case leadingInt x a of None \<Rightarrow> None | Some (y, r) \<Rightarrow> leadingInt y b)"
  by (induction a arbitrary: x) (auto simp: Let_def)

lemma digit_char: "k < 10 \<Longrightarrow> digit (char_of (48 + k :: nat)) = k" "k < 10 \<Longrightarrow> is_digit (char_of (48 + k :: nat))"
  using of_char_digit [of k] by (simp_all add: digit_def is_digit_def between_def)

lemma leadingInt_decimal: "n \<le> 2 ^ 63 \<Longrightarrow> leadingInt 0 (decimal n) = Some (n, [])"
proof (induction n rule: less_induct)
  case (less n)
  show ?case
  proof (cases "n < 10")
    case True
    then show ?thesis by (simp add: decimal_small digit_char)
  next
    case False
    then have "leadingInt 0 (decimal (n div 10)) = Some (n div 10, [])" using less by simp
    moreover have "n div 10 \<le> 2 ^ 63 div 10" "n div 10 * 10 + n mod 10 = n" using less.prems by (simp_all add: div_le_mono)
    ultimately show ?thesis
      using False less.prems by (simp add: decimal_large leadingInt_append [OF decimal_digits] digit_char Let_def)
  qed
qed

text \<open>The text of a term ends where the next begins.\<close>

lemma unit_chars:
  assumes "map_of unitMap u = Some k"
  shows "u \<noteq> []" "list_all unit_char u" "0 < k"
  using assms by (auto simp: unitMap_def unit_char_def is_digit_def between_def split: if_splits)

lemma written_start: "written ts = [] \<or> is_digit (hd (written ts))"
proof (cases ts)
  case (Cons t ts')
  obtain n u where "t = (n, u)" by (cases t)
  moreover have "decimal n \<noteq> []" "is_digit (hd (decimal n))"
    using decimal_nonempty [of n] decimal_digits [of n] by (auto simp: list_all_iff)
  ultimately show ?thesis using Cons by (simp add: written_def)
qed (simp add: written_def)

lemma unit_split:
  assumes "list_all unit_char u"
  shows "takeWhile unit_char (u @ written ts) = u" "dropWhile unit_char (u @ written ts) = written ts"
proof -
  have "takeWhile unit_char (written ts) = [] \<and> dropWhile unit_char (written ts) = written ts"
    using written_start [of ts] by (cases "written ts") (auto simp: unit_char_def)
  then show "takeWhile unit_char (u @ written ts) = u" "dropWhile unit_char (u @ written ts) = written ts"
    using assms by (auto simp: list_all_iff takeWhile_append2 dropWhile_append2 takeWhile_append dropWhile_append)
qed

lemma parse_number_term:
  assumes "n \<le> 2 ^ 63" "map_of unitMap u = Some k"
  shows "parse_number (decimal n @ u @ r) = Some (n, 0, 1, u @ r)"
proof -
  obtain c u' where u: "u = c # u'" "unit_char c" using unit_chars [OF assms(2)] by (cases u) auto
  then have "leadingInt 0 (decimal n @ u @ r) = Some (n, u @ r)"
    using leadingInt_decimal [OF assms(1)] by (simp add: leadingInt_append [OF decimal_digits] unit_char_def)
  then show ?thesis using u decimal_nonempty [of n] by (simp add: parse_number_def unit_char_def)
qed

lemma parse_terms_written:
  assumes "\<forall>t \<in> set ts. map_of unitMap (snd t) \<noteq> None" "d + total ts < 2 ^ 63"
  shows "parse_terms frac d (written ts) = Some (d + total ts)"
  using assms
proof (induction ts arbitrary: d)
  case Nil
  then show ?case by (simp add: written_def total_def)
next
  case (Cons t ts)
  obtain n u where t: "t = (n, u)" by (cases t)
  then obtain k where k: "map_of unitMap u = Some k" using Cons.prems(1) by auto
  then have tot: "total (t # ts) = n * k + total ts" by (simp add: t total_def unit_of_def)
  have nk: "n * k < 2 ^ 63" "n \<le> 2 ^ 63" "n \<le> 2 ^ 63 div k"
    using Cons.prems(2) tot unit_chars(3) [OF k] by (auto simp: less_eq_div_iff_mult_less_eq intro: le_trans [of n "n * k"])
  have w: "written (t # ts) = decimal n @ u @ written ts" by (simp add: t written_def)
  have "parse_terms frac (d + n * k) (written ts) = Some (d + n * k + total ts)"
    using Cons.prems tot by (intro Cons.IH) simp_all
  moreover have "term_value frac n 0 1 k = Some (n * k)" using nk by (simp add: term_value_def)
  moreover have "(d + n * k) mod 2 ^ 64 = d + n * k" "\<not> 2 ^ 63 < d + n * k" using Cons.prems(2) tot by simp_all
  moreover have "is_digit (hd (decimal n @ u @ written ts))" "decimal n \<noteq> []"
    using decimal_digits [of n] decimal_nonempty [of n] by (auto simp: list_all_iff)
  ultimately show ?case
    unfolding w tot
    by (subst parse_terms.simps)
      (simp add: parse_number_term [OF nk(2) k] unit_split [OF unit_chars(2) [OF k]] unit_chars(1) [OF k] k)
qed

lemma leadingInt_overflow: "2 ^ 63 < n \<Longrightarrow> leadingInt 0 (decimal n) = None"
proof (induction n rule: less_induct)
  case (less n)
  have l: "leadingInt 0 (decimal n) = (case leadingInt 0 (decimal (n div 10)) of None \<Rightarrow> None
      | Some (y, r) \<Rightarrow> leadingInt y [char_of (48 + n mod 10)])"
    using decimal_large [of n] leadingInt_append [OF decimal_digits, of 0 "n div 10" "[char_of (48 + n mod 10)]"] less.prems
    by simp
  show ?case
  proof (cases "2 ^ 63 < n div 10")
    case True
    then show ?thesis using less.IH [of "n div 10"] l by simp
  next
    case False
    moreover have "n div 10 * 10 + n mod 10 = n" by simp
    ultimately show ?thesis
      using less.prems l leadingInt_decimal [of "n div 10"] by (simp add: digit_char Let_def)
  qed
qed

lemma parse_terms_overflow:
  assumes "map_of unitMap u = Some k" "2 ^ 63 \<le> n * k"
  shows "parse_terms frac 0 (decimal n @ u) = None \<or> parse_terms frac 0 (decimal n @ u) = Some (2 ^ 63)"
proof (cases "n \<le> 2 ^ 63")
  case False
  then have "parse_number (decimal n @ u) = None"
    using leadingInt_overflow [of n] by (simp add: parse_number_def leadingInt_append [OF decimal_digits])
  then show ?thesis
    using decimal_nonempty [of n] by (subst parse_terms.simps) simp
next
  case True
  have u: "takeWhile unit_char u = u" "dropWhile unit_char u = []"
    using unit_split [OF unit_chars(2) [OF assms(1)], of "[]"] by (simp_all add: written_def)
  have "term_value frac n 0 1 k = (if n * k \<le> 2 ^ 63 then Some (n * k) else None)"
    using less_eq_div_iff_mult_less_eq [OF unit_chars(3) [OF assms(1)], of n "2 ^ 63"]
    by (simp add: term_value_def not_le [symmetric])
  moreover have "is_digit (hd (decimal n @ u))"
    using decimal_digits [of n] decimal_nonempty [of n] by (auto simp: list_all_iff)
  ultimately show ?thesis
    using parse_number_term [OF True assms(1), of "[]"] assms(2) decimal_nonempty [of n]
    by (subst parse_terms.simps) (auto simp: u unit_chars(1) [OF assms(1)] assms(1) Let_def parse_terms.simps [of _ _ "[]"])
qed

lemma signless:
  assumes "is_digit (hd s)" "s \<noteq> ''''" "s \<noteq> ''0''"
  shows "time_ParseDuration frac s = (case parse_terms frac 0 s of None \<Rightarrow> None
      | Some d \<Rightarrow> if d > 2 ^ 63 - 1 then None else Some (of_nat d))"
    "time_ParseDuration frac (CHR ''-'' # s) = map_option (\<lambda>d. - of_nat d) (parse_terms frac 0 s)"
proof -
  have "hd s \<noteq> CHR ''-''" "hd s \<noteq> CHR ''+''" using assms(1) by (auto simp: is_digit_def between_def)
  then show "time_ParseDuration frac s = (case parse_terms frac 0 s of None \<Rightarrow> None
      | Some d \<Rightarrow> if d > 2 ^ 63 - 1 then None else Some (of_nat d))"
    "time_ParseDuration frac (CHR ''-'' # s) = map_option (\<lambda>d. - of_nat d) (parse_terms frac 0 s)"
    using assms(2,3) by (auto simp: time_ParseDuration_def Let_def split: option.split)
qed

lemma written_term:
  assumes "ts \<noteq> []" "\<forall>t \<in> set ts. map_of unitMap (snd t) \<noteq> None"
  shows "is_digit (hd (written ts))" "written ts \<noteq> ''''" "written ts \<noteq> ''0''"
proof -
  obtain n u ts' where ts: "ts = (n, u) # ts'" using assms(1) by (cases ts) auto
  then obtain k where "map_of unitMap u = Some k" using assms(2) by auto
  then have u: "u \<noteq> []" "list_all unit_char u" using unit_chars by auto
  have w: "written ts = decimal n @ u @ written ts'" by (simp add: ts written_def)
  show "written ts \<noteq> ''''" using u w by simp
  then show "is_digit (hd (written ts))" using written_start [of ts] by auto
  have "hd u \<in> set (written ts)" "unit_char (hd u)" using u w by (auto simp: list_all_iff)
  then show "written ts \<noteq> ''0''" by (auto simp: unit_char_def is_digit_def between_def)
qed

text \<open>
  The textual defaults of \<open>constants.go\<close> denote the durations that
  \<open>defaultRabbitMQConfig\<close> and \<open>normalizeRabbitMQConfig\<close> put in.
\<close>

lemma duration_constants:
  "parseDuration frac defaultDialTimeout d = 3 * Second" "parseDuration frac defaultHeartbeat d = 30 * Second"
  "parseDuration frac defaultPublishTimeout d = 3 * Second" "parseDuration frac defaultRetryBackoff d = 100 * Millisecond"
  by (simp_all add: constant_defs parseDuration_def time_ParseDuration_def parse_terms.simps parse_number_def
      term_value_def digit_def is_digit_def between_def unit_char_def unitMap_def Let_def Second_def Millisecond_def)

section \<open>Properties\<close>

text \<open>
  C21.  \<open>parseDuration\<close> computes the sum of the terms: for one or more terms of a decimal number
  and a unit whose sum in nanoseconds fits a \<open>time.Duration\<close> it returns that sum, and its
  negation after a minus sign.  It returns the default for the empty string and for a single
  term that does not fit.
\<close>

theorem parseDuration_sum:
  assumes "ts \<noteq> []" "\<forall>t \<in> set ts. map_of unitMap (snd t) \<noteq> None"
  shows "parseDuration frac '''' dflt = dflt \<and>
    (total ts < 2 ^ 63 \<longrightarrow> parseDuration frac (written ts) dflt = of_nat (total ts) \<and>
       parseDuration frac (''-'' @ written ts) dflt = - of_nat (total ts)) \<and>
    (2 ^ 63 \<le> total ts \<and> length ts = 1 \<longrightarrow> parseDuration frac (written ts) dflt = dflt)"
proof (intro conjI impI)
  show "parseDuration frac '''' dflt = dflt" by (simp add: parseDuration_def)
next
  assume "total ts < 2 ^ 63"
  then show "parseDuration frac (written ts) dflt = of_nat (total ts)"
    "parseDuration frac (''-'' @ written ts) dflt = - of_nat (total ts)"
    using parse_terms_written [OF assms(2), of 0 frac] signless [OF written_term [OF assms], of frac] written_term(2) [OF assms]
    by (simp_all add: parseDuration_def)
next
  assume "2 ^ 63 \<le> total ts \<and> length ts = 1"
  then obtain n u where t: "ts = [(n, u)]" "2 ^ 63 \<le> n * unit_of u" by (cases ts; cases "hd ts") (auto simp: total_def)
  then obtain k where k: "map_of unitMap u = Some k" "2 ^ 63 \<le> n * k" using assms(2) by (auto simp: unit_of_def)
  show "parseDuration frac (written ts) dflt = dflt"
    using parse_terms_overflow [OF k, of frac] signless(1) [OF written_term [OF assms], of frac] t(1)
    by (auto simp: parseDuration_def written_def)
qed

theorem parseDuration_sum_witness:
  "written [(1, ''h''), (30, ''m'')] = ''1h30m'' \<and> parseDuration (\<lambda>_ _ _. 0) ''1h30m'' 7 = 5400000000000 \<and>
   parseDuration (\<lambda>_ _ _. 0) ''-1h30m'' 7 = - 5400000000000"
proof -
  have w: "written [(1, ''h''), (30, ''m'')] = ''1h30m''" by code_simp
  have "total [(1, ''h''), (30, ''m'')] = 5400000000000" "\<forall>t \<in> set [(1, ''h''), (30, ''m'')]. map_of unitMap (snd t) \<noteq> None"
    by (simp_all add: total_def unit_of_def unitMap_def)
  with parseDuration_sum [of "[(1, ''h''), (30, ''m'')]" "\<lambda>_ _ _. 0" 7] w show ?thesis by simp
qed

end
