(* ===== verification/Drain.thy ===== *)
theory Drain
  imports Health
begin

text \<open>
  Shut-down against running subscriptions (\<open>client.go\<close>): calls of \<open>startDispatchLoop\<close>, the
  goroutines they launch and calls of \<open>cleanupWithContext\<close>, in all interleavings.

  One step is one action between two points where another goroutine may run: a call of the
  AMQP library, an operation on \<open>closeChan\<close>, \<open>closeOnce\<close> or the wait group, a call of the handler.
  The library may answer any call with an error, and open a channel or accept a consumer at any
  time.  What \<open>cleanupWithContext\<close> does besides, stopping the managers and closing the
  channels in the maps, does not touch this state; the managers' own goroutines are the subject
  of the theories \<open>Health\<close> and \<open>ConnManager\<close>.
\<close>

section \<open>State\<close>

type_synonym ch = nat

text \<open>
  The actions another goroutine or the broker can see, latest first: a dedicated channel is
  opened, a delivery on it is settled, it is closed; the wait group is incremented for it; a
  \<open>Wait\<close> returns; the connection is closed.
\<close>

datatype action = Opened ch | Added ch | Settled ch | ClosedCh ch | Waited | ClosedConn

text \<open>
  A call of \<open>startDispatchLoop\<close>: before it reads the connection, with the connection, with a
  channel, about to close it after an error, before \<open>Add\<close>, before \<open>go\<close>, returned.
\<close>

datatype subscribing = SubCall | SubOpen | SubConsume ch | SubFailed ch | SubAdd ch | SubGo ch | SubDone

text \<open>
  A dispatch goroutine: at its \<open>select\<close>, in the handler, before it settles, in the two deferred
  calls.  One that has returned is no longer there.
\<close>

datatype dispatching = AtSelect ch | InHandler ch | AtSettle ch | AtClose ch | AtDone ch

text \<open>
  A call of \<open>cleanupWithContext\<close>: before \<open>closeOnce.Do\<close>, in its function, before \<open>Do\<close> returns, at
  \<open>subscriptionWG.Wait\<close>, before it closes the connection, returned.
\<close>

datatype stopping = AtOnce | AtCloseChan | AtOnceEnd | AtWait | AtConn | Stopped

record drain_state =
  dr_connected :: bool
  dr_closeChan :: bool
  dr_once :: once
  dr_wg :: nat
  dr_next :: nat
  dr_subs :: "subscribing multiset"
  dr_loops :: "dispatching multiset"
  dr_stops :: "stopping multiset"
  dr_log :: "action list"
  dr_panicked :: bool

text \<open>A client that is connected and has no subscription yet.\<close>

definition drain_init :: "drain_state \<Rightarrow> bool" where
  "drain_init s \<longleftrightarrow> s = \<lparr>dr_connected = True, dr_closeChan = False, dr_once = Fresh, dr_wg = 0, dr_next = 0,
     dr_subs = {#}, dr_loops = {#}, dr_stops = {#}, dr_log = [], dr_panicked = False\<rparr>"

section \<open>Steps\<close>

inductive subscribe_step :: "drain_state \<Rightarrow> drain_state \<Rightarrow> bool" where
  sub_not_ready: "dr_subs s = add_mset SubCall S \<Longrightarrow>
    subscribe_step s (s\<lparr>dr_subs := add_mset SubDone S\<rparr>)"
| sub_connected: "dr_subs s = add_mset SubCall S \<Longrightarrow> dr_connected s \<Longrightarrow>
    subscribe_step s (s\<lparr>dr_subs := add_mset SubOpen S\<rparr>)"
| sub_open_error: "dr_subs s = add_mset SubOpen S \<Longrightarrow>
    subscribe_step s (s\<lparr>dr_subs := add_mset SubDone S\<rparr>)"
| sub_open: "dr_subs s = add_mset SubOpen S \<Longrightarrow>
    subscribe_step s (s\<lparr>dr_subs := add_mset (SubConsume (dr_next s)) S, dr_next := Suc (dr_next s),
      dr_log := Opened (dr_next s) # dr_log s\<rparr>)"
| sub_consume_error: "dr_subs s = add_mset (SubConsume c) S \<Longrightarrow>
    subscribe_step s (s\<lparr>dr_subs := add_mset (SubFailed c) S\<rparr>)"
| sub_consume: "dr_subs s = add_mset (SubConsume c) S \<Longrightarrow>
    subscribe_step s (s\<lparr>dr_subs := add_mset (SubAdd c) S\<rparr>)"
| sub_close: "dr_subs s = add_mset (SubFailed c) S \<Longrightarrow>
    subscribe_step s (s\<lparr>dr_subs := add_mset SubDone S, dr_log := ClosedCh c # dr_log s\<rparr>)"
| sub_add: "dr_subs s = add_mset (SubAdd c) S \<Longrightarrow>
    subscribe_step s (s\<lparr>dr_subs := add_mset (SubGo c) S, dr_wg := Suc (dr_wg s), dr_log := Added c # dr_log s\<rparr>)"
| sub_go: "dr_subs s = add_mset (SubGo c) S \<Longrightarrow>
    subscribe_step s (s\<lparr>dr_subs := add_mset SubDone S, dr_loops := add_mset (AtSelect c) (dr_loops s)\<rparr>)"

text \<open>
  The dispatch goroutine.  What it receives in its \<open>select\<close> from outside: a delivery, the end of
  the deliveries, or the end of the context.
\<close>

inductive receive_step :: "drain_state \<Rightarrow> drain_state \<Rightarrow> bool" where
  loop_delivery: "dr_loops s = add_mset (AtSelect c) L \<Longrightarrow>
    receive_step s (s\<lparr>dr_loops := add_mset (InHandler c) L\<rparr>)"
| loop_ended: "dr_loops s = add_mset (AtSelect c) L \<Longrightarrow>
    receive_step s (s\<lparr>dr_loops := add_mset (AtClose c) L\<rparr>)"

text \<open>
  What it does then.  A handler that panics is recovered and returns like one that fails.  With
  automatic acknowledgement nothing is settled.  The deferred calls run in reverse order.
\<close>

inductive dispatch_step :: "drain_state \<Rightarrow> drain_state \<Rightarrow> bool" where
  loop_signal: "dr_loops s = add_mset (AtSelect c) L \<Longrightarrow> dr_closeChan s \<Longrightarrow>
    dispatch_step s (s\<lparr>dr_loops := add_mset (AtClose c) L\<rparr>)"
| loop_handled: "dr_loops s = add_mset (InHandler c) L \<Longrightarrow>
    dispatch_step s (s\<lparr>dr_loops := add_mset (AtSettle c) L\<rparr>)"
| loop_settle: "dr_loops s = add_mset (AtSettle c) L \<Longrightarrow>
    dispatch_step s (s\<lparr>dr_loops := add_mset (AtSelect c) L, dr_log := Settled c # dr_log s\<rparr>)"
| loop_auto: "dr_loops s = add_mset (AtSettle c) L \<Longrightarrow>
    dispatch_step s (s\<lparr>dr_loops := add_mset (AtSelect c) L\<rparr>)"
| loop_close: "dr_loops s = add_mset (AtClose c) L \<Longrightarrow>
    dispatch_step s (s\<lparr>dr_loops := add_mset (AtDone c) L, dr_log := ClosedCh c # dr_log s\<rparr>)"
| loop_done: "dr_loops s = add_mset (AtDone c) L \<Longrightarrow> 0 < dr_wg s \<Longrightarrow>
    dispatch_step s (s\<lparr>dr_loops := L, dr_wg := dr_wg s - 1\<rparr>)"
| loop_done_negative: "dr_loops s = add_mset (AtDone c) L \<Longrightarrow> dr_wg s = 0 \<Longrightarrow>
    dispatch_step s (s\<lparr>dr_loops := L, dr_panicked := True\<rparr>)"

inductive cleanup_step :: "drain_state \<Rightarrow> drain_state \<Rightarrow> bool" where
  once_done: "dr_stops s = add_mset AtOnce C \<Longrightarrow> dr_once s = Done \<Longrightarrow>
    cleanup_step s (s\<lparr>dr_stops := add_mset AtWait C\<rparr>)"
| once_run: "dr_stops s = add_mset AtOnce C \<Longrightarrow> dr_once s = Fresh \<Longrightarrow>
    cleanup_step s (s\<lparr>dr_stops := add_mset AtCloseChan C, dr_once := Running\<rparr>)"
| close_chan: "dr_stops s = add_mset AtCloseChan C \<Longrightarrow> \<not> dr_closeChan s \<Longrightarrow>
    cleanup_step s (s\<lparr>dr_stops := add_mset AtOnceEnd C, dr_closeChan := True\<rparr>)"
| close_chan_closed: "dr_stops s = add_mset AtCloseChan C \<Longrightarrow> dr_closeChan s \<Longrightarrow>
    cleanup_step s (s\<lparr>dr_stops := C, dr_panicked := True\<rparr>)"
| once_end: "dr_stops s = add_mset AtOnceEnd C \<Longrightarrow>
    cleanup_step s (s\<lparr>dr_stops := add_mset AtWait C, dr_once := Done\<rparr>)"
| wait: "dr_stops s = add_mset AtWait C \<Longrightarrow> dr_wg s = 0 \<Longrightarrow>
    cleanup_step s (s\<lparr>dr_stops := add_mset AtConn C, dr_log := Waited # dr_log s\<rparr>)"
| no_conn: "dr_stops s = add_mset AtConn C \<Longrightarrow> \<not> dr_connected s \<Longrightarrow>
    cleanup_step s (s\<lparr>dr_stops := add_mset Stopped C\<rparr>)"
| close_conn: "dr_stops s = add_mset AtConn C \<Longrightarrow> dr_connected s \<Longrightarrow>
    cleanup_step s (s\<lparr>dr_stops := add_mset Stopped C, dr_connected := failed, dr_log := ClosedConn # dr_log s\<rparr>)"

text \<open>The steps the client takes by itself, and those that others cause.\<close>

definition own_step :: "drain_state \<Rightarrow> drain_state \<Rightarrow> bool" where
  "own_step s t \<longleftrightarrow> subscribe_step s t \<or> dispatch_step s t \<or> cleanup_step s t"

inductive drain_step :: "drain_state \<Rightarrow> drain_state \<Rightarrow> bool" where
  by_self: "own_step s t \<Longrightarrow> drain_step s t"
| by_receive: "receive_step s t \<Longrightarrow> drain_step s t"
| by_subscribe: "drain_step s (s\<lparr>dr_subs := add_mset SubCall (dr_subs s)\<rparr>)"
| by_cleanup: "drain_step s (s\<lparr>dr_stops := add_mset AtOnce (dr_stops s)\<rparr>)"

section \<open>What the log has to show\<close>

text \<open>Settling and closing happen on an open channel only; the wait group is used once for each.\<close>

fun in_order :: "action list \<Rightarrow> bool" where
  "in_order [] = True"
| "in_order (Opened c # l) \<longleftrightarrow> Opened c \<notin> set l \<and> in_order l"
| "in_order (Added c # l) \<longleftrightarrow> Opened c \<in> set l \<and> ClosedCh c \<notin> set l \<and> in_order l"
| "in_order (Settled c # l) \<longleftrightarrow> Added c \<in> set l \<and> ClosedCh c \<notin> set l \<and> in_order l"
| "in_order (ClosedCh c # l) \<longleftrightarrow> Opened c \<in> set l \<and> ClosedCh c \<notin> set l \<and> in_order l"
| "in_order (ClosedConn # l) \<longleftrightarrow> Waited \<in> set l \<and> in_order l"
| "in_order (Waited # l) \<longleftrightarrow> in_order l"

text \<open>A subscription was started after a \<open>Wait\<close> of a shut-down had returned.\<close>

fun late :: "action list \<Rightarrow> bool" where
  "late [] = False"
| "late (a # l) \<longleftrightarrow> late l \<or> (\<exists>c. a = Added c) \<and> Waited \<in> set l"

text \<open>A delivery was settled after the connection had been closed.\<close>

fun settled_after_close :: "action list \<Rightarrow> bool" where
  "settled_after_close [] = False"
| "settled_after_close (a # l) \<longleftrightarrow> settled_after_close l \<or> (\<exists>c. a = Settled c) \<and> ClosedConn \<in> set l"

section \<open>Invariant\<close>

text \<open>The channel a call or goroutine is responsible for, while it is open.\<close>

fun sub_holds :: "subscribing \<Rightarrow> ch multiset" where
  "sub_holds (SubConsume c) = {#c#}" | "sub_holds (SubFailed c) = {#c#}" | "sub_holds (SubAdd c) = {#c#}"
| "sub_holds (SubGo c) = {#c#}" | "sub_holds _ = {#}"

fun loop_holds :: "dispatching \<Rightarrow> ch multiset" where
  "loop_holds (AtSelect c) = {#c#}" | "loop_holds (InHandler c) = {#c#}" | "loop_holds (AtSettle c) = {#c#}"
| "loop_holds (AtClose c) = {#c#}" | "loop_holds (AtDone c) = {#}"

definition holds :: "drain_state \<Rightarrow> ch multiset" where
  "holds s = (\<Sum>x \<in># dr_subs s. sub_holds x) + (\<Sum>x \<in># dr_loops s. loop_holds x)"

text \<open>The channels for which the wait group was incremented.\<close>

fun sub_added :: "subscribing \<Rightarrow> ch multiset" where
  "sub_added (SubGo c) = {#c#}" | "sub_added _ = {#}"

definition added :: "drain_state \<Rightarrow> ch multiset" where
  "added s = (\<Sum>x \<in># dr_subs s. sub_added x) + (\<Sum>x \<in># dr_loops s. loop_holds x)"

fun opened :: "action list \<Rightarrow> ch multiset" where
  "opened [] = {#}"
| "opened (Opened c # l) = add_mset c (opened l)"
| "opened (ClosedCh c # l) = opened l - {#c#}"
| "opened (_ # l) = opened l"

fun sub_counts :: "subscribing \<Rightarrow> nat" where
  "sub_counts (SubGo c) = 1" | "sub_counts _ = 0"

definition log_inv :: "drain_state \<Rightarrow> bool" where
  "log_inv s \<longleftrightarrow> in_order (dr_log s) \<and> holds s = opened (dr_log s) \<and>
     (\<forall>c \<in># added s. Added c \<in> set (dr_log s)) \<and> (\<forall>c. Opened c \<in> set (dr_log s) \<longrightarrow> c < dr_next s)"

definition wait_inv :: "drain_state \<Rightarrow> bool" where
  "wait_inv s \<longleftrightarrow> dr_wg s = (\<Sum>x \<in># dr_subs s. sub_counts x) + size (dr_loops s) \<and>
     (AtConn \<in># dr_stops s \<or> Stopped \<in># dr_stops s \<longrightarrow> Waited \<in> set (dr_log s)) \<and>
     (\<not> late (dr_log s) \<and> Waited \<in> set (dr_log s) \<longrightarrow> dr_wg s = 0) \<and>
     (settled_after_close (dr_log s) \<longrightarrow> late (dr_log s))"

definition once_inv :: "drain_state \<Rightarrow> bool" where
  "once_inv s \<longleftrightarrow> (let C = filter_mset (\<lambda>c. c = AtCloseChan \<or> c = AtOnceEnd) (dr_stops s) in
     \<not> dr_panicked s \<and>
     (case dr_once s of
        Fresh \<Rightarrow> C = {#} \<and> \<not> dr_closeChan s \<and> (\<forall>c \<in># dr_stops s. c = AtOnce)
      | Running \<Rightarrow> (C = {#AtCloseChan#} \<and> \<not> dr_closeChan s \<or> C = {#AtOnceEnd#} \<and> dr_closeChan s) \<and>
          (\<forall>c \<in># dr_stops s. c = AtOnce \<or> c = AtCloseChan \<or> c = AtOnceEnd)
      | Done \<Rightarrow> C = {#} \<and> dr_closeChan s))"

definition drain_inv :: "drain_state \<Rightarrow> bool" where
  "drain_inv s \<longleftrightarrow> log_inv s \<and> wait_inv s \<and> once_inv s"

text \<open>Facts about logs.\<close>

lemma closed_opened: "in_order l \<Longrightarrow> ClosedCh c \<in> set l \<Longrightarrow> Opened c \<in> set l"
  by (induction l rule: in_order.induct) auto

lemma opened_count: "in_order l \<Longrightarrow> count (opened l) c = of_bool (Opened c \<in> set l \<and> ClosedCh c \<notin> set l)"
  by (induction l rule: in_order.induct) (auto simp: of_bool_def dest: closed_opened split: if_splits)

lemma opened_member: "in_order l \<Longrightarrow> c \<in># opened l \<longleftrightarrow> Opened c \<in> set l \<and> ClosedCh c \<notin> set l"
  unfolding count_greater_zero_iff [symmetric] by (simp add: opened_count)

lemma held_open:
  assumes "log_inv s" "c \<in># holds s"
  shows "Opened c \<in> set (dr_log s)" "ClosedCh c \<notin> set (dr_log s)"
  using assms opened_member [of "dr_log s" c] by (auto simp: log_inv_def)

lemmas drain_defs = log_inv_def wait_inv_def once_inv_def holds_def added_def Let_def

lemma subscribe_step_log: "subscribe_step s t \<Longrightarrow> log_inv s \<Longrightarrow> log_inv t"
proof (induction rule: subscribe_step.induct)
  case (sub_open s S)
  then have "Opened (dr_next s) \<notin> set (dr_log s)" by (auto simp: log_inv_def)
  with sub_open show ?case by (auto simp: log_inv_def holds_def added_def)
next
  case (sub_close s c S)
  then have "c \<in># holds s" by (simp add: holds_def)
  with sub_close held_open [of s c] show ?case by (auto simp: log_inv_def holds_def added_def dest: sym)
next
  case (sub_add s c S)
  then have "c \<in># holds s" by (simp add: holds_def)
  with sub_add held_open [of s c] show ?case by (auto simp: log_inv_def holds_def added_def)
qed (auto simp: log_inv_def holds_def added_def)

lemma dispatch_step_log: "dispatch_step s t \<Longrightarrow> log_inv s \<Longrightarrow> log_inv t"
proof (induction rule: dispatch_step.induct)
  case (loop_settle s c S)
  then have "c \<in># holds s" "c \<in># added s" by (simp_all add: holds_def added_def)
  with loop_settle held_open [of s c] show ?case by (auto simp: log_inv_def holds_def added_def)
next
  case (loop_close s c S)
  then have "c \<in># holds s" by (simp add: holds_def)
  with loop_close held_open [of s c] show ?case by (auto simp: log_inv_def holds_def added_def dest: sym)
qed (auto simp: log_inv_def holds_def added_def)

lemma cleanup_step_log: "cleanup_step s t \<Longrightarrow> wait_inv s \<Longrightarrow> log_inv s \<Longrightarrow> log_inv t"
  by (induction rule: cleanup_step.induct) (auto simp: log_inv_def wait_inv_def holds_def added_def)

lemma subscribe_step_wait: "subscribe_step s t \<Longrightarrow> wait_inv s \<Longrightarrow> wait_inv t"
  by (induction rule: subscribe_step.induct) (auto simp: wait_inv_def)

lemma waited_before_close: "in_order l \<Longrightarrow> ClosedConn \<in> set l \<Longrightarrow> Waited \<in> set l"
  by (induction l rule: in_order.induct) auto

lemma dispatch_step_wait: "dispatch_step s t \<Longrightarrow> log_inv s \<Longrightarrow> wait_inv s \<Longrightarrow> wait_inv t"
  by (induction rule: dispatch_step.induct) (auto simp: wait_inv_def log_inv_def dest: waited_before_close)

lemma cleanup_step_wait: "cleanup_step s t \<Longrightarrow> wait_inv s \<Longrightarrow> wait_inv t"
  by (induction rule: cleanup_step.induct) (auto simp: wait_inv_def)

lemma subscribe_step_once: "subscribe_step s t \<Longrightarrow> once_inv s \<Longrightarrow> once_inv t"
  by (induction rule: subscribe_step.induct) (auto simp: once_inv_def Let_def split: once.splits)

lemma dispatch_step_once: "dispatch_step s t \<Longrightarrow> wait_inv s \<Longrightarrow> once_inv s \<Longrightarrow> once_inv t"
  by (induction rule: dispatch_step.induct) (auto simp: once_inv_def wait_inv_def Let_def split: once.splits)

lemma cleanup_step_once: "cleanup_step s t \<Longrightarrow> once_inv s \<Longrightarrow> once_inv t"
  by (induction rule: cleanup_step.induct) (auto simp: once_inv_def Let_def split: once.splits)

lemmas drain_keeps = subscribe_step_log dispatch_step_log cleanup_step_log subscribe_step_wait dispatch_step_wait
  cleanup_step_wait subscribe_step_once dispatch_step_once cleanup_step_once

lemma receive_step_inv: "receive_step s t \<Longrightarrow> drain_inv s \<Longrightarrow> drain_inv t"
  by (induction rule: receive_step.induct) (auto simp: drain_inv_def drain_defs split: once.splits)

lemma drain_step_inv: "drain_step s t \<Longrightarrow> drain_inv s \<Longrightarrow> drain_inv t"
proof (induction rule: drain_step.induct)
  case (by_self s t)
  then show ?case unfolding own_step_def drain_inv_def by (blast intro: drain_keeps)
next
  case (by_receive s t)
  then show ?case by (rule receive_step_inv)
qed (auto simp: drain_inv_def drain_defs split: once.splits)

interpretation draining: inductive_invariant drain_init drain_step drain_inv
proof
  show "drain_init s \<Longrightarrow> drain_inv s" for s by (simp add: drain_init_def drain_inv_def drain_defs)
qed (rule drain_step_inv)

section \<open>Shut-down returns\<close>

fun sub_weight :: "subscribing \<Rightarrow> nat" where
  "sub_weight SubCall = 8" | "sub_weight SubOpen = 7" | "sub_weight (SubConsume c) = 6" | "sub_weight (SubAdd c) = 5"
| "sub_weight (SubGo c) = 4" | "sub_weight (SubFailed c) = 1" | "sub_weight SubDone = 0"

fun loop_weight :: "dispatching \<Rightarrow> nat" where
  "loop_weight (InHandler c) = 5" | "loop_weight (AtSettle c) = 4" | "loop_weight (AtSelect c) = 3"
| "loop_weight (AtClose c) = 2" | "loop_weight (AtDone c) = 1"

fun cleanup_weight :: "stopping \<Rightarrow> nat" where
  "cleanup_weight AtOnce = 5" | "cleanup_weight AtCloseChan = 4" | "cleanup_weight AtOnceEnd = 3"
| "cleanup_weight AtWait = 2" | "cleanup_weight AtConn = 1" | "cleanup_weight Stopped = 0"

definition drain_weight :: "drain_state \<Rightarrow> nat" where
  "drain_weight s = (\<Sum>x \<in># dr_subs s. sub_weight x) + (\<Sum>x \<in># dr_loops s. loop_weight x) +
     (\<Sum>x \<in># dr_stops s. cleanup_weight x)"

lemma drain_weight_decreases: "own_step s t \<Longrightarrow> drain_weight t < drain_weight s"
  unfolding own_step_def
  by (auto simp: drain_weight_def elim!: subscribe_step.cases dispatch_step.cases cleanup_step.cases)

lemma subscribe_enabled: "x \<in># dr_subs s \<Longrightarrow> x \<noteq> SubDone \<Longrightarrow> \<exists>t. subscribe_step s t"
  by (cases x) (auto dest!: multi_member_split intro: subscribe_step.intros)

lemma dispatch_enabled:
  assumes "x \<in># dr_loops s" "dr_closeChan s \<or> (\<nexists>c. x = AtSelect c)"
  shows "\<exists>t. dispatch_step s t"
proof -
  obtain L where L: "dr_loops s = add_mset x L" using assms(1) by (auto dest: multi_member_split)
  show ?thesis
  proof (cases x)
    case (AtDone c)
    with L show ?thesis using loop_done loop_done_negative by (cases "dr_wg s = 0") blast+
  qed (use L assms(2) in \<open>auto intro: dispatch_step.intros\<close>)
qed

lemma signal_given: "once_inv s \<Longrightarrow> c \<in># dr_stops s \<Longrightarrow> c = AtWait \<or> c = AtConn \<or> c = Stopped \<Longrightarrow> dr_closeChan s"
  by (auto simp: once_inv_def Let_def split: once.splits)

lemma cleanup_enabled:
  assumes "drain_inv s" "c \<in># dr_stops s" "c \<noteq> Stopped"
  shows "\<exists>t. own_step s t"
proof -
  have once: "once_inv s" using assms(1) by (simp add: drain_inv_def)
  have run: "\<exists>t. own_step s t" if "AtCloseChan \<in># dr_stops s \<or> AtOnceEnd \<in># dr_stops s"
    using that close_chan close_chan_closed once_end unfolding own_step_def by (metis multi_member_split)
  obtain C where C: "dr_stops s = add_mset c C" using assms(2) by (auto dest: multi_member_split)
  show ?thesis
  proof (cases c)
    case AtOnce
    show ?thesis
    proof (cases "dr_once s")
      case Running
      then have "filter_mset (\<lambda>c. c = AtCloseChan \<or> c = AtOnceEnd) (dr_stops s) \<noteq> {#}"
        using once by (auto simp: once_inv_def Let_def simp del: filter_mset_eq_mempty_iff)
      then show ?thesis using run by auto
    qed (use C AtOnce once_run once_done own_step_def in blast)+
  next
    case AtWait
    show ?thesis
    proof (cases "dr_wg s = 0")
      case True
      then show ?thesis using C AtWait wait own_step_def by blast
    next
      case False
      moreover have "dr_wg s = (\<Sum>x \<in># dr_subs s. sub_counts x) + size (dr_loops s)"
        using assms(1) by (simp add: drain_inv_def wait_inv_def)
      ultimately have "(\<exists>x \<in># dr_subs s. sub_counts x \<noteq> 0) \<or> dr_loops s \<noteq> {#}" by auto
      then show ?thesis
        using subscribe_enabled [of _ s] dispatch_enabled [of _ s] signal_given [OF once assms(2)] AtWait
        unfolding own_step_def by (metis multiset_nonemptyE sub_counts.simps(7))
    qed
  next
    case AtConn
    then show ?thesis using C no_conn close_conn own_step_def by blast
  qed (use assms run in auto)
qed

section \<open>Sample runs\<close>

definition sample_drain :: "bool \<Rightarrow> bool \<Rightarrow> once \<Rightarrow> nat \<Rightarrow> subscribing multiset \<Rightarrow> dispatching multiset \<Rightarrow>
    stopping multiset \<Rightarrow> action list \<Rightarrow> drain_state" where
  "sample_drain conn cl o1 wg S L C l = \<lparr>dr_connected = conn, dr_closeChan = cl, dr_once = o1, dr_wg = wg,
     dr_next = length (filter (\<lambda>a. \<exists>c. a = Opened c) l), dr_subs = S, dr_loops = L, dr_stops = C, dr_log = l, dr_panicked = False\<rparr>"

lemma steps_into:
  "subscribe_step s t \<Longrightarrow> drain_step s t" "dispatch_step s t \<Longrightarrow> drain_step s t"
  "cleanup_step s t \<Longrightarrow> drain_step s t" "receive_step s t \<Longrightarrow> drain_step s t"
  by (auto simp: own_step_def intro: by_self by_receive)

text \<open>A subscription up to \<open>Add\<close>.\<close>

lemma early_steps:
  "drain_step (sample_drain True False Fresh 0 {#} {#} {#} []) (sample_drain True False Fresh 0 {#SubCall#} {#} {#} [])"
  "drain_step (sample_drain True False Fresh 0 {#SubCall#} {#} {#} []) (sample_drain True False Fresh 0 {#SubOpen#} {#} {#} [])"
  "drain_step (sample_drain True False Fresh 0 {#SubOpen#} {#} {#} []) (sample_drain True False Fresh 0 {#SubConsume 0#} {#} {#} [Opened 0])"
  "drain_step (sample_drain True False Fresh 0 {#SubConsume 0#} {#} {#} [Opened 0]) (sample_drain True False Fresh 0 {#SubAdd 0#} {#} {#} [Opened 0])"
  using by_subscribe [of "sample_drain True False Fresh 0 {#} {#} {#} []"]
    sub_connected [of "sample_drain True False Fresh 0 {#SubCall#} {#} {#} []" "{#}"]
    sub_open [of "sample_drain True False Fresh 0 {#SubOpen#} {#} {#} []" "{#}"]
    sub_consume [of "sample_drain True False Fresh 0 {#SubConsume 0#} {#} {#} [Opened 0]" 0 "{#}"]
  by (simp_all add: steps_into sample_drain_def)

text \<open>Then a whole shut-down, the rest of the subscription, and a delivery.\<close>

lemma late_steps:
  "drain_step (sample_drain True False Fresh 0 {#SubAdd 0#} {#} {#} [Opened 0]) (sample_drain True False Fresh 0 {#SubAdd 0#} {#} {#AtOnce#} [Opened 0])"
  "drain_step (sample_drain True False Fresh 0 {#SubAdd 0#} {#} {#AtOnce#} [Opened 0]) (sample_drain True False Running 0 {#SubAdd 0#} {#} {#AtCloseChan#} [Opened 0])"
  "drain_step (sample_drain True False Running 0 {#SubAdd 0#} {#} {#AtCloseChan#} [Opened 0]) (sample_drain True True Running 0 {#SubAdd 0#} {#} {#AtOnceEnd#} [Opened 0])"
  "drain_step (sample_drain True True Running 0 {#SubAdd 0#} {#} {#AtOnceEnd#} [Opened 0]) (sample_drain True True Done 0 {#SubAdd 0#} {#} {#AtWait#} [Opened 0])"
  "drain_step (sample_drain True True Done 0 {#SubAdd 0#} {#} {#AtWait#} [Opened 0]) (sample_drain True True Done 0 {#SubAdd 0#} {#} {#AtConn#} [Waited, Opened 0])"
  "drain_step (sample_drain True True Done 0 {#SubAdd 0#} {#} {#AtConn#} [Waited, Opened 0]) (sample_drain False True Done 0 {#SubAdd 0#} {#} {#Stopped#} [ClosedConn, Waited, Opened 0])"
  "drain_step (sample_drain False True Done 0 {#SubAdd 0#} {#} {#Stopped#} [ClosedConn, Waited, Opened 0]) (sample_drain False True Done 1 {#SubGo 0#} {#} {#Stopped#} [Added 0, ClosedConn, Waited, Opened 0])"
  "drain_step (sample_drain False True Done 1 {#SubGo 0#} {#} {#Stopped#} [Added 0, ClosedConn, Waited, Opened 0]) (sample_drain False True Done 1 {#SubDone#} {#AtSelect 0#} {#Stopped#} [Added 0, ClosedConn, Waited, Opened 0])"
  "drain_step (sample_drain False True Done 1 {#SubDone#} {#AtSelect 0#} {#Stopped#} [Added 0, ClosedConn, Waited, Opened 0]) (sample_drain False True Done 1 {#SubDone#} {#InHandler 0#} {#Stopped#} [Added 0, ClosedConn, Waited, Opened 0])"
  "drain_step (sample_drain False True Done 1 {#SubDone#} {#InHandler 0#} {#Stopped#} [Added 0, ClosedConn, Waited, Opened 0]) (sample_drain False True Done 1 {#SubDone#} {#AtSettle 0#} {#Stopped#} [Added 0, ClosedConn, Waited, Opened 0])"
  "drain_step (sample_drain False True Done 1 {#SubDone#} {#AtSettle 0#} {#Stopped#} [Added 0, ClosedConn, Waited, Opened 0]) (sample_drain False True Done 1 {#SubDone#} {#AtSelect 0#} {#Stopped#} [Settled 0, Added 0, ClosedConn, Waited, Opened 0])"
  using by_cleanup [of "sample_drain True False Fresh 0 {#SubAdd 0#} {#} {#} [Opened 0]"]
    once_run [of "sample_drain True False Fresh 0 {#SubAdd 0#} {#} {#AtOnce#} [Opened 0]" "{#}"]
    close_chan [of "sample_drain True False Running 0 {#SubAdd 0#} {#} {#AtCloseChan#} [Opened 0]" "{#}"]
    once_end [of "sample_drain True True Running 0 {#SubAdd 0#} {#} {#AtOnceEnd#} [Opened 0]" "{#}"]
    wait [of "sample_drain True True Done 0 {#SubAdd 0#} {#} {#AtWait#} [Opened 0]" "{#}"]
    close_conn [of "sample_drain True True Done 0 {#SubAdd 0#} {#} {#AtConn#} [Waited, Opened 0]" "{#}" False]
    sub_add [of "sample_drain False True Done 0 {#SubAdd 0#} {#} {#Stopped#} [ClosedConn, Waited, Opened 0]" 0 "{#}"]
    sub_go [of "sample_drain False True Done 1 {#SubGo 0#} {#} {#Stopped#} [Added 0, ClosedConn, Waited, Opened 0]" 0 "{#}"]
    loop_delivery [of "sample_drain False True Done 1 {#SubDone#} {#AtSelect 0#} {#Stopped#} [Added 0, ClosedConn, Waited, Opened 0]" 0 "{#}"]
    loop_handled [of "sample_drain False True Done 1 {#SubDone#} {#InHandler 0#} {#Stopped#} [Added 0, ClosedConn, Waited, Opened 0]" 0 "{#}"]
    loop_settle [of "sample_drain False True Done 1 {#SubDone#} {#AtSettle 0#} {#Stopped#} [Added 0, ClosedConn, Waited, Opened 0]" 0 "{#}"]
  by (simp_all add: steps_into sample_drain_def)

text \<open>Or the rest of the subscription, and a shut-down during the handler.\<close>

lemma orderly_steps:
  "drain_step (sample_drain True False Fresh 0 {#SubAdd 0#} {#} {#} [Opened 0]) (sample_drain True False Fresh 1 {#SubGo 0#} {#} {#} [Added 0, Opened 0])"
  "drain_step (sample_drain True False Fresh 1 {#SubGo 0#} {#} {#} [Added 0, Opened 0]) (sample_drain True False Fresh 1 {#SubDone#} {#AtSelect 0#} {#} [Added 0, Opened 0])"
  "drain_step (sample_drain True False Fresh 1 {#SubDone#} {#AtSelect 0#} {#} [Added 0, Opened 0]) (sample_drain True False Fresh 1 {#SubDone#} {#InHandler 0#} {#} [Added 0, Opened 0])"
  "drain_step (sample_drain True False Fresh 1 {#SubDone#} {#InHandler 0#} {#} [Added 0, Opened 0]) (sample_drain True False Fresh 1 {#SubDone#} {#InHandler 0#} {#AtOnce#} [Added 0, Opened 0])"
  "drain_step (sample_drain True False Fresh 1 {#SubDone#} {#InHandler 0#} {#AtOnce#} [Added 0, Opened 0]) (sample_drain True False Running 1 {#SubDone#} {#InHandler 0#} {#AtCloseChan#} [Added 0, Opened 0])"
  "drain_step (sample_drain True False Running 1 {#SubDone#} {#InHandler 0#} {#AtCloseChan#} [Added 0, Opened 0]) (sample_drain True True Running 1 {#SubDone#} {#InHandler 0#} {#AtOnceEnd#} [Added 0, Opened 0])"
  "drain_step (sample_drain True True Running 1 {#SubDone#} {#InHandler 0#} {#AtOnceEnd#} [Added 0, Opened 0]) (sample_drain True True Done 1 {#SubDone#} {#InHandler 0#} {#AtWait#} [Added 0, Opened 0])"
  "drain_step (sample_drain True True Done 1 {#SubDone#} {#InHandler 0#} {#AtWait#} [Added 0, Opened 0]) (sample_drain True True Done 1 {#SubDone#} {#AtSettle 0#} {#AtWait#} [Added 0, Opened 0])"
  "drain_step (sample_drain True True Done 1 {#SubDone#} {#AtSettle 0#} {#AtWait#} [Added 0, Opened 0]) (sample_drain True True Done 1 {#SubDone#} {#AtSelect 0#} {#AtWait#} [Settled 0, Added 0, Opened 0])"
  "drain_step (sample_drain True True Done 1 {#SubDone#} {#AtSelect 0#} {#AtWait#} [Settled 0, Added 0, Opened 0]) (sample_drain True True Done 1 {#SubDone#} {#AtClose 0#} {#AtWait#} [Settled 0, Added 0, Opened 0])"
  "drain_step (sample_drain True True Done 1 {#SubDone#} {#AtClose 0#} {#AtWait#} [Settled 0, Added 0, Opened 0]) (sample_drain True True Done 1 {#SubDone#} {#AtDone 0#} {#AtWait#} [ClosedCh 0, Settled 0, Added 0, Opened 0])"
  "drain_step (sample_drain True True Done 1 {#SubDone#} {#AtDone 0#} {#AtWait#} [ClosedCh 0, Settled 0, Added 0, Opened 0]) (sample_drain True True Done 0 {#SubDone#} {#} {#AtWait#} [ClosedCh 0, Settled 0, Added 0, Opened 0])"
  "drain_step (sample_drain True True Done 0 {#SubDone#} {#} {#AtWait#} [ClosedCh 0, Settled 0, Added 0, Opened 0]) (sample_drain True True Done 0 {#SubDone#} {#} {#AtConn#} [Waited, ClosedCh 0, Settled 0, Added 0, Opened 0])"
  "drain_step (sample_drain True True Done 0 {#SubDone#} {#} {#AtConn#} [Waited, ClosedCh 0, Settled 0, Added 0, Opened 0]) (sample_drain False True Done 0 {#SubDone#} {#} {#Stopped#} [ClosedConn, Waited, ClosedCh 0, Settled 0, Added 0, Opened 0])"
  using sub_add [of "sample_drain True False Fresh 0 {#SubAdd 0#} {#} {#} [Opened 0]" 0 "{#}"]
    sub_go [of "sample_drain True False Fresh 1 {#SubGo 0#} {#} {#} [Added 0, Opened 0]" 0 "{#}"]
    loop_delivery [of "sample_drain True False Fresh 1 {#SubDone#} {#AtSelect 0#} {#} [Added 0, Opened 0]" 0 "{#}"]
    by_cleanup [of "sample_drain True False Fresh 1 {#SubDone#} {#InHandler 0#} {#} [Added 0, Opened 0]"]
    once_run [of "sample_drain True False Fresh 1 {#SubDone#} {#InHandler 0#} {#AtOnce#} [Added 0, Opened 0]" "{#}"]
    close_chan [of "sample_drain True False Running 1 {#SubDone#} {#InHandler 0#} {#AtCloseChan#} [Added 0, Opened 0]" "{#}"]
    once_end [of "sample_drain True True Running 1 {#SubDone#} {#InHandler 0#} {#AtOnceEnd#} [Added 0, Opened 0]" "{#}"]
    loop_handled [of "sample_drain True True Done 1 {#SubDone#} {#InHandler 0#} {#AtWait#} [Added 0, Opened 0]" 0 "{#}"]
    loop_settle [of "sample_drain True True Done 1 {#SubDone#} {#AtSettle 0#} {#AtWait#} [Added 0, Opened 0]" 0 "{#}"]
    loop_signal [of "sample_drain True True Done 1 {#SubDone#} {#AtSelect 0#} {#AtWait#} [Settled 0, Added 0, Opened 0]" 0 "{#}"]
    loop_close [of "sample_drain True True Done 1 {#SubDone#} {#AtClose 0#} {#AtWait#} [Settled 0, Added 0, Opened 0]" 0 "{#}"]
    loop_done [of "sample_drain True True Done 1 {#SubDone#} {#AtDone 0#} {#AtWait#} [ClosedCh 0, Settled 0, Added 0, Opened 0]" 0 "{#}"]
    wait [of "sample_drain True True Done 0 {#SubDone#} {#} {#AtWait#} [ClosedCh 0, Settled 0, Added 0, Opened 0]" "{#}"]
    close_conn [of "sample_drain True True Done 0 {#SubDone#} {#} {#AtConn#} [Waited, ClosedCh 0, Settled 0, Added 0, Opened 0]" "{#}" False]
  by (simp_all add: steps_into sample_drain_def)

lemma sample_drain_init: "reachable drain_init drain_step (sample_drain True False Fresh 0 {#} {#} {#} [])"
  by (rule reach_init) (simp add: drain_init_def sample_drain_def)

lemmas drain_run = reach_step [where step = drain_step and init = drain_init, rotated]

lemma late_end: "reachable drain_init drain_step
    (sample_drain False True Done 1 {#SubDone#} {#AtSelect 0#} {#Stopped#} [Settled 0, Added 0, ClosedConn, Waited, Opened 0])"
  by (intro sample_drain_init early_steps [THEN drain_run] late_steps [THEN drain_run])

lemma orderly_end: "reachable drain_init drain_step
    (sample_drain False True Done 0 {#SubDone#} {#} {#Stopped#} [ClosedConn, Waited, ClosedCh 0, Settled 0, Added 0, Opened 0])"
  by (intro sample_drain_init early_steps [THEN drain_run] orderly_steps [THEN drain_run])

section \<open>Properties\<close>






end
