(* ===== verification/Spec2Isabelle.thy ===== *)
theory Spec2Isabelle
  imports System Durations Drain
begin

text \<open>
  Verification of the RabbitMQ plugin of the Lynx framework (package \<open>rabbitmq\<close> under
  \<open>src/\<close>).

  \<^bold>\<open>The program.\<close>  \<open>RabbitMQClient\<close> (\<open>client.go\<close>) owns one AMQP connection, a map of producer
  channels, a map of consumer channels and the goroutines of its subscriptions.
  \<open>InitializeResources\<close> reads and normalises the configuration (\<open>conf/rabbitmq.pb.go\<close>,
  \<open>normalizeRabbitMQConfig\<close>) and creates a health checker, a connection manager, a retry handler
  (\<open>managers.go\<close>) and a goroutine pool (\<open>pool.go\<close>).  Start-up dials, creates the channels,
  starts the two managers and tells the plugin runtime that the plugin is ready
  (\<open>runtime_contract.go\<close>).  Messages are published on the producer channels; every subscription
  has its own channel and dispatch goroutine.  When the broker drops the connection the
  manager calls back into the client, which dials again, rebuilds the channels and restarts
  the subscriptions.  Shut-down stops the managers, waits for the dispatch goroutines and
  closes channels and connection.  \<open>metrics.go\<close>, \<open>health.go\<close>, \<open>errors.go\<close>, \<open>utils.go\<close>,
  \<open>constants.go\<close> and \<open>lifecycle_context.go\<close> complete the package.

  \<^bold>\<open>The theories\<close>, each with its definitions first and its properties last:

  \<^item> \<open>Prelude\<close>: Go's scalar types, weakest preconditions for the state monad, reachable states
    and the locale \<open>inductive_invariant\<close>.
  \<^item> \<open>GoErrors\<close> (\<open>errors.go\<close>): the sentinel errors, wrapping, \<open>IsError\<close>.
  \<^item> \<open>Names\<close> (\<open>constants.go\<close>, \<open>utils.go\<close>): constants, name validators, \<open>buildAMQPURL\<close>.  Which names
    are accepted, and with which error the others are rejected; the locale \<open>name_validator\<close> is
    the contract the three validators share.
  \<^item> \<open>Config\<close> (\<open>conf/rabbitmq.pb.go\<close>, \<open>client.go\<close>): the messages, the defaults and normalisation.
    It succeeds exactly on acceptable configurations, yields well-formed ones, is idempotent and
    changes only what was unset.  The locale \<open>normalizer\<close> serves its two loops.
  \<^item> \<open>Retry\<close> (\<open>managers.go\<close>): \<open>DoWithRetry\<close>.  Which round decides its result, how often it calls
    the operation, how long it sleeps.
  \<^item> \<open>Metrics\<close> (\<open>metrics.go\<close>): counters on 64-bit words and the exposition to the byte, with a
    scraper that reads every value back.
  \<^item> \<open>Pool\<close> (\<open>pool.go\<close>): workers and callers in all interleavings.  No panic, no lost or repeated
    task; \<open>Wait\<close> returns when the work is done; runs are bounded.
  \<^item> \<open>Health\<close>, \<open>ConnManager\<close> (\<open>managers.go\<close>): both managers in all interleavings of their goroutines
    and calls.  The stop channel is closed once, stopping ends the goroutines, and the methods
    as functions on the record refine their step-by-step form.
  \<^item> \<open>Drain\<close> (\<open>client.go\<close>): shut-downs, subscriptions and dispatch goroutines in all
    interleavings, at the granularity of \<open>closeChan\<close>, \<open>closeOnce\<close> and the wait group.  Deliveries
    are settled on open channels only, shut-down returns and leaves no goroutine behind unless
    a subscription is started while it runs, and such a subscription can outlive it.
  \<^item> \<open>NetURL\<close>, \<open>Durations\<close>: what the package uses of Go's \<open>net/url\<close> and \<open>time\<close>, and \<open>parseDuration\<close>
    (\<open>utils.go\<close>).
  \<^item> \<open>World\<close>: the state of the client, and everything outside the package as events of a history
    whose replies are arbitrary functions of the past.  \<open>unclosed\<close> and \<open>live\<close> compute the channels
    and connections opened and not closed by the client, \<open>orderly\<close> says that no call was made on
    any other.
  \<^item> \<open>Client\<close> (\<open>client.go\<close>, \<open>health.go\<close>): dialling, producers and consumers, probe, \<open>CheckHealth\<close>;
    the exact calls each makes.  The locale \<open>channel_creator\<close> serves both creation loops.
  \<^item> \<open>Messaging\<close> (\<open>client.go\<close>): publishing, subscribing, dispatch.
  \<^item> \<open>Lifecycle\<close> (\<open>client.go\<close>, \<open>runtime_contract.go\<close>, \<open>lifecycle_context.go\<close>): initialisation,
    start-up, shut-down, reconnection; the invariant \<open>client_inv\<close> and the accounting \<open>accounts\<close> of
    what is open.
  \<^item> \<open>System\<close>: \<open>client_step\<close>, one call of a method, one health check, one attempt to reconnect or
    one run of a dispatch goroutine; every step keeps \<open>client_inv\<close>.  It also has the environments
    and runs on which the witnesses are evaluated.
  \<^item> This theory: the properties of the whole client.  It never uses a channel or connection it
    has closed and never panics; start-up, shut-down, subscription and reconnection keep their
    contracts; starting and stopping leaks nothing; the client refines a machine of four phases.
    The last properties record behaviour that is probably not intended: restarting leaks a
    connection and never reports one again, a failed subscription comes back, equal names leak a
    channel.

  \<^bold>\<open>Correspondence.\<close>  Definitions have the names of the Go functions, with the type in front
  where two types have a method of one name.  A struct is a record, a pointer an \<open>option\<close>, a Go
  map an association list without duplicate keys, an error \<^const>\<open>None\<close> or \<open>Some\<close> of a \<open>goerror\<close>.
  A method that changes the client is a value of the state monad; a panic is a value of
  \<open>outcome\<close>.  Map iteration takes the order the environment chooses.

  \<^bold>\<open>Parameters.\<close>  The AMQP library, the plugin runtime, the configuration source, the clock and the
  users' handlers are the record \<open>env\<close>.  No law about them is assumed: the theorems hold for every
  broker, and a connection or channel the broker has closed on its own is one whose calls
  return errors.  The \<open>Duration\<close> message of protobuf is \<open>durationpb\<close> with the law
  \<open>durationpb_ok\<close>.  The IPv6 test of \<open>net/netip\<close> and the floating-point product in
  \<open>time.ParseDuration\<close> are arguments.

  \<^bold>\<open>Bounds.\<close>  No definition takes fuel.  The retry loop recurses on the attempts left, the parser
  of durations on the length of its input.  A dispatch goroutine runs over a finite list of
  the outcomes of its \<open>select\<close>, which is arbitrary.  The reconnect loop, which may run for ever,
  is a step relation.

  \<^bold>\<open>Not modelled.\<close>  Log output.  The interleaving of two methods of the client inside one another,
  beyond what \<open>Drain\<close> covers: each step of \<open>client_step\<close> runs to its end, so the mutexes of the
  client's maps are not in the model, while the managers and the pool are modelled step by step.
  A task that calls the pool that runs it.  The interface declarations (\<open>interfaces.go\<close>), the
  registration in \<open>plug.go\<close>, the \<open>BasePlugin\<close> part of the constructor, and the getters and
  descriptors that protoc generates.
\<close>

section \<open>Properties of the whole client\<close>



text \<open>
  C6.  No method call, health check, reconnection or dispatch panics in a reachable state:
  no nil connection, channel or configuration entry is used and no Go channel is closed twice.
\<close>

theorem client_never_panics:
  assumes "reachable (\<lambda>s. s = NewRabbitMQClient E) (client_step E) s" "enabled s c"
  shows "fst (run_state (perform E c) s) = False"
  using perform_inv [OF client.inv_reachable [OF assms(1)] assms(2), of E] by (simp add: wp_def split: prod.splits)

theorem client_never_panics_witness:
  "fst (run_state (perform sample_env (CallStop Background)) stopped) = False"
  by (rule client_never_panics [OF sample_runs_reachable(3)]) simp

text \<open>
  C3.  Start-up.  It never panics.  If it returns nil, the client has a new connection, the
  name of every enabled producer and consumer is valid and has an open channel of that
  connection, the connection manager is connected and the health checker healthy, and the
  runtime was told last that the plugin is ready and healthy.  If it returns an error, the
  runtime was told last that it is not, unless the context had ended before anything was done.
  Channels opened on the way are in the maps, so that shut-down closes them.
\<close>

theorem startup_contract:
  assumes "reachable (\<lambda>s. s = NewRabbitMQClient E) (client_step E) s" "run_state (startupWithContext E ctx) s = (x, t)"
  shows "startup_post s x t"
  using wpD [OF startup_wp [OF client.inv_reachable [OF assms(1)]] assms(2)] .

theorem startup_contract_witness:
  "\<exists>t. run_state (startupWithContext sample_env Background) initialised = (Returns None, t) \<and>
     startup_post initialised (Returns None) t"
proof -
  have "fst (run_state (startupWithContext sample_env Background) initialised) = Returns None" by code_simp
  from startup_contract [OF sample_runs_reachable(1) run_result [OF this]] run_result [OF this] show ?thesis by blast
qed

text \<open>
  C2.  Shut-down with a context that has not ended.  It never panics.  Afterwards both maps are
  empty and no dispatch goroutine runs; exactly the channels the client owned have been closed,
  each once; the close signal is given, the health checker and the connection manager are
  stopped; the runtime was told last that the plugin is not ready.  It returns nil with the
  connection closed and forgotten, or the error of closing it with the connection kept.
\<close>

theorem cleanup_contract:
  assumes "reachable (\<lambda>s. s = NewRabbitMQClient E) (client_step E) s" "run_state (CleanupTasks E) s = (x, t)"
  shows "cleanup_post s x t"
  using wpD [OF cleanup_background_wp [OF client.inv_reachable [OF assms(1)]] assms(2)] .

theorem cleanup_contract_witness:
  "\<exists>t. run_state (CleanupTasks sample_env) (started sample_env) = (Returns None, t) \<and>
     cleanup_post (started sample_env) (Returns None) t"
proof -
  have "fst (run_state (CleanupTasks sample_env) (started sample_env)) = Returns None" by code_simp
  from cleanup_contract [OF sample_runs_reachable(2) run_result [OF this]] run_result [OF this] show ?thesis by blast
qed

text \<open>
  C4.  Start-up followed by shut-down leaks nothing: from a client without connection and
  channels whose enabled names are distinct, whatever start-up returned, once shut-down has
  returned nil every channel and every connection that was opened has been closed.
\<close>

theorem start_stop_clean:
  assumes "reachable (\<lambda>s. s = NewRabbitMQClient E) (client_step E) s"
    and "accounts s" "connection s = None" "producers s = []" "consumers s = []" "distinct_names (config s)"
    and start: "run_state (startupWithContext E ctx) s = (x, t)" and stop: "run_state (CleanupTasks E) t = (Returns None, u)"
  shows "unclosed (history u) = [] \<and> live (history u) = []"
proof -
  have t: "startup_post s x t" using wpD [OF startup_wp [OF client.inv_reachable [OF assms(1)]] start] .
  then have a: "client_inv t" "accounts t" using assms by (simp_all add: startup_post_def starting_def)
  then have "cleanup_post t (Returns None) u" using wpD [OF cleanup_background_wp stop] by blast
  then show ?thesis using a(2) by (simp add: cleanup_post_def accounts_owned)
qed

theorem start_stop_clean_witness:
  "\<exists>t u. run_state (startupWithContext sample_env Background) initialised = (Returns None, t) \<and>
     run_state (CleanupTasks sample_env) t = (Returns None, u) \<and> unclosed (history u) = [] \<and> live (history u) = []"
proof -
  let ?t = "snd (run_state (startupWithContext sample_env Background) initialised)"
  have "unclosed (history initialised) = []" "live (history initialised) = []" "connection initialised = None"
    "producers initialised = []" "consumers initialised = []" "dispatchers initialised = []"
    by code_simp+
  moreover from this have "accounts initialised" by (simp add: accounts_def)
  moreover have "distinct_names (config initialised)" by code_simp
  moreover have "fst (run_state (startupWithContext sample_env Background) initialised) = Returns None" by code_simp
  note start = run_result [OF this]
  moreover have "fst (run_state (CleanupTasks sample_env) ?t) = Returns None" by code_simp
  note stop = run_result [OF this]
  ultimately show ?thesis
    using start_stop_clean [OF sample_runs_reachable(1) _ _ _ _ _ start stop] by blast
qed

text \<open>
  C38.  A second start-up leaks the connection of the first.  If a client that already has a
  connection is started again, with success, then shut-down never closes the old connection.
\<close>

theorem restart_leaks_connection:
  assumes "reachable (\<lambda>s. s = NewRabbitMQClient E) (client_step E) s" "connection s = Some c"
    and start: "run_state (startupWithContext E ctx) s = (Returns None, t)" and stop: "run_state (CleanupTasks E) t = (x, u)"
  shows "c \<in> set (live (history u))"
proof -
  have inv: "client_inv s" using client.inv_reachable [OF assms(1)] .
  have t: "startup_post s (Returns None) t" using wpD [OF startup_wp [OF inv] start] .
  have c: "c \<in> set (live (history s))" using inv_live [OF inv assms(2)] .
  have "cleanup_post t x u" using wpD [OF cleanup_background_wp stop] t by (simp add: startup_post_def starting_def)
  moreover obtain c' where "connection t = Some c'" "c' \<noteq> c" using t c by (auto simp: startup_post_def)
  moreover have "c \<in> set (live (history t))" using t c by (auto simp: startup_post_def starting_def)
  ultimately show ?thesis by (auto simp: cleanup_post_def)
qed

theorem restart_leaks_connection_witness:
  "\<exists>t u. connection (started sample_env) = Some 6 \<and>
     run_state (startupWithContext sample_env Background) (started sample_env) = (Returns None, t) \<and>
     run_state (CleanupTasks sample_env) t = (Returns None, u) \<and> 6 \<in> set (live (history u))"
proof -
  let ?t = "snd (run_state (startupWithContext sample_env Background) (started sample_env))"
  have c: "connection (started sample_env) = Some 6" by code_simp
  have "fst (run_state (startupWithContext sample_env Background) (started sample_env)) = Returns None" by code_simp
  note start = run_result [OF this]
  have "fst (run_state (CleanupTasks sample_env) ?t) = Returns None" by code_simp
  note stop = run_result [OF this]
  from restart_leaks_connection [OF sample_runs_reachable(2) c start stop] c start stop show ?thesis by blast
qed

text \<open>
  C37.  After a shut-down a client can have a connection but never reports one.  If it is started
  once more, \<open>IsConnected\<close> is false, although start-up can return nil.  If an attempt to
  reconnect that was under way during the shut-down succeeds after it, the client holds a new
  open connection, which the shut-down did not close, and \<open>IsConnected\<close> is false.
\<close>

theorem restart_not_connected:
  assumes "reachable (\<lambda>s. s = NewRabbitMQClient E) (client_step E) s" "closed_flag s"
  shows "(\<forall>x t. run_state (startupWithContext E ctx) s = (x, t) \<longrightarrow> IsConnected E t = False) \<and>
    (\<forall>c t. run_state (reconnect_round E) s = (Returns (Inr c), t) \<longrightarrow>
       connection t = Some c \<and> c \<in> set (live (history t)) \<and> IsConnected E t = False)"
proof (intro conjI allI impI)
  note inv = client.inv_reachable [OF assms(1)]
  show "IsConnected E t = False" if "run_state (startupWithContext E ctx) s = (x, t)" for x t
    using wpD [OF startup_wp [OF inv] that] assms(2) by (simp add: startup_post_def starting_def IsConnected_def)
  fix c t assume "run_state (reconnect_round E) s = (Returns (Inr c), t)"
  from wpD [OF reconnect_wp [OF inv] this]
  have "client_inv t" "connection t = Some c" "closed_flag t" using assms(2) by (simp_all add: reconnected_def)
  then show "connection t = Some c" "c \<in> set (live (history t))" "IsConnected E t = False"
    using inv_live by (auto simp: IsConnected_def)
qed

theorem restart_not_connected_witness:
  "\<exists>t u c. run_state (startupWithContext sample_env Background) stopped = (Returns None, t) \<and>
     CheckHealth sample_env t = None \<and> IsConnected sample_env t = False \<and>
     run_state (reconnect_round sample_env) stopped = (Returns (Inr c), u) \<and> c \<in> set (live (history u))"
proof -
  let ?t = "snd (run_state (startupWithContext sample_env Background) stopped)"
  have closed: "closed_flag stopped" and health: "CheckHealth sample_env ?t = None" by code_simp+
  have "fst (run_state (startupWithContext sample_env Background) stopped) = Returns None" by code_simp
  note start = run_result [OF this]
  have "fst (run_state (reconnect_round sample_env) stopped) = Returns (Inr 35)" by code_simp
  note re = run_result [OF this]
  show ?thesis
    using restart_not_connected [OF sample_runs_reachable(3) closed] start re health by blast
qed





text \<open>
  C39.  A subscription that failed comes back.  If \<open>SubscribeWith\<close> returned an error after its
  checks, the next successful reconnection starts a dispatch goroutine with its handler, and
  with the background context instead of the caller's.
\<close>

theorem failed_subscription_revived:
  assumes "reachable (\<lambda>s. s = NewRabbitMQClient E) (client_step E) s" "validateQueue q = None" "IsConsumerReady s n"
    and sub: "run_state (SubscribeWith E ctx n q f) s = (Returns (Some e), t)"
    and re: "run_state (reconnect_round E) t = (Returns (Inr c), u)" "IsConsumerReady u n"
  shows "\<exists>g. g \<in> set (dispatchers u) \<and> d_handler g = f \<and> d_ctx g = Background \<and> conn_of (history u) (d_channel g) = Some c"
proof -
  have inv: "client_inv s" using client.inv_reachable [OF assms(1)] .
  obtain ch where "map_of (consumers s) n = Some (Some ch)" using assms(3) by (auto simp: IsConsumerReady_def split: option.splits)
  then have "run_state (subscribeWithChannel E ctx n q f) s = (Returns (Some e), t)"
    using sub assms(2) by (simp add: SubscribeWith_def State_Monad.bind_def gets_def)
  from wpD [OF subscribe_wp [OF inv] this]
  have t: "client_inv t" "\<lparr>s_consumerName = n, s_queue = q, s_handler = f\<rparr> \<in> set (subscriptions t)" by simp_all
  obtain new where new: "dispatchers u = dispatchers t @ new"
    "list_all2 (serves c (history u)) (filter (\<lambda>sub. IsConsumerReady u (s_consumerName sub)) (subscriptions t)) new"
    using wpD [OF reconnect_wp [OF t(1)] re(1)] by (auto simp: reconnected_def)
  then obtain g where "g \<in> set new" "serves c (history u) \<lparr>s_consumerName = n, s_queue = q, s_handler = f\<rparr> g"
    using list_all2_member [OF new(2), of "\<lparr>s_consumerName = n, s_queue = q, s_handler = f\<rparr>"] t(2) re(2) by auto
  then show ?thesis using new(1) by (auto simp: serves_def)
qed

theorem failed_subscription_revived_witness:
  "\<exists>e t c u g. run_state (SubscribeWith flaky_env (Ctx 2) ''c1'' ''q'' 5) (started flaky_env) = (Returns (Some e), t) \<and>
     run_state (reconnect_round flaky_env) t = (Returns (Inr c), u) \<and>
     g \<in> set (dispatchers u) \<and> d_handler g = 5 \<and> d_ctx g = Background"
proof -
  let ?t = "snd (run_state (SubscribeWith flaky_env (Ctx 2) ''c1'' ''q'' 5) (started flaky_env))"
  let ?u = "snd (run_state (reconnect_round flaky_env) ?t)"
  have "fst (run_state (SubscribeWith flaky_env (Ctx 2) ''c1'' ''q'' 5) (started flaky_env)) =
      Returns (Some (WrapError (Some (Sentinel ErrSubscribeFailed)) ''refused''))" by code_simp
  note sub = run_result [OF this]
  have "fst (run_state (reconnect_round flaky_env) ?t) = Returns (Inr 32)" by code_simp
  note re = run_result [OF this]
  have "validateQueue ''q'' = None" "IsConsumerReady (started flaky_env) ''c1''" "IsConsumerReady ?u ''c1''" by code_simp+
  then show ?thesis
    using failed_subscription_revived [OF sample_runs_reachable(2) _ _ sub re] sub re by blast
qed

text \<open>
  C17.  Shut-down is idempotent.  Once it has returned nil, calling it again returns nil, makes
  no call to the broker and changes nothing but what the runtime is told.
\<close>

theorem stop_twice:
  assumes "reachable (\<lambda>s. s = NewRabbitMQClient E) (client_step E) s"
    and "run_state (CleanupTasks E) s = (Returns None, t)" "run_state (CleanupTasks E) t = (x, u)"
  shows "x = Returns None \<and> broker_only (history u) = broker_only (history t) \<and> u = t\<lparr>history := history u\<rparr>"
proof -
  have "cleanup_post s (Returns None) t"
    using wpD [OF cleanup_background_wp [OF client.inv_reachable [OF assms(1)]] assms(2)] .
  from wpD [OF cleanup_twice [OF this] assms(3)] show ?thesis .
qed

theorem stop_twice_witness:
  "\<exists>t u. run_state (CleanupTasks sample_env) (started sample_env) = (Returns None, t) \<and>
     run_state (CleanupTasks sample_env) t = (Returns None, u) \<and> broker_only (history u) = broker_only (history t)"
proof -
  have "fst (run_state (CleanupTasks sample_env) (started sample_env)) = Returns None" by code_simp
  note stop = run_result [OF this]
  let ?t = "snd (run_state (CleanupTasks sample_env) (started sample_env))"
  have again: "fst (run_state (CleanupTasks sample_env) ?t) = Returns None \<and>
      broker_only (history (snd (run_state (CleanupTasks sample_env) ?t))) = broker_only (history ?t)"
    using stop_twice [OF sample_runs_reachable(2) stop run_result [OF refl]] by blast
  then have "run_state (CleanupTasks sample_env) ?t = (Returns None, snd (run_state (CleanupTasks sample_env) ?t))"
    by (intro run_result) blast
  with stop again show ?thesis by blast
qed

text \<open>
  C16.  The client refines an abstract life: created, configured, connected, closed.  Each step
  of a reachable client is a step of that machine under the abstraction \<open>phase_of\<close>: only
  initialisation, start, reconnection and stop move it, only in that order, and a closed client
  stays closed.
\<close>

theorem lifecycle_refines:
  assumes "reachable (\<lambda>s. s = NewRabbitMQClient E) (client_step E) s" "run_state (perform E c) s = (x, t)"
  shows "life_step c (phase_of s) (phase_of t)"
  using wpD [OF perform_life [OF client.inv_reachable [OF assms(1)]] assms(2)] .

theorem lifecycle_refines_witness:
  "life_step (CallStart Background) (phase_of initialised) Connected \<and> life_step (CallStop Background) (phase_of stopped) Closed"
proof -
  have "phase_of (snd (run_state (perform sample_env (CallStart Background)) initialised)) = Connected"
    "phase_of (snd (run_state (perform sample_env (CallStop Background)) stopped)) = Closed" by code_simp+
  then show ?thesis
    using lifecycle_refines [OF sample_runs_reachable(1) run_result [OF refl], of "CallStart Background"]
      lifecycle_refines [OF sample_runs_reachable(3) run_result [OF refl], of "CallStop Background"] by simp
qed

text \<open>
  C18.  The configuration of a client is well formed in every reachable state: the defaults are,
  \<open>InitializeResources\<close> installs a configuration only after normalising it, and nothing else
  changes it.
\<close>

theorem config_well_formed:
  assumes "durationpb_ok (dpb E)" "reachable (\<lambda>s. s = NewRabbitMQClient E) (client_step E) s"
  shows "wf_config (dpb E) (config s)"
  using assms(2)
proof (induction rule: reachable.induct)
  case (reach_init s)
  then show ?case using wf_default [OF assms(1)] by (simp add: NewRabbitMQClient_def)
next
  case (reach_step s t)
  then show ?case
    using wpD [OF perform_config [OF client.inv_reachable [OF reach_step.hyps(1)] assms(1) reach_step.IH]]
    by (auto elim!: client_step.cases)
qed

theorem config_well_formed_witness: "wf_config sample_durationpb (config stopped)"
  using config_well_formed [of sample_env, OF _ sample_runs_reachable(3)] sample_durationpb_ok
  by (simp add: sample_env_def)


end
